(* ===== verification/Js_Prelude.thy ===== *)
theory Js_Prelude
  imports Complex_Main "HOL-Library.Multiset" "HOL-Library.List_Lexorder"
begin

text \<open>
  The part of JavaScript and of its standard library that the scripts under
  \<^verbatim>\<open>src/scripts\<close> use, and the generic lemmas the component theories share.

  \<^item> A JavaScript string is the list of its UTF-16 code units (\<open>jstring\<close>); \<open>js ''abc''\<close> is the
    literal \<^verbatim>\<open>"abc"\<close>.  The default \<^verbatim>\<open>Array.prototype.sort\<close> on strings is the lexicographic order
    of code units, which is the order of \<open>HOL-Library.List_Lexorder\<close>.
  \<^item> A number is a \<open>jnum\<close>: NaN, an infinity, or a finite double given by its exact rational
    value; \<open>to_double\<close> rounds a rational to the nearest double, ties to even.
  \<^item> A value of the language is a \<open>jsval\<close>.  An object is the association list of its own
    properties in insertion order (the special enumeration order of integer-like keys is not
    tracked; where the scripts enumerate keys the order only decides which of several errors is
    reported first).
  \<^item> A thrown exception is the left injection of a sum type, \<open>bindR\<close> sequences throwing
    computations, \<open>mapR\<close> and \<open>foldR\<close> are \<^verbatim>\<open>map\<close> and \<^verbatim>\<open>for\<close> over an array whose body may throw.
\<close>

section \<open>Throwing computations\<close>

named_theorems res_simps \<open>simplification rules for throwing computations\<close>

definition bindR :: "'e + 'a \<Rightarrow> ('a \<Rightarrow> 'e + 'b) \<Rightarrow> 'e + 'b" where
  "bindR m f = (case m of Inl e \<Rightarrow> Inl e | Inr x \<Rightarrow> f x)"

definition guardR :: "bool \<Rightarrow> 'e \<Rightarrow> 'e + unit" where
  "guardR b e = (if b then Inr () else Inl e)"

lemma bindR_Inl [simp]: "bindR (Inl e) f = Inl e"
  by (simp add: bindR_def)

lemma bindR_Inr [simp]: "bindR (Inr x) f = f x"
  by (simp add: bindR_def)

lemma bindR_eq_Inr [simp, res_simps]: "bindR m f = Inr y \<longleftrightarrow> (\<exists>x. m = Inr x \<and> f x = Inr y)"
  by (auto simp: bindR_def split: sum.splits)

lemma bindR_eq_Inl [res_simps]:
  "bindR m f = Inl e \<longleftrightarrow> m = Inl e \<or> (\<exists>x. m = Inr x \<and> f x = Inl e)"
  by (auto simp: bindR_def split: sum.splits)

lemma bindR_cong [fundef_cong]:
  "m = m' \<Longrightarrow> (\<And>x. m' = Inr x \<Longrightarrow> f x = f' x) \<Longrightarrow> bindR m f = bindR m' f'"
  by (auto simp: bindR_def split: sum.splits)

lemma guardR_eq_Inr [simp, res_simps]: "guardR b e = Inr u \<longleftrightarrow> b"
  by (simp add: guardR_def)

lemma guardR_eq_Inl [simp, res_simps]: "guardR b e = Inl e' \<longleftrightarrow> \<not> b \<and> e' = e"
  by (auto simp: guardR_def)

lemma guardR_True [simp]: "guardR True e = Inr ()"
  by (simp add: guardR_def)

lemma guardR_False [simp]: "guardR False e = Inl e"
  by (simp add: guardR_def)

fun mapR :: "('a \<Rightarrow> 'e + 'b) \<Rightarrow> 'a list \<Rightarrow> 'e + 'b list" where
  "mapR f [] = Inr []"
| "mapR f (x # xs) = bindR (f x) (\<lambda>y. bindR (mapR f xs) (\<lambda>ys. Inr (y # ys)))"

fun foldR :: "('s \<Rightarrow> 'a \<Rightarrow> 'e + 's) \<Rightarrow> 's \<Rightarrow> 'a list \<Rightarrow> 'e + 's" where
  "foldR f s [] = Inr s"
| "foldR f s (x # xs) = bindR (f s x) (\<lambda>s'. foldR f s' xs)"

lemma mapR_cong [fundef_cong]:
  "xs = ys \<Longrightarrow> (\<And>x. x \<in> set ys \<Longrightarrow> f x = g x) \<Longrightarrow> mapR f xs = mapR g ys"
  by (induction ys arbitrary: xs) auto

lemma foldR_cong [fundef_cong]:
  "s = t \<Longrightarrow> xs = ys \<Longrightarrow> (\<And>x u. x \<in> set ys \<Longrightarrow> f u x = g u x) \<Longrightarrow> foldR f s xs = foldR g t ys"
proof (induction ys arbitrary: xs s t)
  case (Cons y ys)
  then show ?case by (auto simp: bindR_def split: sum.splits)
qed simp

lemma mapR_Inr_iff: "mapR f xs = Inr ys \<longleftrightarrow> list_all2 (\<lambda>x y. f x = Inr y) xs ys"
  by (induction xs arbitrary: ys) (auto simp: list_all2_Cons1)

lemma mapR_Inr_length: "mapR f xs = Inr ys \<Longrightarrow> length ys = length xs"
  by (simp add: mapR_Inr_iff list_all2_lengthD)

lemma mapR_Inr_set: "mapR f xs = Inr ys \<Longrightarrow> y \<in> set ys \<Longrightarrow> \<exists>x \<in> set xs. f x = Inr y"
  by (induction xs arbitrary: ys) auto

lemma mapR_Inr_set': "mapR f xs = Inr ys \<Longrightarrow> x \<in> set xs \<Longrightarrow> \<exists>y \<in> set ys. f x = Inr y"
  by (induction xs arbitrary: ys) auto

lemma mapR_id: "(\<And>x. x \<in> set xs \<Longrightarrow> f x = Inr x) \<Longrightarrow> mapR f xs = Inr xs"
  by (induction xs) auto

lemma foldR_append: "foldR f s (xs @ ys) = bindR (foldR f s xs) (\<lambda>s'. foldR f s' ys)"
  by (induction xs arbitrary: s) (auto simp: bindR_def split: sum.splits)

text \<open>The loop rule: a property of the loop state that every iteration keeps.\<close>

lemma foldR_invariant:
  assumes "foldR f s xs = Inr t" and "I s"
    and "\<And>u x v. I u \<Longrightarrow> x \<in> set xs \<Longrightarrow> f u x = Inr v \<Longrightarrow> I v"
  shows "I t"
  using assms
proof (induction xs arbitrary: s)
  case (Cons x xs)
  from Cons.prems(1) obtain v where v: "f s x = Inr v" and t: "foldR f v xs = Inr t" by auto
  have "I v" by (rule Cons.prems(3)[OF Cons.prems(2) _ v]) simp
  then show ?case
    by (rule Cons.IH[OF t]) (rule Cons.prems(3), assumption, simp_all)
qed simp

text \<open>Every element was processed in some state, and the rest of the loop ran from the result.\<close>

lemma foldR_step:
  "foldR f s xs = Inr t \<Longrightarrow> x \<in> set xs \<Longrightarrow>
     \<exists>u v ys. f u x = Inr v \<and> foldR f v ys = Inr t \<and> set ys \<subseteq> set xs"
proof (induction xs arbitrary: s)
  case (Cons y xs)
  from Cons.prems(1) obtain v where v: "f s y = Inr v" "foldR f v xs = Inr t" by auto
  show ?case
  proof (cases "x = y")
    case True
    with v show ?thesis by (intro exI[of _ s] exI[of _ v] exI[of _ xs]) auto
  next
    case False
    with Cons.prems(2) have "x \<in> set xs" by simp
    from Cons.IH[OF v(2) this] show ?thesis by (metis list.set_intros(2) subset_iff)
  qed
qed simp

text \<open>A property of the state and of the elements processed so far.\<close>

lemma foldR_prefix:
  assumes "foldR f s xs = Inr t" and "I s ps"
    and "\<And>u qs x v. I u qs \<Longrightarrow> f u x = Inr v \<Longrightarrow> I v (qs @ [x])"
  shows "I t (ps @ xs)"
  using assms(1,2)
proof (induction xs arbitrary: s ps)
  case (Cons x xs)
  then obtain v where v: "f s x = Inr v" "foldR f v xs = Inr t" by auto
  have "I v (ps @ [x])" by (rule assms(3)[OF Cons.prems(2) v(1)])
  from Cons.IH[OF v(2) this] show ?case by simp
qed simp

lemma foldR_unit: "foldR f () xs = Inr () \<longleftrightarrow> (\<forall>x \<in> set xs. f () x = Inr ())"
  by (induction xs) auto

section \<open>Strings\<close>

type_synonym jstring = "nat list"

definition js :: "string \<Rightarrow> jstring" where
  "js s = map of_char s"

definition ju :: "char \<Rightarrow> nat" where
  "ju c = of_char c"

lemma js_inject [simp]: "js s = js t \<longleftrightarrow> s = t"
  unfolding js_def by (rule inj_map_eq_map) (auto intro: injI)

lemma js_Nil [simp]: "js [] = []"
  by (simp add: js_def)

lemma js_Cons: "js (c # cs) = of_char c # js cs"
  by (simp add: js_def)

lemma js_eq_Nil [simp]: "js s = [] \<longleftrightarrow> s = []"
  by (simp add: js_def)

lemma length_js [simp]: "length (js s) = length s"
  by (simp add: js_def)

lemma js_append: "js (s @ t) = js s @ js t"
  by (simp add: js_def)

text \<open>White space of \<^verbatim>\<open>trim\<close> and of \<^verbatim>\<open>\s\<close> (ECMAScript WhiteSpace and LineTerminator).\<close>

definition is_ws :: "nat \<Rightarrow> bool" where
  "is_ws c \<longleftrightarrow> c \<in> {9, 10, 11, 12, 13, 32, 160, 5760, 8232, 8233, 8239, 8287, 12288, 65279}
     \<or> (8192 \<le> c \<and> c \<le> 8202)"

lemma is_ws_code [code]:
  "is_ws c \<longleftrightarrow> (if c < 33 then c = 32 \<or> (9 \<le> c \<and> c \<le> 13)
     else if c < 128 then False
     else c \<in> {160, 5760, 8232, 8233, 8239, 8287, 12288, 65279} \<or> (8192 \<le> c \<and> c \<le> 8202))"
  by (auto simp: is_ws_def)

definition is_digit :: "nat \<Rightarrow> bool" where
  "is_digit c \<longleftrightarrow> 48 \<le> c \<and> c \<le> 57"

definition is_lower :: "nat \<Rightarrow> bool" where
  "is_lower c \<longleftrightarrow> 97 \<le> c \<and> c \<le> 122"

definition is_upper :: "nat \<Rightarrow> bool" where
  "is_upper c \<longleftrightarrow> 65 \<le> c \<and> c \<le> 90"

definition is_alnum :: "nat \<Rightarrow> bool" where
  "is_alnum c \<longleftrightarrow> is_digit c \<or> is_lower c \<or> is_upper c"

definition is_lower_hex :: "nat \<Rightarrow> bool" where
  "is_lower_hex c \<longleftrightarrow> is_digit c \<or> (97 \<le> c \<and> c \<le> 102)"

definition is_hex :: "nat \<Rightarrow> bool" where
  "is_hex c \<longleftrightarrow> is_lower_hex c \<or> (65 \<le> c \<and> c \<le> 70)"

lemmas char_class_defs = is_ws_def is_digit_def is_lower_def is_upper_def is_alnum_def
  is_lower_hex_def is_hex_def

definition trim_start :: "jstring \<Rightarrow> jstring" where
  "trim_start s = dropWhile is_ws s"

definition trim_end :: "jstring \<Rightarrow> jstring" where
  "trim_end s = rev (dropWhile is_ws (rev s))"

definition trim :: "jstring \<Rightarrow> jstring" where
  "trim s = trim_end (trim_start s)"

definition starts_with :: "jstring \<Rightarrow> jstring \<Rightarrow> bool" where
  "starts_with s p \<longleftrightarrow> take (length p) s = p"

definition ends_with :: "jstring \<Rightarrow> jstring \<Rightarrow> bool" where
  "ends_with s p \<longleftrightarrow> length p \<le> length s \<and> drop (length s - length p) s = p"

text \<open>\<^verbatim>\<open>s.indexOf(c)\<close> for a one-character needle; \<open>None\<close> is \<^verbatim>\<open>-1\<close>.\<close>

fun index_of :: "nat \<Rightarrow> jstring \<Rightarrow> nat option" where
  "index_of c [] = None"
| "index_of c (x # xs) = (if x = c then Some 0 else map_option Suc (index_of c xs))"

fun split_on :: "nat \<Rightarrow> jstring \<Rightarrow> jstring list" where
  "split_on c [] = [[]]"
| "split_on c (x # xs) =
     (if x = c then [] # split_on c xs
      else (case split_on c xs of [] \<Rightarrow> [[x]] | p # ps \<Rightarrow> (x # p) # ps))"

fun join :: "jstring \<Rightarrow> jstring list \<Rightarrow> jstring" where
  "join sep [] = []"
| "join sep [x] = x"
| "join sep (x # y # ys) = x @ sep @ join sep (y # ys)"

lemma trim_Nil [simp]: "trim [] = []"
  by (simp add: trim_def trim_start_def trim_end_def)

lemma trim_end_last: "trim_end s \<noteq> [] \<Longrightarrow> \<not> is_ws (last (trim_end s))"
  unfolding trim_end_def by (metis hd_dropWhile hd_rev rev_is_Nil_conv rev_rev_ident)

lemma trim_end_id: "s = [] \<or> \<not> is_ws (last s) \<Longrightarrow> trim_end s = s"
  unfolding trim_end_def by (cases s rule: rev_cases) auto

lemma trim_end_prefix: "\<exists>w. s = trim_end s @ w"
  unfolding trim_end_def by (metis rev_append rev_rev_ident takeWhile_dropWhile_id)

lemma trim_start_id: "s = [] \<or> \<not> is_ws (hd s) \<Longrightarrow> trim_start s = s"
  unfolding trim_start_def by (cases s) auto

lemma trim_id_iff: "trim s = s \<longleftrightarrow> s = [] \<or> (\<not> is_ws (hd s) \<and> \<not> is_ws (last s))"
proof
  assume *: "trim s = s"
  show "s = [] \<or> (\<not> is_ws (hd s) \<and> \<not> is_ws (last s))"
  proof (cases "s = []")
    case False
    have "length (trim_start s) \<le> length s"
      unfolding trim_start_def by (simp add: length_dropWhile_le)
    moreover have "length (trim_end (trim_start s)) \<le> length (trim_start s)"
      unfolding trim_end_def by (metis length_dropWhile_le length_rev)
    ultimately have "length (trim_start s) = length s" using * by (simp add: trim_def)
    then have ts: "trim_start s = s"
      unfolding trim_start_def
      by (metis append_eq_append_conv self_append_conv2 takeWhile_dropWhile_id)
    then have "\<not> is_ws (hd s)" using False
      unfolding trim_start_def by (metis hd_dropWhile)
    moreover have "\<not> is_ws (last s)" using trim_end_last[of s] False * ts by (simp add: trim_def)
    ultimately show ?thesis by simp
  qed simp
qed (auto simp: trim_def trim_start_id trim_end_id)

lemma trim_trim [simp]: "trim (trim s) = trim s"
proof (cases "trim s = []")
  case False
  obtain w where w: "trim_start s = trim s @ w"
    unfolding trim_def using trim_end_prefix by blast
  have "hd (trim s) = hd (trim_start s)" "trim_start s \<noteq> []"
    using w False by (metis hd_append2, auto)
  then have "\<not> is_ws (hd (trim s))"
    unfolding trim_start_def by (metis hd_dropWhile)
  moreover have "\<not> is_ws (last (trim s))"
    using False trim_end_last unfolding trim_def by blast
  ultimately show ?thesis by (simp add: trim_id_iff)
qed simp

lemma trim_not_Nil: "t \<noteq> [] \<Longrightarrow> \<not> is_ws (hd t) \<Longrightarrow> trim t \<noteq> []"
  by (cases t) (auto simp: trim_def trim_start_def trim_end_def dropWhile_eq_Nil_conv)

lemma trim_printable:
  "s \<noteq> [] \<Longrightarrow> 33 \<le> hd s \<Longrightarrow> hd s < 127 \<Longrightarrow> 33 \<le> last s \<Longrightarrow> last s < 127 \<Longrightarrow> trim s = s"
  by (auto simp: trim_id_iff is_ws_def)

lemma split_on_not_Nil [simp]: "split_on c s \<noteq> []"
  by (induction s) (auto split: list.splits)

lemma join_split_on [simp]: "join [c] (split_on c s) = s"
proof (induction s)
  case (Cons x s)
  obtain p ps where "split_on c s = p # ps" by (meson neq_Nil_conv split_on_not_Nil)
  with Cons show ?case by (cases ps) auto
qed simp

lemma split_on_no_sep: "p \<in> set (split_on c s) \<Longrightarrow> c \<notin> set p"
proof (induction s arbitrary: p)
  case (Cons x s)
  obtain q qs where "split_on c s = q # qs" by (meson neq_Nil_conv split_on_not_Nil)
  with Cons show ?case by (auto split: if_splits)
qed simp

lemma split_on_single: "c \<notin> set s \<Longrightarrow> split_on c s = [s]"
  by (induction s) auto

lemma split_on_append: "c \<notin> set p \<Longrightarrow> split_on c (p @ c # s) = p # split_on c s"
  by (induction p) auto

lemma split_on_join:
  "ps \<noteq> [] \<Longrightarrow> (\<forall>p \<in> set ps. c \<notin> set p) \<Longrightarrow> split_on c (join [c] ps) = ps"
proof (induction ps rule: induct_list012)
  case (3 x y zs)
  then show ?case by (simp add: split_on_append)
qed (auto simp: split_on_single)

lemma set_split_on: "x \<in> set p \<Longrightarrow> p \<in> set (split_on c s) \<Longrightarrow> x \<in> set s"
proof (induction s arbitrary: p)
  case (Cons y s)
  obtain q qs where "split_on c s = q # qs" by (meson neq_Nil_conv split_on_not_Nil)
  with Cons show ?case by (fastforce split: if_splits)
qed simp

lemma index_of_SomeD:
  "index_of c s = Some i \<Longrightarrow> i < length s \<and> s ! i = c \<and> c \<notin> set (take i s)"
proof (induction s arbitrary: i)
  case (Cons x s)
  then show ?case by (cases i) (auto split: if_splits)
qed simp

lemma index_of_None_iff: "index_of c s = None \<longleftrightarrow> c \<notin> set s"
  by (induction s) auto

lemma index_of_split:
  "index_of c s = Some i \<Longrightarrow> s = take i s @ c # drop (Suc i) s"
  by (metis index_of_SomeD id_take_nth_drop)

lemma index_of_append_notin:
  "c \<notin> set p \<Longrightarrow> index_of c (p @ c # s) = Some (length p)"
  by (induction p) auto

lemma notin_append_inject:
  fixes c :: nat
  shows "c \<notin> set a \<Longrightarrow> c \<notin> set b \<Longrightarrow> a @ c # x = b @ c # y \<longleftrightarrow> a = b \<and> x = y"
  using index_of_append_notin[of c a x] index_of_append_notin[of c b y] by auto

section \<open>Numbers\<close>

datatype jnum = NaN | Infinity bool | Fin rat

definition is_finite :: "jnum \<Rightarrow> bool" where
  "is_finite x \<longleftrightarrow> (case x of Fin r \<Rightarrow> True | _ \<Rightarrow> False)"

definition max_safe :: int where
  "max_safe = 2 ^ 53 - 1"

definition is_integral :: "rat \<Rightarrow> bool" where
  "is_integral r \<longleftrightarrow> of_int \<lfloor>r\<rfloor> = r"

definition is_integer :: "jnum \<Rightarrow> bool" where
  "is_integer x \<longleftrightarrow> (case x of Fin r \<Rightarrow> is_integral r | _ \<Rightarrow> False)"

definition is_safe_integer :: "jnum \<Rightarrow> bool" where
  "is_safe_integer x \<longleftrightarrow>
     (case x of Fin r \<Rightarrow> is_integral r \<and> \<bar>r\<bar> \<le> of_int max_safe | _ \<Rightarrow> False)"

text \<open>Rounding to the nearest IEEE-754 double, ties to even, with overflow to an infinity.\<close>

definition round_half_even :: "rat \<Rightarrow> int" where
  "round_half_even x =
     (let f = \<lfloor>x\<rfloor>; d = x - of_int f
      in if d < 1 / 2 then f else if d > 1 / 2 then f + 1 else if even f then f else f + 1)"

fun bit_length :: "nat \<Rightarrow> nat" where
  "bit_length n = (if n = 0 then 0 else Suc (bit_length (n div 2)))"

declare bit_length.simps [simp del]

definition binary_exponent :: "rat \<Rightarrow> int" where
  "binary_exponent x =
     (let (n, d) = quotient_of x; k = int (bit_length (nat n)) - int (bit_length (nat d))
      in if 2 powi k \<le> x then k else k - 1)"

definition to_double :: "rat \<Rightarrow> jnum" where
  "to_double x =
     (if is_integral x \<and> \<bar>x\<bar> \<le> 2 ^ 53 then Fin x
      else (let q = max (- 1074) (binary_exponent \<bar>x\<bar> - 52);
                r = of_int (round_half_even (\<bar>x\<bar> / 2 powi q)) * 2 powi q
            in if 2 powi 1024 \<le> r then Infinity (x < 0) else Fin (sgn x * r)))"

lemma is_integral_of_int [simp]: "is_integral (of_int n)"
  by (simp add: is_integral_def)

lemma to_double_int: "\<bar>n\<bar> \<le> 2 ^ 53 \<Longrightarrow> to_double (of_int n) = Fin (of_int n)"
proof -
  assume "\<bar>n\<bar> \<le> 2 ^ 53"
  then have "of_int \<bar>n\<bar> \<le> (of_int (2 ^ 53) :: rat)" by (simp only: of_int_le_iff)
  then have "\<bar>of_int n\<bar> \<le> (2 ^ 53 :: rat)" by simp
  then show ?thesis by (simp add: to_double_def)
qed

section \<open>Values\<close>

datatype jsval =
    JUndef
  | JNull
  | JBool bool
  | JNum jnum
  | JStr jstring
  | JArr "jsval list"
  | JObj "(jstring \<times> jsval) list"

text \<open>\<open>getp v k\<close> is the property \<open>k\<close> of a value, as the optional chaining \<^verbatim>\<open>v?.k\<close> reads it:
  an absent property, and every property of null and undefined, is \<open>JUndef\<close>.\<close>

definition getp :: "jsval \<Rightarrow> string \<Rightarrow> jsval" where
  "getp v k = (case v of JObj fs \<Rightarrow> (case map_of fs (js k) of Some x \<Rightarrow> x | None \<Rightarrow> JUndef)
               | _ \<Rightarrow> JUndef)"

definition is_record :: "jsval \<Rightarrow> bool" where
  "is_record v \<longleftrightarrow> (case v of JObj _ \<Rightarrow> True | _ \<Rightarrow> False)"

definition nullish :: "jsval \<Rightarrow> bool" where
  "nullish v \<longleftrightarrow> v = JUndef \<or> v = JNull"

text \<open>\<^verbatim>\<open>a ?? b\<close>\<close>

definition coalesce :: "jsval \<Rightarrow> jsval \<Rightarrow> jsval" where
  "coalesce a b = (if nullish a then b else a)"

definition truthy :: "jsval \<Rightarrow> bool" where
  "truthy v = (case v of JUndef \<Rightarrow> False | JNull \<Rightarrow> False | JBool b \<Rightarrow> b
     | JNum x \<Rightarrow> x \<noteq> NaN \<and> x \<noteq> Fin 0 | JStr s \<Rightarrow> s \<noteq> [] | JArr _ \<Rightarrow> True | JObj _ \<Rightarrow> True)"

lemma is_record_cases [simp]:
  "is_record (JObj fs)" "\<not> is_record JUndef" "\<not> is_record JNull" "\<not> is_record (JBool b)"
  "\<not> is_record (JNum x)" "\<not> is_record (JStr s)" "\<not> is_record (JArr xs)"
  by (simp_all add: is_record_def)

lemma is_recordE: "is_record v \<Longrightarrow> (\<And>fs. v = JObj fs \<Longrightarrow> P) \<Longrightarrow> P"
  by (cases v) auto

section \<open>Sorting with a comparison function\<close>

text \<open>\<^verbatim>\<open>Array.prototype.sort\<close> with a comparator is stable; for a comparator that is a total
  preorder every stable sort gives the same list, so insertion sort models it.\<close>

fun insert_by :: "('a \<Rightarrow> 'a \<Rightarrow> bool) \<Rightarrow> 'a \<Rightarrow> 'a list \<Rightarrow> 'a list" where
  "insert_by le x [] = [x]"
| "insert_by le x (y # ys) = (if le x y then x # y # ys else y # insert_by le x ys)"

fun sort_by :: "('a \<Rightarrow> 'a \<Rightarrow> bool) \<Rightarrow> 'a list \<Rightarrow> 'a list" where
  "sort_by le [] = []"
| "sort_by le (x # xs) = insert_by le x (sort_by le xs)"

lemma mset_insert_by [simp]: "mset (insert_by le x xs) = add_mset x (mset xs)"
  by (induction xs) auto

lemma mset_sort_by [simp]: "mset (sort_by le xs) = mset xs"
  by (induction xs) auto

lemma set_sort_by [simp]: "set (sort_by le xs) = set xs"
  by (metis mset_sort_by set_mset_mset)

lemma length_sort_by [simp]: "length (sort_by le xs) = length xs"
  by (metis mset_sort_by size_mset)

lemma sort_by_Nil_iff [simp]: "sort_by le xs = [] \<longleftrightarrow> xs = []"
  by (metis length_0_conv length_sort_by)

text \<open>\<^verbatim>\<open>[...new Set(xs)]\<close>: the first occurrence of every element, in order.\<close>

definition uniq :: "'a list \<Rightarrow> 'a list" where
  "uniq xs = rev (remdups (rev xs))"

lemma set_uniq [simp]: "set (uniq xs) = set xs"
  by (simp add: uniq_def)

lemma distinct_uniq [simp]: "distinct (uniq xs)"
  by (simp add: uniq_def)

lemma length_uniq_iff: "length (uniq xs) = length xs \<longleftrightarrow> distinct xs"
  using length_remdups_eq[of "rev xs"] remdups_id_iff_distinct[of "rev xs"] by (simp add: uniq_def)

lemma key_iff_map_of: "k \<in> fst ` set m \<longleftrightarrow> (\<exists>v. map_of m k = Some v)"
  using map_of_eq_None_iff[of m k] by auto

text \<open>\<^verbatim>\<open>map.set(k, v)\<close>: the value of a present key is replaced where it stands.\<close>

definition put :: "(jstring \<times> 'v) list \<Rightarrow> jstring \<Rightarrow> 'v \<Rightarrow> (jstring \<times> 'v) list" where
  "put m k v = (if k \<in> fst ` set m then map (\<lambda>(k', v'). (k', if k' = k then v else v')) m
                else m @ [(k, v)])"

section \<open>Counting with a map from keys to counts\<close>

text \<open>The scripts count the members of an array in a \<^verbatim>\<open>Map\<close> whose keys are kept in insertion
  order.  \<open>bump\<close> is \<^verbatim>\<open>counts.set(key, (counts.get(key) ?? 0) + 1)\<close>.\<close>

type_synonym 'k counts = "('k \<times> nat) list"

definition get_count :: "'k counts \<Rightarrow> 'k \<Rightarrow> nat" where
  "get_count m k = (case map_of m k of Some n \<Rightarrow> n | None \<Rightarrow> 0)"

fun bump :: "'k counts \<Rightarrow> 'k \<Rightarrow> 'k counts" where
  "bump [] k = [(k, 1)]"
| "bump ((k', n) # m) k = (if k' = k then (k', Suc n) # m else (k', n) # bump m k)"

definition tally :: "'k list \<Rightarrow> 'k counts" where
  "tally ks = foldl bump [] ks"

lemma get_count_bump: "get_count (bump m k) x = get_count m x + (if x = k then 1 else 0)"
  by (induction m k rule: bump.induct) (auto simp: get_count_def)

lemma keys_bump: "set (map fst (bump m k)) = insert k (set (map fst m))"
  by (induction m k rule: bump.induct) auto

lemma distinct_bump: "distinct (map fst m) \<Longrightarrow> distinct (map fst (bump m k))"
proof (induction m k rule: bump.induct)
  case (2 k' n m k)
  then show ?case using keys_bump[of m k] by auto
qed simp

lemma get_count_foldl: "get_count (foldl bump m ks) x = get_count m x + count (mset ks) x"
  by (induction ks arbitrary: m) (auto simp: get_count_bump)

lemma get_count_tally [simp]: "get_count (tally ks) x = count (mset ks) x"
  by (simp add: tally_def get_count_foldl get_count_def[of "[]"])

lemma keys_tally [simp]: "fst ` set (tally ks) = set ks"
proof -
  have "set (map fst (foldl bump m ks)) = set (map fst m) \<union> set ks" for m
    by (induction ks arbitrary: m) (auto simp: keys_bump simp del: set_map)
  from this[of "[]"] show ?thesis by (simp add: tally_def)
qed

lemma distinct_keys_tally: "distinct (map fst (tally ks))"
proof -
  have "distinct (map fst m) \<Longrightarrow> distinct (map fst (foldl bump m ks))" for m
    by (induction ks arbitrary: m) (auto simp: distinct_bump)
  from this[of "[]"] show ?thesis by (simp add: tally_def)
qed

lemma mset_map_inj_on:
  assumes "inj_on f A" "set xs \<subseteq> A" "set ys \<subseteq> A"
  shows "mset (map f xs) = mset (map f ys) \<longleftrightarrow> mset xs = mset ys"
proof
  have inverse: "image_mset (inv_into A f) (image_mset f (mset zs)) = mset zs" if "set zs \<subseteq> A" for zs
  proof -
    have "image_mset (\<lambda>x. inv_into A f (f x)) (mset zs) = image_mset (\<lambda>x. x) (mset zs)"
      using that assms(1) by (intro image_mset_cong) auto
    then show ?thesis by (simp add: image_mset.compositionality comp_def)
  qed
  assume "mset (map f xs) = mset (map f ys)"
  then have "image_mset f (mset xs) = image_mset f (mset ys)" by simp
  then show "mset xs = mset ys" using inverse[OF assms(2)] inverse[OF assms(3)] by metis
qed simp

end
