(* ===== verification/Js_Runtime.thy ===== *)
theory Js_Runtime
  imports Js_Prelude
begin

text \<open>
  Two pieces of the Node.js runtime.  \<open>jsenv\<close> collects the functions the scripts take from
  native libraries whose code is not in the repository (ICU case mapping and collation, OpenSSL
  digests of bytes, the number printer, \<^verbatim>\<open>Date.parse\<close> and \<^verbatim>\<open>toISOString\<close>, the lenient base64 decoder of
  \<^verbatim>\<open>Buffer.from\<close>); every definition that uses one
  of them takes the record as an argument, so the theorems hold whatever these functions do
  unless a hypothesis says otherwise.  \<open>utf8_decode\<close> is \<^verbatim>\<open>TextDecoder("utf-8", {fatal: true})\<close>
  and \<open>utf8_encode\<close> is the byte form of a string that \<^verbatim>\<open>Buffer.from\<close> and \<^verbatim>\<open>byteLength\<close> use.
\<close>

section \<open>Native functions\<close>

record jsenv =
  js_lower :: "jstring \<Rightarrow> jstring"
  js_upper :: "jstring \<Rightarrow> jstring"
  js_locale_le :: "jstring \<Rightarrow> jstring \<Rightarrow> bool"
  js_hash :: "jstring \<Rightarrow> nat list \<Rightarrow> jstring"
  js_num_text :: "jnum \<Rightarrow> jstring"
  js_date_parse :: "jstring \<Rightarrow> jnum"
  js_iso :: "jnum \<Rightarrow> jstring"
  js_b64_decode :: "jstring \<Rightarrow> nat list"

text \<open>Digits of a number in a base up to ten, most significant first (\<^verbatim>\<open>n.toString(base)\<close>).\<close>

fun base_digits :: "nat \<Rightarrow> nat \<Rightarrow> jstring" where
  "base_digits b n = (if b < 2 \<or> n < b then [48 + n] else base_digits b (n div b) @ [48 + n mod b])"

declare base_digits.simps [simp del]

definition nat_text :: "nat \<Rightarrow> jstring" where
  "nat_text n = base_digits 10 n"

definition ascii_lower :: "jstring \<Rightarrow> jstring" where
  "ascii_lower s = map (\<lambda>c. if is_upper c then c + 32 else c) s"

definition ascii_upper :: "jstring \<Rightarrow> jstring" where
  "ascii_upper s = map (\<lambda>c. if is_lower c then c - 32 else c) s"

text \<open>\<^verbatim>\<open>Buffer.toString("base64")\<close>, \<^verbatim>\<open>Buffer.from(s, "hex")\<close> and \<^verbatim>\<open>Buffer.toString("hex")\<close>.\<close>

definition base64_char :: "nat \<Rightarrow> nat" where
  "base64_char n = (if n < 26 then 65 + n else if n < 52 then 71 + n
     else if n < 62 then n - 4 else if n = 62 then 43 else 47)"

fun base64_encode :: "nat list \<Rightarrow> jstring" where
  "base64_encode [] = []"
| "base64_encode [a] = [base64_char (a div 4), base64_char (a mod 4 * 16), 61, 61]"
| "base64_encode [a, b] =
     [base64_char (a div 4), base64_char (a mod 4 * 16 + b div 16), base64_char (b mod 16 * 4), 61]"
| "base64_encode (a # b # c # s) =
     [base64_char (a div 4), base64_char (a mod 4 * 16 + b div 16),
      base64_char (b mod 16 * 4 + c div 64), base64_char (c mod 64)] @ base64_encode s"

definition base64_value :: "nat \<Rightarrow> nat" where
  "base64_value c = (if is_upper c then c - 65 else if is_lower c then c - 71
     else if is_digit c then c + 4 else if c = 43 then 62 else 63)"

text \<open>The decoder on well-formed input, used to evaluate the model.\<close>

fun base64_decode :: "jstring \<Rightarrow> nat list" where
  "base64_decode (a # b # c # d # s) =
     (base64_value a * 4 + base64_value b div 16)
     # (if c = 61 then [] else ((base64_value b mod 16 * 16 + base64_value c div 4)
        # (if d = 61 then [] else [base64_value c mod 4 * 64 + base64_value d])))
     @ base64_decode s"
| "base64_decode _ = []"

definition hex_value :: "nat \<Rightarrow> nat" where
  "hex_value c = (if is_digit c then c - 48 else if 97 \<le> c then c - 87 else c - 55)"

definition hex_digit :: "nat \<Rightarrow> nat" where
  "hex_digit n = (if n < 10 then 48 + n else 87 + n)"

fun hex_decode :: "jstring \<Rightarrow> nat list" where
  "hex_decode (a # b # s) = (16 * hex_value a + hex_value b) # hex_decode s"
| "hex_decode _ = []"

definition hex_encode :: "nat list \<Rightarrow> jstring" where
  "hex_encode bs = concat (map (\<lambda>b. [hex_digit (b div 16), hex_digit (b mod 16)]) bs)"

lemma length_hex_decode: "length (hex_decode s) = length s div 2"
  by (induction s rule: hex_decode.induct) auto

text \<open>A concrete runtime for evaluating the model: ASCII case mapping, code-unit collation,
  decimal integers, dates given as milliseconds, and a text in place of its digest.\<close>

definition sample_env :: jsenv where
  "sample_env =
     \<lparr>js_lower = ascii_lower, js_upper = ascii_upper, js_locale_le = (\<lambda>a b. a \<le> b),
      js_hash = (\<lambda>a s. s),
      js_num_text = (\<lambda>x. case x of Fin r \<Rightarrow> base_digits 10 (nat \<lfloor>r\<rfloor>) | _ \<Rightarrow> []),
      js_date_parse = (\<lambda>s. Fin (of_nat (foldl (\<lambda>a c. 10 * a + (c - 48)) 0 s))),
      js_iso = (\<lambda>x. case x of Fin r \<Rightarrow> base_digits 10 (nat \<lfloor>r\<rfloor>) | _ \<Rightarrow> []),
      js_b64_decode = base64_decode\<rparr>"

lemma sample_env_simps: "js_lower sample_env = ascii_lower" "js_upper sample_env = ascii_upper"
  "js_b64_decode sample_env = base64_decode" "js_locale_le sample_env = (\<lambda>a b. a \<le> b)"
  "js_date_parse sample_env = (\<lambda>s. Fin (of_nat (foldl (\<lambda>a c. 10 * a + (c - 48)) 0 s)))"
  by (simp_all add: sample_env_def)

section \<open>UTF-8\<close>

text \<open>A code point above the basic plane is a surrogate pair in the string.\<close>

definition utf16 :: "nat \<Rightarrow> jstring" where
  "utf16 p = (if p < 65536 then [p]
              else [55296 + (p - 65536) div 1024, 56320 + (p - 65536) mod 1024])"

definition is_cont :: "nat \<Rightarrow> bool" where
  "is_cont b \<longleftrightarrow> 128 \<le> b \<and> b < 192"

text \<open>One byte is ASCII; otherwise the lead byte fixes the length, and overlong forms,
  surrogates and code points above \<^verbatim>\<open>U+10FFFF\<close> are refused.\<close>

fun utf8_units :: "nat list \<Rightarrow> jstring option" where
  "utf8_units [] = Some []"
| "utf8_units (a # bs) =
     (if a < 128 then map_option (Cons a) (utf8_units bs)
      else case bs of
        [] \<Rightarrow> None
      | b # bs1 \<Rightarrow>
          if 194 \<le> a \<and> a < 224 \<and> is_cont b
          then map_option (\<lambda>r. utf16 ((a - 192) * 64 + (b - 128)) @ r) (utf8_units bs1)
          else (case bs1 of
            [] \<Rightarrow> None
          | c # bs2 \<Rightarrow>
              if 224 \<le> a \<and> a < 240 \<and> is_cont b \<and> is_cont c
                 \<and> (a = 224 \<longrightarrow> 160 \<le> b) \<and> (a = 237 \<longrightarrow> b < 160)
              then map_option
                     (\<lambda>r. utf16 ((a - 224) * 4096 + (b - 128) * 64 + (c - 128)) @ r)
                     (utf8_units bs2)
              else (case bs2 of
                [] \<Rightarrow> None
              | d # bs3 \<Rightarrow>
                  if 240 \<le> a \<and> a < 245 \<and> is_cont b \<and> is_cont c \<and> is_cont d
                     \<and> (a = 240 \<longrightarrow> 144 \<le> b) \<and> (a = 244 \<longrightarrow> b < 144)
                  then map_option
                         (\<lambda>r. utf16 ((a - 240) * 262144 + (b - 128) * 4096
                                      + (c - 128) * 64 + (d - 128)) @ r)
                         (utf8_units bs3)
                  else None)))"

text \<open>The decoder drops one leading byte-order mark.\<close>

definition utf8_decode :: "nat list \<Rightarrow> jstring option" where
  "utf8_decode bs = utf8_units (if take 3 bs = [239, 187, 191] then drop 3 bs else bs)"

definition is_high :: "nat \<Rightarrow> bool" where
  "is_high c \<longleftrightarrow> 55296 \<le> c \<and> c < 56320"

definition is_low :: "nat \<Rightarrow> bool" where
  "is_low c \<longleftrightarrow> 56320 \<le> c \<and> c < 57344"

text \<open>A lone surrogate is written as \<^verbatim>\<open>U+FFFD\<close>.\<close>

definition utf8_point :: "nat \<Rightarrow> nat list" where
  "utf8_point p =
     (if p < 128 then [p]
      else if p < 2048 then [192 + p div 64, 128 + p mod 64]
      else if p < 65536 then [224 + p div 4096, 128 + p div 64 mod 64, 128 + p mod 64]
      else [240 + p div 262144, 128 + p div 4096 mod 64, 128 + p div 64 mod 64, 128 + p mod 64])"

fun utf8_encode :: "jstring \<Rightarrow> nat list" where
  "utf8_encode [] = []"
| "utf8_encode [c] = utf8_point (if is_high c \<or> is_low c then 65533 else c)"
| "utf8_encode (c # d # s) =
     (if is_high c \<and> is_low d
      then utf8_point (65536 + (c - 55296) * 1024 + (d - 56320)) @ utf8_encode s
      else utf8_point (if is_high c \<or> is_low c then 65533 else c) @ utf8_encode (d # s))"

definition is_ascii :: "jstring \<Rightarrow> bool" where
  "is_ascii s \<longleftrightarrow> list_all (\<lambda>c. c < 128) s"

lemma is_ascii_simps [simp]:
  "is_ascii []" "is_ascii (c # s) \<longleftrightarrow> c < 128 \<and> is_ascii s"
  "is_ascii (s @ t) \<longleftrightarrow> is_ascii s \<and> is_ascii t"
  by (simp_all add: is_ascii_def)

lemma utf8_units_ascii: "is_ascii s \<Longrightarrow> utf8_units s = Some s"
  by (induction s) auto

lemma utf8_decode_ascii: "is_ascii s \<Longrightarrow> utf8_decode s = Some s"
proof -
  assume a: "is_ascii s"
  have "take 3 s \<noteq> [239, 187, 191]"
  proof
    assume "take 3 s = [239, 187, 191]"
    then have "239 \<in> set s" by (metis list.set_intros(1) set_take_subset subsetD)
    with a show False by (auto simp: is_ascii_def list_all_iff)
  qed
  with a show ?thesis by (simp add: utf8_decode_def utf8_units_ascii)
qed

lemma utf8_encode_ascii: "is_ascii s \<Longrightarrow> utf8_encode s = s"
  by (induction s rule: utf8_encode.induct)
    (auto simp: is_high_def is_low_def utf8_point_def)

end
