(* ===== verification/Strict_Json.thy ===== *)
theory Strict_Json
  imports Js_Runtime
begin

text \<open>
  The duplicate-key-rejecting JSON reader and the canonical JSON writer of
  \<^verbatim>\<open>src/scripts/supply-chain/policy.mjs\<close>: class \<^verbatim>\<open>StrictJsonParser\<close>, \<^verbatim>\<open>parseStrictJson\<close> and
  \<^verbatim>\<open>canonicalJson\<close>.  Every gate of the repository reads its evidence with the first and compares
  and hashes it with the second.

  The parser's state is the text from the current index on, so \<^verbatim>\<open>this.index += n\<close> is dropping
  \<open>n\<close> code units.  The nesting depth and the two loops are bounded by fuel, the length of the
  remaining text plus one; \<open>parse_text_fuel\<close> shows that this is never used up, so \<open>OutOfFuel\<close> is
  not a result of \<open>parse_text\<close>.  Failure
  messages are the constructors of \<open>json_fail\<close>; the character offset in a message is not kept.
\<close>

section \<open>The reader\<close>

datatype json_fail =
    TrailingData | UnexpectedToken | KeyNotString | DuplicateKey jstring | KeyWithoutColon
  | UnterminatedObject | UnterminatedArray | InvalidString | UnescapedControl
  | InvalidUnicodeEscape | InvalidEscape | UnterminatedString | InvalidNumber
  | NonFiniteNumber | InvalidLiteral | OutOfFuel

datatype json_error =
    NotUtf8 | NotTextOrBytes | EmptyDocument | ParseFail json_fail
  | CanonNonFinite | CanonType

definition skipWhitespace :: "jstring \<Rightarrow> jstring" where
  "skipWhitespace s = dropWhile (\<lambda>c. c \<in> {9, 10, 13, 32}) s"

definition parseLiteral :: "jstring \<Rightarrow> jsval \<Rightarrow> jstring \<Rightarrow> json_fail + jsval \<times> jstring" where
  "parseLiteral literal value s =
     (if take (length literal) s \<noteq> literal then Inl InvalidLiteral
      else Inr (value, drop (length literal) s))"

text \<open>The scanning loop of \<^verbatim>\<open>parseString\<close>, from behind the opening quote: the raw text up to the
  closing quote and the rest.  After a trailing backslash \<^verbatim>\<open>escaped ?? ""\<close> is the empty string,
  which \<^verbatim>\<open>includes\<close> finds, and the loop then ends at the end of the text.\<close>

fun scanString :: "jstring \<Rightarrow> json_fail + jstring \<times> jstring" where
  "scanString [] = Inl UnterminatedString"
| "scanString (c # s) =
     (if c = 34 then Inr ([], s)
      else if c < 32 then Inl UnescapedControl
      else if c = 92 then
        (case s of
          [] \<Rightarrow> Inl UnterminatedString
        | e # s' \<Rightarrow>
            if e \<in> {34, 92, 47, 98, 102, 110, 114, 116}
            then bindR (scanString s') (\<lambda>(b, r). Inr (c # e # b, r))
            else if e = 117 then
              (if length (take 4 s') = 4 \<and> list_all is_hex (take 4 s')
               then bindR (scanString (drop 4 s')) (\<lambda>(b, r). Inr (c # e # take 4 s' @ b, r))
               else Inl InvalidUnicodeEscape)
            else Inl InvalidEscape)
      else bindR (scanString s) (\<lambda>(b, r). Inr (c # b, r)))"

definition hex4_value :: "jstring \<Rightarrow> nat" where
  "hex4_value h = foldl (\<lambda>a c. 16 * a + hex_value c) 0 h"

definition simple_escape :: "nat \<Rightarrow> nat option" where
  "simple_escape e =
     map_of [(34, 34), (92, 92), (47, 47), (98, 8), (102, 12), (110, 10), (114, 13), (116, 9)] e"

text \<open>\<^verbatim>\<open>JSON.parse\<close> of a string literal, given the text between its quotes.\<close>

fun unescape :: "jstring \<Rightarrow> jstring option" where
  "unescape [] = Some []"
| "unescape (c # s) =
     (if c = 34 \<or> c < 32 then None
      else if c = 92 then
        (case s of
          [] \<Rightarrow> None
        | e # s' \<Rightarrow>
            if e = 117 then
              (if length (take 4 s') = 4 \<and> list_all is_hex (take 4 s')
               then map_option (Cons (hex4_value (take 4 s'))) (unescape (drop 4 s'))
               else None)
            else (case simple_escape e of
                None \<Rightarrow> None | Some d \<Rightarrow> map_option (Cons d) (unescape s')))
      else map_option (Cons c) (unescape s))"

definition parseString :: "jstring \<Rightarrow> json_fail + jstring \<times> jstring" where
  "parseString s = bindR (scanString (tl s)) (\<lambda>(b, r).
     case unescape b of Some v \<Rightarrow> Inr (v, r) | None \<Rightarrow> Inl InvalidString)"

text \<open>The regular expression of \<^verbatim>\<open>parseNumber\<close>,
  \<^verbatim>\<open>^-?(?:0|[1-9]\d*)(?:\.\d+)?(?:[eE][+-]?\d+)?\<close>: sign, integer digits, fraction digits,
  exponent and the rest of the text.\<close>

record num_token =
  tok_neg :: bool
  tok_int :: jstring
  tok_frac :: jstring
  tok_exp :: int

definition digits_value :: "jstring \<Rightarrow> nat" where
  "digits_value ds = foldl (\<lambda>a c. 10 * a + (c - 48)) 0 ds"

definition scan_integer :: "jstring \<Rightarrow> (jstring \<times> jstring) option" where
  "scan_integer s =
     (case s of
        [] \<Rightarrow> None
      | c # t \<Rightarrow> if c = 48 then Some ([48], t)
                 else if is_digit c then Some (takeWhile is_digit s, dropWhile is_digit s)
                 else None)"

definition scan_fraction :: "jstring \<Rightarrow> jstring \<times> jstring" where
  "scan_fraction s =
     (case s of
        c # d # t \<Rightarrow> if c = 46 \<and> is_digit d
                     then (takeWhile is_digit (d # t), dropWhile is_digit (d # t)) else ([], s)
      | _ \<Rightarrow> ([], s))"

definition scan_exponent :: "jstring \<Rightarrow> int \<times> jstring" where
  "scan_exponent s =
     (case s of
        c # t \<Rightarrow>
          if c = 101 \<or> c = 69 then
            (case t of
               d # u \<Rightarrow>
                 if is_digit d
                 then (int (digits_value (takeWhile is_digit t)), dropWhile is_digit t)
                 else if (d = 43 \<or> d = 45) \<and> u \<noteq> [] \<and> is_digit (hd u)
                 then ((if d = 45 then - 1 else 1) * int (digits_value (takeWhile is_digit u)),
                       dropWhile is_digit u)
                 else (0, s)
             | [] \<Rightarrow> (0, s))
          else (0, s)
      | [] \<Rightarrow> (0, s))"

definition scan_number :: "jstring \<Rightarrow> (num_token \<times> jstring) option" where
  "scan_number s =
     (let neg = starts_with s [45]; s1 = (if neg then tl s else s)
      in case scan_integer s1 of
           None \<Rightarrow> None
         | Some (i, s2) \<Rightarrow>
             (case scan_fraction s2 of (f, s3) \<Rightarrow>
               (case scan_exponent s3 of (e, s4) \<Rightarrow>
                 Some (\<lparr>tok_neg = neg, tok_int = i, tok_frac = f, tok_exp = e\<rparr>, s4))))"

definition token_value :: "num_token \<Rightarrow> rat" where
  "token_value t =
     (if tok_neg t then - 1 else 1)
     * (of_nat (digits_value (tok_int t @ tok_frac t)) / 10 ^ length (tok_frac t))
     * 10 powi tok_exp t"

definition parseNumber :: "jstring \<Rightarrow> json_fail + jsval \<times> jstring" where
  "parseNumber s =
     (case scan_number s of
        None \<Rightarrow> Inl InvalidNumber
      | Some (t, r) \<Rightarrow>
          (let x = to_double (token_value t)
           in if \<not> is_finite x then Inl NonFiniteNumber else Inr (JNum x, r)))"

text \<open>The two loops of \<^verbatim>\<open>parseObject\<close> and \<^verbatim>\<open>parseArray\<close> call \<^verbatim>\<open>this.parseValue\<close>, here the
  argument \<open>pv\<close>.\<close>

fun parseMembers ::
  "(jstring \<Rightarrow> json_fail + jsval \<times> jstring) \<Rightarrow> nat \<Rightarrow> (jstring \<times> jsval) list \<Rightarrow> jstring
   \<Rightarrow> json_fail + jsval \<times> jstring" where
  "parseMembers pv 0 fs u = Inl OutOfFuel"
| "parseMembers pv (Suc n) fs u =
     (if u = [] then Inl UnterminatedObject
      else if hd u \<noteq> 34 then Inl KeyNotString
      else bindR (parseString u) (\<lambda>(k, r).
        if k \<in> fst ` set fs then Inl (DuplicateKey k)
        else (let r1 = skipWhitespace r in
          if \<not> starts_with r1 [58] then Inl KeyWithoutColon
          else bindR (pv (skipWhitespace (tl r1))) (\<lambda>(v, r2).
            let r3 = skipWhitespace r2; fs' = fs @ [(k, v)] in
            if starts_with r3 [125] then Inr (JObj fs', tl r3)
            else if \<not> starts_with r3 [44] then Inl UnterminatedObject
            else parseMembers pv n fs' (skipWhitespace (tl r3))))))"

definition parseObject ::
  "(jstring \<Rightarrow> json_fail + jsval \<times> jstring) \<Rightarrow> jstring \<Rightarrow> json_fail + jsval \<times> jstring" where
  "parseObject pv s =
     (let u = skipWhitespace (tl s)
      in if starts_with u [125] then Inr (JObj [], tl u)
         else parseMembers pv (length u + 1) [] u)"

fun parseElements ::
  "(jstring \<Rightarrow> json_fail + jsval \<times> jstring) \<Rightarrow> nat \<Rightarrow> jsval list \<Rightarrow> jstring
   \<Rightarrow> json_fail + jsval \<times> jstring" where
  "parseElements pv 0 xs u = Inl OutOfFuel"
| "parseElements pv (Suc n) xs u =
     (if u = [] then Inl UnterminatedArray
      else bindR (pv u) (\<lambda>(v, r).
        let r1 = skipWhitespace r; xs' = xs @ [v] in
        if starts_with r1 [93] then Inr (JArr xs', tl r1)
        else if \<not> starts_with r1 [44] then Inl UnterminatedArray
        else parseElements pv n xs' (skipWhitespace (tl r1))))"

definition parseArray ::
  "(jstring \<Rightarrow> json_fail + jsval \<times> jstring) \<Rightarrow> jstring \<Rightarrow> json_fail + jsval \<times> jstring" where
  "parseArray pv s =
     (let u = skipWhitespace (tl s)
      in if starts_with u [93] then Inr (JArr [], tl u)
         else parseElements pv (length u + 1) [] u)"

primrec parseValue :: "nat \<Rightarrow> jstring \<Rightarrow> json_fail + jsval \<times> jstring" where
  "parseValue 0 s = Inl OutOfFuel"
| "parseValue (Suc n) s =
     (if s = [] then Inl UnexpectedToken
      else if hd s = 123 then parseObject (parseValue n) s
      else if hd s = 91 then parseArray (parseValue n) s
      else if hd s = 34 then bindR (parseString s) (\<lambda>(v, r). Inr (JStr v, r))
      else if hd s = 116 then parseLiteral (js ''true'') (JBool True) s
      else if hd s = 102 then parseLiteral (js ''false'') (JBool False) s
      else if hd s = 110 then parseLiteral (js ''null'') JNull s
      else if hd s = 45 \<or> is_digit (hd s) then parseNumber s
      else Inl UnexpectedToken)"

definition parse_text :: "jstring \<Rightarrow> json_fail + jsval" where
  "parse_text s =
     (let s1 = skipWhitespace s in
      bindR (parseValue (length s1 + 1) s1) (\<lambda>(v, r).
        if skipWhitespace r \<noteq> [] then Inl TrailingData else Inr v))"

datatype document = DocText jstring | DocBytes "nat list" | DocOther

definition parseStrictJson :: "document \<Rightarrow> json_error + jsval" where
  "parseStrictJson d =
     bindR (case d of
              DocText s \<Rightarrow> Inr s
            | DocBytes bs \<Rightarrow> (case utf8_decode bs of Some s \<Rightarrow> Inr s | None \<Rightarrow> Inl NotUtf8)
            | DocOther \<Rightarrow> Inl NotTextOrBytes)
       (\<lambda>s. if trim s = [] then Inl EmptyDocument
            else case parse_text s of Inl e \<Rightarrow> Inl (ParseFail e) | Inr v \<Rightarrow> Inr v)"

section \<open>The writer\<close>

definition unicode_escape :: "nat \<Rightarrow> jstring" where
  "unicode_escape c =
     [92, 117, hex_digit (c div 4096 mod 16), hex_digit (c div 256 mod 16),
      hex_digit (c div 16 mod 16), hex_digit (c mod 16)]"

definition short_escape :: "nat \<Rightarrow> nat option" where
  "short_escape c =
     map_of [(8, 98), (9, 116), (10, 110), (12, 102), (13, 114), (34, 34), (92, 92)] c"

text \<open>\<^verbatim>\<open>JSON.stringify\<close> of a string, without the quotes: control characters and lone surrogates
  are escaped.\<close>

fun quote_body :: "jstring \<Rightarrow> jstring" where
  "quote_body [] = []"
| "quote_body (c # s) =
     (case short_escape c of
        Some e \<Rightarrow> 92 # e # quote_body s
      | None \<Rightarrow>
          if c < 32 then unicode_escape c @ quote_body s
          else if is_high c then
            (case s of
               d # s' \<Rightarrow> if is_low d then c # d # quote_body s'
                          else unicode_escape c @ quote_body s
             | [] \<Rightarrow> unicode_escape c)
          else if is_low c then unicode_escape c @ quote_body s
          else c # quote_body s)"

definition quote :: "jstring \<Rightarrow> jstring" where
  "quote s = 34 # quote_body s @ [34]"

lemma size_list_mem: "x \<in> set xs \<Longrightarrow> size (f x) < size_list (\<lambda>y. size (f y)) xs"
  by (induction xs) auto

text \<open>\<^verbatim>\<open>serialize\<close>.  A \<open>jsval\<close> is a finite tree, so the cycle check on \<^verbatim>\<open>ancestors\<close> never fires.\<close>

function canonicalJson :: "jsenv \<Rightarrow> jsval \<Rightarrow> json_error + jstring" where
  "canonicalJson E JUndef = Inl CanonType"
| "canonicalJson E JNull = Inr (js ''null'')"
| "canonicalJson E (JBool b) = Inr (if b then js ''true'' else js ''false'')"
| "canonicalJson E (JNum x) =
     (if is_finite x then Inr (js_num_text E x) else Inl CanonNonFinite)"
| "canonicalJson E (JStr s) = Inr (quote s)"
| "canonicalJson E (JArr xs) =
     bindR (mapR (canonicalJson E) xs) (\<lambda>ts. Inr ([91] @ join [44] ts @ [93]))"
| "canonicalJson E (JObj fs) =
     bindR (mapR (\<lambda>f. bindR (canonicalJson E (snd f)) (\<lambda>t. Inr (quote (fst f) @ [58] @ t)))
                 (sort_key fst fs))
       (\<lambda>ts. Inr ([123] @ join [44] ts @ [125]))"
  by pat_completeness auto

termination
proof (relation "measure (\<lambda>(E, v). size v)", goal_cases)
  case (2 E xs x)
  then show ?case using size_list_mem[of x xs "\<lambda>y. y"] by simp
next
  case (3 E fs f)
  then have "f \<in> set fs" by simp
  then have "size (snd f) < size_list (\<lambda>y. size (snd y)) fs" by (rule size_list_mem)
  also have "\<dots> \<le> size_list (size_prod (\<lambda>_. 0) size) fs"
    by (rule size_list_pointwise) (auto simp: size_prod_simp)
  finally show ?case by (cases f) simp
qed auto

section \<open>What the reader accepts\<close>

text \<open>A value the reader can produce: object keys are distinct, numbers are finite and nothing
  is undefined.\<close>

fun json_ok :: "jsval \<Rightarrow> bool" where
  "json_ok JUndef = False"
| "json_ok JNull = True"
| "json_ok (JBool b) = True"
| "json_ok (JNum x) = is_finite x"
| "json_ok (JStr s) = True"
| "json_ok (JArr xs) = list_all json_ok xs"
| "json_ok (JObj fs) = (distinct (map fst fs) \<and> list_all (\<lambda>f. json_ok (snd f)) fs)"

lemma length_skipWhitespace: "length (skipWhitespace s) \<le> length s"
  by (simp add: skipWhitespace_def length_dropWhile_le)

lemma starts_with_single: "starts_with s [c] \<longleftrightarrow> (\<exists>t. s = c # t)"
  by (cases s) (auto simp: starts_with_def)

lemma scanString_split: "scanString s = Inr (b, r) \<Longrightarrow> s = b @ 34 # r"
proof (induction s arbitrary: b r rule: scanString.induct)
  case (2 c s)
  show ?case
  proof (cases s)
    case Nil
    with 2 show ?thesis by (auto split: if_splits)
  next
    case (Cons e s')
    with 2 show ?thesis by (auto split: if_splits) (metis append_take_drop_id)
  qed
qed simp

lemma scanString_unescape: "scanString s = Inr (b, r) \<Longrightarrow> \<exists>v. unescape b = Some v"
proof (induction s arbitrary: b r rule: scanString.induct)
  case (2 c s)
  show ?case
  proof (cases s)
    case Nil
    with 2 show ?thesis by (auto split: if_splits)
  next
    case (Cons e s')
    with 2 show ?thesis
      by (auto simp: simple_escape_def split: if_splits)
  qed
qed simp

lemma scanString_fuel: "scanString s \<noteq> Inl OutOfFuel"
proof (induction s rule: scanString.induct)
  case (2 c s)
  then show ?case by (cases s) (auto simp: bindR_eq_Inl)
qed simp

lemma parseString_shrink: "parseString s = Inr (v, r) \<Longrightarrow> length r < length s"
  unfolding parseString_def
  by (cases s) (auto dest!: scanString_split split: option.splits prod.splits)

lemma parseString_never_invalid:
  "parseString s \<noteq> Inl InvalidString" "parseString s \<noteq> Inl OutOfFuel"
proof -
  have "scanString t \<noteq> Inl InvalidString" for t
  proof (induction t rule: scanString.induct)
    case (2 c s)
    then show ?case by (cases s) (auto simp: bindR_eq_Inl)
  qed simp
  then show "parseString s \<noteq> Inl InvalidString" "parseString s \<noteq> Inl OutOfFuel"
    using scanString_fuel scanString_unescape unfolding parseString_def
    by (fastforce simp: bindR_eq_Inl split: option.splits)+
qed

lemma scan_integer_shrink: "scan_integer s = Some (i, r) \<Longrightarrow> length r < length s"
  unfolding scan_integer_def
  by (auto split: list.splits if_splits simp: le_imp_less_Suc length_dropWhile_le)

lemma scan_fraction_shrink: "scan_fraction s = (f, r) \<Longrightarrow> length r \<le> length s"
  unfolding scan_fraction_def
  by (auto split: list.splits if_splits intro: le_trans[OF length_dropWhile_le])

lemma scan_exponent_shrink: "scan_exponent s = (e, r) \<Longrightarrow> length r \<le> length s"
  unfolding scan_exponent_def
  by (auto split: list.splits if_splits intro: le_trans[OF length_dropWhile_le])

lemma scan_number_shrink: "scan_number s = Some (t, r) \<Longrightarrow> length r < length s"
proof -
  assume "scan_number s = Some (t, r)"
  then obtain i s2 f s3 e where
    "scan_integer (if starts_with s [45] then tl s else s) = Some (i, s2)"
    "scan_fraction s2 = (f, s3)" "scan_exponent s3 = (e, r)"
    unfolding scan_number_def by (auto simp: Let_def split: option.splits prod.splits)
  from scan_integer_shrink[OF this(1)] scan_fraction_shrink[OF this(2)]
    scan_exponent_shrink[OF this(3)]
  show ?thesis by (auto split: if_splits)
qed

lemma parseNumber_Inr:
  "parseNumber s = Inr (v, r) \<Longrightarrow> length r < length s \<and> json_ok v"
  unfolding parseNumber_def
  by (auto simp: Let_def scan_number_shrink split: option.splits prod.splits if_splits)

lemma parseNumber_fuel: "parseNumber s \<noteq> Inl OutOfFuel"
  by (auto simp: parseNumber_def Let_def split: option.splits)

text \<open>The interface between the two loops and the value reader they call: a successful read
  consumes text and gives an acceptable value, and the fuel is enough below a length bound.\<close>

locale value_reader =
  fixes pv :: "jstring \<Rightarrow> json_fail + jsval \<times> jstring" and bound :: nat
  assumes pv_shrink: "pv s = Inr (v, r) \<Longrightarrow> length r < length s"
    and pv_ok: "pv s = Inr (v, r) \<Longrightarrow> json_ok v"
    and pv_fuel: "length s < bound \<Longrightarrow> pv s \<noteq> Inl OutOfFuel"
begin

lemma parseMembers_Inr:
  "parseMembers pv n fs u = Inr (v, r) \<Longrightarrow> json_ok (JObj fs) \<Longrightarrow> length r < length u \<and> json_ok v"
proof (induction n arbitrary: fs u)
  case (Suc n)
  from Suc.prems(1) obtain k r0 v1 r2 where
    k: "parseString u = Inr (k, r0)" "k \<notin> fst ` set fs"
    and c: "starts_with (skipWhitespace r0) [58]"
    and v1: "pv (skipWhitespace (tl (skipWhitespace r0))) = Inr (v1, r2)"
    and rest: "(if starts_with (skipWhitespace r2) [125]
        then Inr (JObj (fs @ [(k, v1)]), tl (skipWhitespace r2))
        else if \<not> starts_with (skipWhitespace r2) [44] then Inl UnterminatedObject
        else parseMembers pv n (fs @ [(k, v1)]) (skipWhitespace (tl (skipWhitespace r2))))
        = Inr (v, r)"
    by (auto simp: Let_def split: if_splits prod.splits)
  have ok: "json_ok (JObj (fs @ [(k, v1)]))"
    using Suc.prems(2) k(2) pv_ok[OF v1] by auto
  have l: "length r2 < length u"
    using parseString_shrink[OF k(1)] pv_shrink[OF v1] length_skipWhitespace[of r0]
      length_skipWhitespace[of "tl (skipWhitespace r0)"] by auto
  show ?case
  proof (cases "starts_with (skipWhitespace r2) [125]")
    case True
    with rest ok l length_skipWhitespace[of r2] show ?thesis by auto
  next
    case False
    then have "parseMembers pv n (fs @ [(k, v1)]) (skipWhitespace (tl (skipWhitespace r2)))
        = Inr (v, r)"
      using rest by (auto split: if_splits)
    from Suc.IH[OF this ok] l length_skipWhitespace[of r2]
      length_skipWhitespace[of "tl (skipWhitespace r2)"]
    show ?thesis by auto
  qed
qed simp

lemma parseElements_Inr:
  "parseElements pv n xs u = Inr (v, r) \<Longrightarrow> json_ok (JArr xs) \<Longrightarrow> length r < length u \<and> json_ok v"
proof (induction n arbitrary: xs u)
  case (Suc n)
  from Suc.prems(1) obtain v1 r1 where
    v1: "pv u = Inr (v1, r1)"
    and rest: "(if starts_with (skipWhitespace r1) [93]
        then Inr (JArr (xs @ [v1]), tl (skipWhitespace r1))
        else if \<not> starts_with (skipWhitespace r1) [44] then Inl UnterminatedArray
        else parseElements pv n (xs @ [v1]) (skipWhitespace (tl (skipWhitespace r1))))
        = Inr (v, r)"
    by (auto simp: Let_def split: if_splits prod.splits)
  have ok: "json_ok (JArr (xs @ [v1]))"
    using Suc.prems(2) pv_ok[OF v1] by auto
  have l: "length r1 < length u" using pv_shrink[OF v1] .
  show ?case
  proof (cases "starts_with (skipWhitespace r1) [93]")
    case True
    with rest ok l length_skipWhitespace[of r1] show ?thesis by auto
  next
    case False
    then have "parseElements pv n (xs @ [v1]) (skipWhitespace (tl (skipWhitespace r1))) = Inr (v, r)"
      using rest by (auto split: if_splits)
    from Suc.IH[OF this ok] l length_skipWhitespace[of r1]
      length_skipWhitespace[of "tl (skipWhitespace r1)"]
    show ?thesis by auto
  qed
qed simp

lemma parseMembers_fuel:
  "length u < n \<Longrightarrow> length u < bound \<Longrightarrow> parseMembers pv n fs u \<noteq> Inl OutOfFuel"
proof (induction n arbitrary: fs u)
  case (Suc n)
  show ?case
  proof
    assume "parseMembers pv (Suc n) fs u = Inl OutOfFuel"
    then obtain k r0 where k: "parseString u = Inr (k, r0)"
      and c: "starts_with (skipWhitespace r0) [58]"
      and d: "bindR (pv (skipWhitespace (tl (skipWhitespace r0)))) (\<lambda>(v, r2).
            let r3 = skipWhitespace r2; fs' = fs @ [(k, v)] in
            if starts_with r3 [125] then Inr (JObj fs', tl r3)
            else if \<not> starts_with r3 [44] then Inl UnterminatedObject
            else parseMembers pv n fs' (skipWhitespace (tl r3))) = Inl OutOfFuel"
      using parseString_never_invalid(2)[of u]
      by (auto simp: Let_def bindR_eq_Inl split: if_splits prod.splits)
    have l: "length (skipWhitespace (tl (skipWhitespace r0))) < length u"
      using parseString_shrink[OF k] length_skipWhitespace[of r0]
        length_skipWhitespace[of "tl (skipWhitespace r0)"] by auto
    then have "pv (skipWhitespace (tl (skipWhitespace r0))) \<noteq> Inl OutOfFuel"
      using Suc.prems by (intro pv_fuel) auto
    with d obtain v r2 where v: "pv (skipWhitespace (tl (skipWhitespace r0))) = Inr (v, r2)"
      and e: "parseMembers pv n (fs @ [(k, v)]) (skipWhitespace (tl (skipWhitespace r2)))
        = Inl OutOfFuel"
      by (auto simp: Let_def bindR_eq_Inl split: if_splits prod.splits)
    have "length (skipWhitespace (tl (skipWhitespace r2))) < length u"
      using pv_shrink[OF v] l length_skipWhitespace[of r2]
        length_skipWhitespace[of "tl (skipWhitespace r2)"] by auto
    with Suc.IH[of "skipWhitespace (tl (skipWhitespace r2))" "fs @ [(k, v)]"] Suc.prems e
    show False by simp
  qed
qed simp

lemma parseElements_fuel:
  "length u < n \<Longrightarrow> length u < bound \<Longrightarrow> parseElements pv n xs u \<noteq> Inl OutOfFuel"
proof (induction n arbitrary: xs u)
  case (Suc n)
  show ?case
  proof
    assume "parseElements pv (Suc n) xs u = Inl OutOfFuel"
    with pv_fuel[OF Suc.prems(2)] obtain v r1 where v: "pv u = Inr (v, r1)"
      and e: "parseElements pv n (xs @ [v]) (skipWhitespace (tl (skipWhitespace r1)))
        = Inl OutOfFuel"
      by (auto simp: Let_def bindR_eq_Inl split: if_splits prod.splits)
    have "length (skipWhitespace (tl (skipWhitespace r1))) < length u"
      using pv_shrink[OF v] length_skipWhitespace[of r1]
        length_skipWhitespace[of "tl (skipWhitespace r1)"] by auto
    with Suc.IH[of "skipWhitespace (tl (skipWhitespace r1))" "xs @ [v]"] Suc.prems e
    show False by simp
  qed
qed simp

end

lemma value_reader_parseValue: "value_reader (parseValue n) n"
proof (induction n)
  case 0
  show ?case by unfold_locales auto
next
  case (Suc n)
  have obj: "parseObject (parseValue n) s = Inr (v, r) \<Longrightarrow> length r < length s \<and> json_ok v"
    if "s \<noteq> []" for s v r
    using that value_reader.parseMembers_Inr[OF Suc.IH, of "length (skipWhitespace (tl s)) + 1" "[]"
        "skipWhitespace (tl s)" v r] length_skipWhitespace[of "tl s"]
    by (cases s) (auto simp: parseObject_def Let_def starts_with_single split: if_splits)
  have arr: "parseArray (parseValue n) s = Inr (v, r) \<Longrightarrow> length r < length s \<and> json_ok v"
    if "s \<noteq> []" for s v r
    using that value_reader.parseElements_Inr[OF Suc.IH, of "length (skipWhitespace (tl s)) + 1" "[]"
        "skipWhitespace (tl s)" v r] length_skipWhitespace[of "tl s"]
    by (cases s) (auto simp: parseArray_def Let_def starts_with_single split: if_splits)
  have ok: "length r < length s \<and> json_ok v" if "parseValue (Suc n) s = Inr (v, r)" for s v r
    using that obj[of s v r] arr[of s v r] parseNumber_Inr[of s v r]
    by (cases s) (auto simp: parseLiteral_def dest: parseString_shrink split: if_splits prod.splits)
  have fuel: "parseValue (Suc n) s \<noteq> Inl OutOfFuel" if "length s < Suc n" for s
  proof (cases s)
    case (Cons c t)
    have l: "length (skipWhitespace t) < n"
      using length_skipWhitespace[of t] that Cons by simp
    show ?thesis
      using value_reader.parseMembers_fuel[OF Suc.IH, of "skipWhitespace t" "length (skipWhitespace t) + 1"]
        value_reader.parseElements_fuel[OF Suc.IH, of "skipWhitespace t" "length (skipWhitespace t) + 1"]
        parseNumber_fuel[of s] parseString_never_invalid(2)[of s] l Cons
      by (auto simp: parseObject_def parseArray_def parseLiteral_def Let_def bindR_eq_Inl)
  qed simp
  show ?case using ok fuel by unfold_locales blast+
qed

interpretation json_reader: value_reader "parseValue n" n for n
  by (rule value_reader_parseValue)

lemma parse_text_Inr: "parse_text s = Inr v \<Longrightarrow> json_ok v"
  by (auto simp: parse_text_def Let_def simp del: parseValue.simps
      split: prod.splits if_splits dest: json_reader.pv_ok)

lemma parse_text_fuel: "parse_text s \<noteq> Inl OutOfFuel"
  using json_reader.pv_fuel[of "skipWhitespace s" "length (skipWhitespace s) + 1"]
  by (auto simp: parse_text_def Let_def bindR_eq_Inl simp del: parseValue.simps
      split: prod.splits if_splits)

section \<open>Reading back what the writer wrote\<close>

text \<open>The value the reader gives for the text of \<open>v\<close>: the same value with the keys of every
  object in order.\<close>

fun normal_form :: "jsval \<Rightarrow> jsval" where
  "normal_form (JArr xs) = JArr (map normal_form xs)"
| "normal_form (JObj fs) = JObj (map (\<lambda>f. (fst f, normal_form (snd f))) (sort_key fst fs))"
| "normal_form v = v"

text \<open>What the round trip asks of a number: its printed form is a JSON number token that reads
  back as the same double (ECMAScript's \<^verbatim>\<open>Number::toString\<close>).\<close>

definition num_readable :: "jsenv \<Rightarrow> jnum \<Rightarrow> bool" where
  "num_readable E x \<longleftrightarrow>
     (case scan_number (js_num_text E x) of
        Some (tok, r) \<Rightarrow> r = [] \<and> to_double (token_value tok) = x
      | None \<Rightarrow> False)"

fun writable :: "jsenv \<Rightarrow> jsval \<Rightarrow> bool" where
  "writable E JUndef = False"
| "writable E JNull = True"
| "writable E (JBool b) = True"
| "writable E (JNum x) = (is_finite x \<and> num_readable E x)"
| "writable E (JStr s) = True"
| "writable E (JArr xs) = list_all (writable E) xs"
| "writable E (JObj fs) =
     (distinct (map fst fs) \<and> list_all (\<lambda>f. writable E (snd f)) fs)"

lemma hex_digit_hex: "n < 16 \<Longrightarrow> is_hex (hex_digit n) \<and> hex_value (hex_digit n) = n"
  by (auto simp: hex_digit_def hex_value_def char_class_defs)

lemma hex4_of_digits:
  assumes "c < 65536"
  shows "hex4_value [hex_digit (c div 4096 mod 16), hex_digit (c div 256 mod 16),
      hex_digit (c div 16 mod 16), hex_digit (c mod 16)] = c"
proof -
  have h: "hex_value (hex_digit (m mod 16)) = m mod 16" for m
    by (simp add: hex_digit_hex)
  have 1: "16 * (c div 16) + c mod 16 = c" by simp
  have 2: "16 * (c div 256) + c div 16 mod 16 = c div 16"
    using mult_div_mod_eq[of 16 "c div 16"] by (simp flip: div_mult2_eq)
  have 3: "16 * (c div 4096) + c div 256 mod 16 = c div 256"
    using mult_div_mod_eq[of 16 "c div 256"] by (simp flip: div_mult2_eq)
  have 4: "c div 4096 mod 16 = c div 4096" using assms by simp
  show ?thesis
    unfolding hex4_value_def foldl.simps h by (simp only: 4 mult_0_right add_0 3 2 1)
qed

lemma scan_unicode_escape:
  "scanString (unicode_escape c @ s) =
     bindR (scanString s) (\<lambda>(b, r). Inr (unicode_escape c @ b, r))"
  by (simp add: unicode_escape_def hex_digit_hex)

lemma unescape_unicode_escape:
  "c < 65536 \<Longrightarrow> unescape (unicode_escape c @ s) = map_option (Cons c) (unescape s)"
  using hex4_of_digits[of c] by (simp add: unicode_escape_def hex_digit_hex)

lemma short_escape_cases:
  "short_escape c = Some e \<Longrightarrow>
     e \<in> {34, 92, 98, 102, 110, 114, 116} \<and> simple_escape e = Some c"
  by (auto simp: short_escape_def simple_escape_def split: if_splits)

lemma short_escape_None: "short_escape c = None \<Longrightarrow> c \<noteq> 34 \<and> c \<noteq> 92"
  by (auto simp: short_escape_def split: if_splits)

lemma scan_quote_body: "scanString (quote_body s @ 34 # r) = Inr (quote_body s, r)"
proof (induction s rule: quote_body.induct)
  case (2 c s)
  show ?case
  proof (cases "short_escape c")
    case None
    note c = short_escape_None[OF None]
    show ?thesis
    proof (cases s)
      case Nil
      then show ?thesis using None c 2 by (auto simp: scan_unicode_escape)
    next
      case (Cons d s')
      then show ?thesis using None c 2
        by (auto simp: scan_unicode_escape is_low_def is_high_def simp del: quote_body.simps(2)
            simp: quote_body.simps(2)[of c])
    qed
  next
    case (Some e)
    then show ?thesis using short_escape_cases[OF Some] 2 by auto
  qed
qed simp

lemma unescape_quote_body [simp]: "unescape (quote_body s) = Some s"
proof (induction s rule: quote_body.induct)
  case (2 c s)
  show ?case
  proof (cases "short_escape c")
    case None
    note c = short_escape_None[OF None]
    show ?thesis
    proof (cases s)
      case Nil
      have "unescape (unicode_escape c) = Some [c]" if "c < 65536"
        using unescape_unicode_escape[OF that, of "[]"] by simp
      then show ?thesis using Nil None c 2
        by (auto simp: unescape_unicode_escape is_low_def is_high_def)
    next
      case (Cons d s')
      then show ?thesis using None c 2
        by (auto simp: unescape_unicode_escape is_low_def is_high_def
            simp del: quote_body.simps(2) simp: quote_body.simps(2)[of c])
    qed
  next
    case (Some e)
    then show ?thesis using short_escape_cases[OF Some] 2 by auto
  qed
qed simp

lemma parseString_quote: "parseString (quote s @ r) = Inr (s, r)"
  by (simp add: parseString_def quote_def scan_quote_body unescape_quote_body)

lemma quote_inject [simp]: "quote s = quote t \<longleftrightarrow> s = t"
proof
  assume "quote s = quote t"
  then have "parseString (quote s @ []) = parseString (quote t @ [])" by (rule arg_cong)
  then show "s = t" unfolding parseString_quote by simp
qed simp

text \<open>A number token is delimited by the end of the text, a line end, a comma or a closing bracket.\<close>

definition delimited :: "jstring \<Rightarrow> bool" where
  "delimited r \<longleftrightarrow> r = [] \<or> hd r \<in> {10, 44, 93, 125}"

lemma delimited_not_digit: "delimited r \<Longrightarrow> takeWhile is_digit r = [] \<and> dropWhile is_digit r = r"
  by (cases r) (auto simp: delimited_def is_digit_def)

lemma while_digit_append:
  assumes "delimited r"
  shows "takeWhile is_digit (s @ r) = takeWhile is_digit s"
    and "dropWhile is_digit (s @ r) = dropWhile is_digit s @ r"
  using delimited_not_digit[OF assms] by (induction s) auto

lemma scan_integer_append:
  "delimited r \<Longrightarrow> scan_integer s = Some (i, t) \<Longrightarrow> scan_integer (s @ r) = Some (i, t @ r)"
  by (cases s) (auto simp: scan_integer_def while_digit_append split: if_splits)

lemma scan_fraction_append:
  "delimited r \<Longrightarrow> scan_fraction s = (f, t) \<Longrightarrow> scan_fraction (s @ r) = (f, t @ r)"
proof (cases s rule: remdups_adj.cases)
  case 1
  assume "delimited r" "scan_fraction s = (f, t)"
  with 1 show ?thesis by (cases r rule: remdups_adj.cases) (auto simp: scan_fraction_def delimited_def)
next
  case (2 x)
  assume "delimited r" "scan_fraction s = (f, t)"
  with 2 show ?thesis by (cases r) (auto simp: scan_fraction_def delimited_def is_digit_def)
next
  case (3 c d u)
  assume *: "delimited r" "scan_fraction s = (f, t)"
  then show ?thesis using 3 while_digit_append[OF *(1), of "d # u"]
    by (auto simp: scan_fraction_def split: if_splits)
qed

lemma scan_exponent_append:
  assumes "delimited r" "scan_exponent s = (e, t)"
  shows "scan_exponent (s @ r) = (e, t @ r)"
proof (cases s)
  case Nil
  with assms show ?thesis by (cases r) (auto simp: scan_exponent_def delimited_def)
next
  case (Cons c s1)
  show ?thesis
  proof (cases s1)
    case Nil
    with Cons assms show ?thesis
      by (cases r) (auto simp: scan_exponent_def delimited_def is_digit_def split: if_splits)
  next
    case (Cons d u)
    show ?thesis
    proof (cases u)
      case Nil
      with Cons \<open>s = c # s1\<close> assms show ?thesis
        using while_digit_append[OF assms(1), of "[d]"]
        by (cases r) (auto simp: scan_exponent_def delimited_def is_digit_def split: if_splits)
    next
      case (Cons x u')
      with \<open>s1 = d # u\<close> \<open>s = c # s1\<close> assms show ?thesis
        using while_digit_append[OF assms(1), of "d # x # u'"]
          while_digit_append[OF assms(1), of "x # u'"]
        by (auto simp: scan_exponent_def split: if_splits)
    qed
  qed
qed

lemma scan_number_append:
  assumes "delimited r" "scan_number s = Some (tok, t)"
  shows "scan_number (s @ r) = Some (tok, t @ r)"
proof -
  define s1 where "s1 = (if starts_with s [45] then tl s else s)"
  from assms(2) obtain i s2 f s3 e where *:
    "scan_integer s1 = Some (i, s2)" "scan_fraction s2 = (f, s3)" "scan_exponent s3 = (e, t)"
    and tok: "tok = \<lparr>tok_neg = starts_with s [45], tok_int = i, tok_frac = f, tok_exp = e\<rparr>"
    unfolding scan_number_def s1_def by (auto simp: Let_def split: option.splits prod.splits)
  have ne: "s \<noteq> []" using *(1) by (auto simp: s1_def scan_integer_def starts_with_def)
  have sw: "starts_with (s @ r) [45] = starts_with s [45]"
    using ne by (cases s) (auto simp: starts_with_def)
  have "(if starts_with (s @ r) [45] then tl (s @ r) else s @ r) = s1 @ r"
    using ne sw by (auto simp: s1_def)
  then show ?thesis
    using scan_integer_append[OF assms(1) *(1)] scan_fraction_append[OF assms(1) *(2)]
      scan_exponent_append[OF assms(1) *(3)] tok sw
    by (simp add: scan_number_def Let_def)
qed

text \<open>\<open>reads pv B t v\<close>: the value reader \<open>pv\<close>, on a text below the length bound \<open>B\<close>, reads the
  token text \<open>t\<close> as \<open>v\<close>.\<close>

definition reads ::
  "(jstring \<Rightarrow> json_fail + jsval \<times> jstring) \<Rightarrow> nat \<Rightarrow> jstring \<Rightarrow> jsval \<Rightarrow> bool" where
  "reads pv B t v \<longleftrightarrow> t \<noteq> [] \<and> hd t \<notin> {93, 125} \<and> \<not> is_ws (hd t) \<and>
     (\<forall>r. delimited r \<longrightarrow> length (t @ r) < B \<longrightarrow> pv (t @ r) = Inr (v, r))"

lemma readsD:
  assumes "reads pv B t v"
  shows "t \<noteq> []" "hd t \<notin> {93, 125} \<and> \<not> is_ws (hd t)"
    "delimited r \<Longrightarrow> length (t @ r) < B \<Longrightarrow> pv (t @ r) = Inr (v, r)"
    "skipWhitespace (t @ r) = t @ r"
proof -
  show "t \<noteq> []" "hd t \<notin> {93, 125} \<and> \<not> is_ws (hd t)"
    "delimited r \<Longrightarrow> length (t @ r) < B \<Longrightarrow> pv (t @ r) = Inr (v, r)"
    using assms by (auto simp: reads_def)
  then show "skipWhitespace (t @ r) = t @ r"
    by (cases t) (auto simp: skipWhitespace_def is_ws_def)
qed

lemma delimited_simps [simp]: "delimited []" "delimited (10 # r)" "delimited (44 # r)" "delimited (93 # r)" "delimited (125 # r)"
  by (simp_all add: delimited_def)

lemma skipWhitespace_simps [simp]:
  "skipWhitespace []= []" "skipWhitespace (44 # r) = 44 # r" "skipWhitespace (93 # r) = 93 # r"
  "skipWhitespace (125 # r) = 125 # r" "skipWhitespace (58 # r) = 58 # r"
  "skipWhitespace (34 # r) = 34 # r"
  by (simp_all add: skipWhitespace_def)

lemma join_Cons_ne: "xs \<noteq> [] \<Longrightarrow> join sep (x # xs) = x @ sep @ join sep xs"
  by (cases xs) auto

lemma parseElements_join:
  assumes "list_all2 (reads pv B) ts vs" "ts \<noteq> []"
    "length (join [44] ts @ 93 # rest) < B" "length (join [44] ts @ 93 # rest) < n"
  shows "parseElements pv n acc (join [44] ts @ 93 # rest) = Inr (JArr (acc @ vs), rest)"
  using assms
proof (induction ts arbitrary: vs acc n)
  case (Cons t ts)
  from Cons.prems(1) obtain v vs' where vs: "vs = v # vs'"
    and r: "reads pv B t v" and rs: "list_all2 (reads pv B) ts vs'"
    by (auto simp: list_all2_Cons1)
  obtain m where n: "n = Suc m" using Cons.prems(4) by (cases n) auto
  show ?case
  proof (cases "ts = []")
    case True
    then show ?thesis
      using readsD(1)[OF r] readsD(3)[OF r, of "93 # rest"] Cons.prems(3) rs vs n
      by (auto simp: starts_with_def Let_def)
  next
    case False
    then obtain t2 ts2 v2 vs2 where t2: "ts = t2 # ts2" "vs' = v2 # vs2" "reads pv B t2 v2"
      using rs by (cases ts) (auto simp: list_all2_Cons1)
    have j: "join [44] (t # ts) @ 93 # rest = t @ 44 # join [44] ts @ 93 # rest"
      by (simp add: join_Cons_ne[OF False])
    have sk: "skipWhitespace (join [44] ts @ 93 # rest) = join [44] ts @ 93 # rest"
      using readsD(4)[OF t2(3)] t2(1) by (cases ts2) auto
    have "parseElements pv m (acc @ [v]) (join [44] ts @ 93 # rest) = Inr (JArr ((acc @ [v]) @ vs'), rest)"
      using Cons.prems(3,4) j n by (intro Cons.IH[OF rs False]) auto
    then show ?thesis
      using readsD(1)[OF r] readsD(3)[OF r, of "44 # join [44] ts @ 93 # rest"] Cons.prems(3) vs n j sk
      by (auto simp: starts_with_def Let_def)
  qed
qed simp

text \<open>The text of one member of an object.\<close>

definition member_text :: "jstring \<Rightarrow> jstring \<Rightarrow> jstring" where
  "member_text k t = quote k @ [58] @ t"

lemma member_text_head: "\<exists>u. member_text k t = 34 # u"
  by (simp add: member_text_def quote_def)

lemma parse_member:
  assumes "reads pv B t v" "delimited r"
    "length (member_text k t @ r) < B" "k \<notin> fst ` set fs"
  shows "parseMembers pv (Suc n) fs (member_text k t @ r) =
     (let r3 = skipWhitespace r; fs' = fs @ [(k, v)] in
            if starts_with r3 [125] then Inr (JObj fs', tl r3)
            else if \<not> starts_with r3 [44] then Inl UnterminatedObject
            else parseMembers pv n fs' (skipWhitespace (tl r3)))"
proof -
  have q: "parseString (member_text k t @ r) = Inr (k, 58 # t @ r)"
    using parseString_quote[of k "58 # t @ r"] by (simp add: member_text_def)
  have p: "pv (skipWhitespace (t @ r)) = Inr (v, r)"
    using readsD(3,4)[OF assms(1), of r] assms(2,3) by (simp add: member_text_def)
  show ?thesis
    using member_text_head[of k t] q p assms(4) by (auto simp: starts_with_def Let_def)
qed

lemma parseMembers_join:
  assumes "list_all2 (\<lambda>t f. \<exists>u. t = member_text (fst f) u \<and> reads pv B u (snd f)) ts fs"
    "ts \<noteq> []" "length (join [44] ts @ 125 # rest) < B" "length (join [44] ts @ 125 # rest) < n"
    "distinct (map fst (acc @ fs))"
  shows "parseMembers pv n acc (join [44] ts @ 125 # rest) = Inr (JObj (acc @ fs), rest)"
  using assms
proof (induction ts arbitrary: fs acc n)
  case (Cons t ts)
  from Cons.prems(1) obtain f fs' u where fs: "fs = f # fs'"
    and t: "t = member_text (fst f) u" and r: "reads pv B u (snd f)"
    and rs: "list_all2 (\<lambda>t f. \<exists>u. t = member_text (fst f) u \<and> reads pv B u (snd f)) ts fs'"
    by (auto simp: list_all2_Cons1)
  obtain m where n: "n = Suc m" using Cons.prems(4) by (cases n) auto
  have nd: "fst f \<notin> fst ` set acc" using Cons.prems(5) fs by auto
  show ?case
  proof (cases "ts = []")
    case True
    then have "fs' = []" using rs by simp
    with True show ?thesis
      using parse_member[OF r, of "125 # rest" "fst f" acc m] Cons.prems(3) nd t n fs
      by (simp add: starts_with_def)
  next
    case False
    then obtain t2 ts2 where ts: "ts = t2 # ts2" by (cases ts) auto
    with rs obtain k y where "t2 = member_text k y" by (auto simp: list_all2_Cons1)
    with ts obtain w where t2: "ts = t2 # ts2" "t2 = 34 # w" using member_text_head by blast
    have j: "join [44] (t # ts) @ 125 # rest = t @ 44 # join [44] ts @ 125 # rest"
      by (simp add: join_Cons_ne[OF False])
    have sk: "skipWhitespace (join [44] ts @ 125 # rest) = join [44] ts @ 125 # rest"
      using t2 by (cases ts2) auto
    have "parseMembers pv m (acc @ [f]) (join [44] ts @ 125 # rest) = Inr (JObj ((acc @ [f]) @ fs'), rest)"
      using Cons.prems(3-5) j n fs by (intro Cons.IH[OF rs False]) auto
    then show ?thesis
      using parse_member[OF r, of "44 # join [44] ts @ 125 # rest" "fst f" acc m] Cons.prems(3) nd t n fs j sk
      by (simp add: starts_with_def)
  qed
qed simp

lemma list_all2_mapR:
  "mapR f xs = Inr ys \<Longrightarrow> (\<And>x y. x \<in> set xs \<Longrightarrow> f x = Inr y \<Longrightarrow> P y (g x)) \<Longrightarrow> list_all2 P ys (map g xs)"
  by (induction xs arbitrary: ys) auto

lemma hd_join: "ts \<noteq> [] \<Longrightarrow> hd ts \<noteq> [] \<Longrightarrow> join sep ts \<noteq> [] \<and> hd (join sep ts) = hd (hd ts)"
  by (cases ts rule: remdups_adj.cases) auto

lemma literal_texts:
  "js ''null'' = [110, 117, 108, 108]" "js ''true'' = [116, 114, 117, 101]"
  "js ''false'' = [102, 97, 108, 115, 101]"
  by (simp_all add: js_def)

lemma reads_literal: "reads (parseValue n) n (js ''null'') JNull"
  "reads (parseValue n) n (js ''true'') (JBool True)"
  "reads (parseValue n) n (js ''false'') (JBool False)"
  by (cases n; simp add: reads_def parseLiteral_def literal_texts is_ws_def)+

lemma reads_number:
  assumes "num_readable E x" "is_finite x"
  shows "reads (parseValue n) n (js_num_text E x) (JNum x)"
proof -
  define t where "t = js_num_text E x"
  obtain tok where tok: "scan_number t = Some (tok, [])" "to_double (token_value tok) = x"
    using assms(1) by (auto simp: num_readable_def t_def split: option.splits)
  have h: "t \<noteq> []" "hd t = 45 \<or> is_digit (hd t)"
    using tok(1) by (auto simp: scan_number_def scan_integer_def starts_with_single Let_def
        is_digit_def split: option.splits list.splits if_splits)
  show ?thesis
    unfolding reads_def t_def[symmetric]
  proof (intro conjI allI impI)
    show "hd t \<notin> {93, 125}" "\<not> is_ws (hd t)" using h(2) by (auto simp: is_digit_def is_ws_def)
    fix r assume r: "delimited r" "length (t @ r) < n"
    obtain m where n: "n = Suc m" using r(2) by (cases n) auto
    have "scan_number (t @ r) = Some (tok, r)" using scan_number_append[OF r(1) tok(1)] by simp
    then show "parseValue n (t @ r) = Inr (JNum x, r)"
      using h tok(2) assms(2) n by (auto simp: parseNumber_def is_digit_def)
  qed (rule h)
qed

lemma reads_string: "reads (parseValue n) n (quote s) (JStr s)"
proof -
  have "parseValue n (quote s @ r) = Inr (JStr s, r)" if "length (quote s @ r) < n" for r
    using that parseString_quote[of s r] by (cases n) (auto simp: quote_def)
  then show ?thesis by (auto simp: reads_def quote_def is_ws_def)
qed

lemma reads_array:
  assumes "\<And>m. list_all2 (reads (parseValue m) m) ts vs"
  shows "reads (parseValue n) n (91 # join [44] ts @ [93]) (JArr vs)"
  unfolding reads_def
proof (intro conjI allI impI)
  fix r assume r: "delimited r" "length ((91 # join [44] ts @ [93]) @ r) < n"
  obtain m where n: "n = Suc m" using r(2) by (cases n) auto
  show "parseValue n ((91 # join [44] ts @ [93]) @ r) = Inr (JArr vs, r)"
  proof (cases "ts = []")
    case True
    then show ?thesis using assms[of 0] n by (simp add: parseArray_def starts_with_def)
  next
    case False
    then obtain t1 ts' where c: "ts = t1 # ts'" by (cases ts) auto
    with assms[of 0] obtain w where w: "reads (parseValue 0) 0 t1 w" by (auto simp: list_all2_Cons1)
    have sk: "skipWhitespace (join [44] ts @ 93 # r) = join [44] ts @ 93 # r"
      and nb: "\<not> starts_with (join [44] ts @ 93 # r) [93]"
      using readsD(4)[OF w] readsD(1,2)[OF w] c by (cases ts'; cases t1; simp add: starts_with_def)+
    have "parseElements (parseValue m) (length (join [44] ts @ 93 # r) + 1) [] (join [44] ts @ 93 # r)
       = Inr (JArr ([] @ vs), r)"
      using r(2) n by (intro parseElements_join[OF assms False]) auto
    then show ?thesis using n sk nb by (simp add: parseArray_def Let_def)
  qed
qed (auto simp: is_ws_def)

lemma reads_object:
  assumes "\<And>m. list_all2 (\<lambda>t f. \<exists>u. t = member_text (fst f) u \<and> reads (parseValue m) m u (snd f)) ts gs"
    and d: "distinct (map fst gs)"
  shows "reads (parseValue n) n (123 # join [44] ts @ [125]) (JObj gs)"
  unfolding reads_def
proof (intro conjI allI impI)
  fix r assume r: "delimited r" "length ((123 # join [44] ts @ [125]) @ r) < n"
  obtain m where n: "n = Suc m" using r(2) by (cases n) auto
  show "parseValue n ((123 # join [44] ts @ [125]) @ r) = Inr (JObj gs, r)"
  proof (cases "ts = []")
    case True
    then show ?thesis using assms(1)[of 0] n by (simp add: parseObject_def starts_with_def)
  next
    case False
    then obtain t1 ts' where c: "ts = t1 # ts'" by (cases ts) auto
    with assms(1)[of 0] obtain k y where "t1 = member_text k y" by (auto simp: list_all2_Cons1)
    then obtain w where w: "t1 = 34 # w" using member_text_head by blast
    have sk: "skipWhitespace (join [44] ts @ 125 # r) = join [44] ts @ 125 # r"
      and nb: "\<not> starts_with (join [44] ts @ 125 # r) [125]"
      using c w by (cases ts'; simp add: starts_with_def)+
    have "parseMembers (parseValue m) (length (join [44] ts @ 125 # r) + 1) [] (join [44] ts @ 125 # r)
       = Inr (JObj ([] @ gs), r)"
      using r(2) n d by (intro parseMembers_join[OF assms(1) False]) auto
    then show ?thesis using n sk nb by (simp add: parseObject_def Let_def)
  qed
qed (auto simp: is_ws_def)

lemma reads_parseValue:
  "canonicalJson E v = Inr t \<Longrightarrow> writable E v \<Longrightarrow> reads (parseValue n) n t (normal_form v)"
proof (induction E v arbitrary: t n rule: canonicalJson.induct)
  case (4 E x)
  then show ?case using reads_number by auto
next
  case (5 E s)
  then show ?case using reads_string by auto
next
  case (6 E xs)
  then obtain ts where ts: "mapR (canonicalJson E) xs = Inr ts" and t: "t = 91 # join [44] ts @ [93]"
    by auto
  have "list_all2 (reads (parseValue m) m) ts (map normal_form xs)" for m
    using ts 6 by (intro list_all2_mapR) (auto simp: list_all_iff)
  from reads_array[OF this] show ?case using t by simp
next
  case (7 E fs)
  define gs where "gs = map (\<lambda>f. (fst f, normal_form (snd f))) (sort_key fst fs)"
  from 7 obtain ts where
    ts: "mapR (\<lambda>f. bindR (canonicalJson E (snd f)) (\<lambda>t. Inr (quote (fst f) @ [58] @ t)))
          (sort_key fst fs) = Inr ts" and t: "t = 123 # join [44] ts @ [125]"
    by auto
  have all: "list_all2 (\<lambda>t f. \<exists>u. t = member_text (fst f) u \<and> reads (parseValue m) m u (snd f)) ts gs" for m
    unfolding gs_def using ts
  proof (rule list_all2_mapR)
    fix f y assume f: "f \<in> set (sort_key fst fs)"
      and "bindR (canonicalJson E (snd f)) (\<lambda>t. Inr (quote (fst f) @ [58] @ t)) = Inr y"
    then obtain u where u: "canonicalJson E (snd f) = Inr u" "y = member_text (fst f) u"
      by (auto simp: member_text_def)
    have "writable E (snd f)"
      using 7(3) f by (auto simp: list_all_iff)
    with 7(1)[OF f u(1)] u(2) show "\<exists>u. y = member_text (fst (fst f, normal_form (snd f))) u
        \<and> reads (parseValue m) m u (snd (fst f, normal_form (snd f)))"
      by auto
  qed
  have "mset (map fst gs) = mset (map fst fs)" by (simp add: gs_def comp_def)
  then have "distinct (map fst gs)" using 7 by (metis mset_eq_imp_distinct_iff writable.simps(7))
  from reads_object[OF all this] show ?case using t by (simp add: gs_def)
next
  case (2 E)
  then show ?case using reads_literal by simp
next
  case (3 E b)
  then show ?case using reads_literal by (cases b) auto
qed simp

lemma reads_text:
  assumes "\<And>n. reads (parseValue n) n t v" "delimited r" "skipWhitespace r = []"
  shows "parse_text (t @ r) = Inr v"
  using readsD(3,4)[of "parseValue (length (t @ r) + 1)" "length (t @ r) + 1" t v r] assms
  by (simp add: parse_text_def Let_def del: parseValue.simps)

lemma parse_canonical:
  assumes "canonicalJson E v = Inr t" "writable E v"
  shows "parse_text t = Inr (normal_form v)" "trim t \<noteq> []"
proof -
  note r = reads_parseValue[OF assms]
  show "trim t \<noteq> []" using readsD(1,2)[OF r] by (intro trim_not_Nil) auto
  show "parse_text t = Inr (normal_form v)" using reads_text[OF r, of "[]"] by simp
qed

lemma canonicalJson_Inr: "writable E v \<Longrightarrow> \<exists>t. canonicalJson E v = Inr t"
proof (induction E v rule: canonicalJson.induct)
  case (6 E xs)
  then have "\<exists>ts. mapR (canonicalJson E) xs = Inr ts" by (induction xs) auto
  then show ?case by auto
next
  case (7 E fs)
  have "\<exists>ts. mapR (\<lambda>f. bindR (canonicalJson E (snd f)) (\<lambda>t. Inr (quote (fst f) @ [58] @ t))) gs = Inr ts"
    if "set gs \<subseteq> set fs" for gs
    using that 7 by (induction gs) (auto simp: list_all_iff)
  from this[of "sort_key fst fs"] show ?case by auto
qed auto

lemma canonicalJson_normal_form: "canonicalJson E (normal_form v) = canonicalJson E v"
proof (induction E v rule: canonicalJson.induct)
  case (6 E xs)
  then have "mapR (canonicalJson E) (map normal_form xs) = mapR (canonicalJson E) xs"
    by (induction xs) auto
  then show ?case by simp
next
  case (7 E fs)
  define g where "g = (\<lambda>f :: jstring \<times> jsval. (fst f, normal_form (snd f)))"
  have "sorted (map fst (map g (sort_key fst fs)))" by (simp add: g_def comp_def)
  then have "sort_key fst (map g (sort_key fst fs)) = map g (sort_key fst fs)"
    by (rule sort_key_id_if_sorted)
  moreover have "mapR (\<lambda>f. bindR (canonicalJson E (snd f)) (\<lambda>t. Inr (quote (fst f) @ [58] @ t))) (map g gs)
      = mapR (\<lambda>f. bindR (canonicalJson E (snd f)) (\<lambda>t. Inr (quote (fst f) @ [58] @ t))) gs"
    if "set gs \<subseteq> set fs" for gs
    using that 7 by (induction gs) (auto simp: g_def)
  ultimately show ?case by (simp add: g_def)
qed auto

section \<open>Properties\<close>

text \<open>C1: reading back canonical JSON.  Whenever a value has distinct keys in every object and its
  numbers print as tokens that read back, \<^verbatim>\<open>canonicalJson\<close> succeeds and \<^verbatim>\<open>parseStrictJson\<close> of the
  text it returns gives the same value, with the keys of every object in code-unit order.\<close>

theorem canonical_json_round_trip:
  assumes "writable E v"
  shows "\<exists>t. canonicalJson E v = Inr t \<and> parseStrictJson (DocText t) = Inr (normal_form v)"
proof -
  obtain t where t: "canonicalJson E v = Inr t" using canonicalJson_Inr[OF assms] by blast
  show ?thesis using t parse_canonical[OF t assms] by (simp add: parseStrictJson_def)
qed

theorem canonical_json_round_trip_witness:
  "\<exists>t. canonicalJson sample_env
        (JObj [(js ''b'', JNum (Fin 7)), (js ''a'', JArr [JBool True, JStr (js ''x'')])]) = Inr t
     \<and> parseStrictJson (DocText t)
        = Inr (JObj [(js ''a'', JArr [JBool True, JStr (js ''x'')]), (js ''b'', JNum (Fin 7))])"
proof -
  have n: "num_readable sample_env (Fin 7)"
    by (simp add: num_readable_def sample_env_def base_digits.simps scan_number_def scan_integer_def
        scan_fraction_def scan_exponent_def starts_with_def is_digit_def token_value_def
        digits_value_def to_double_def is_integral_def)
  have "writable sample_env
      (JObj [(js ''b'', JNum (Fin 7)), (js ''a'', JArr [JBool True, JStr (js ''x'')])])"
    by (simp add: n is_finite_def js_def)
  from canonical_json_round_trip[OF this] show ?thesis by (simp add: js_def)
qed

text \<open>canonical JSON is a faithful comparison key.  Two values have the same canonical text
  exactly when they differ at most in the order of object keys, which is what every
  \<^verbatim>\<open>canonical(a) === canonical(b)\<close> gate of the repository relies on.\<close>

theorem canonical_json_injective:
  assumes "writable E v" and "writable E w"
  shows "canonicalJson E v = canonicalJson E w \<longleftrightarrow> normal_form v = normal_form w"
proof
  assume eq: "canonicalJson E v = canonicalJson E w"
  obtain t where t: "canonicalJson E v = Inr t" using canonicalJson_Inr[OF assms(1)] by blast
  show "normal_form v = normal_form w"
    using parse_canonical(1)[OF t assms(1)] parse_canonical(1)[of E w t] assms(2) t eq by simp
next
  assume "normal_form v = normal_form w"
  then show "canonicalJson E v = canonicalJson E w" by (metis canonicalJson_normal_form)
qed

theorem canonical_json_injective_witness:
  "canonicalJson sample_env (JObj [(js ''b'', JNull), (js ''a'', JBool True)])
     = canonicalJson sample_env (JObj [(js ''a'', JBool True), (js ''b'', JNull)])
   \<and> canonicalJson sample_env (JStr (js ''a'')) \<noteq> canonicalJson sample_env (JStr (js ''b''))"
proof
  show "canonicalJson sample_env (JObj [(js ''b'', JNull), (js ''a'', JBool True)])
     = canonicalJson sample_env (JObj [(js ''a'', JBool True), (js ''b'', JNull)])"
    by (subst canonical_json_injective) (simp_all add: js_def)
  show "canonicalJson sample_env (JStr (js ''a'')) \<noteq> canonicalJson sample_env (JStr (js ''b''))"
    by (subst canonical_json_injective) (simp_all add: js_def)
qed

text \<open>C2: what the strict reader lets through.  For every document the reader either fails with a
  reported error or returns a value in which no object has a repeated key, every number is finite
  and nothing is undefined; it never runs out of the fuel of the model.\<close>

theorem strict_reader_accepts_only_strict_values:
  "parseStrictJson d \<noteq> Inl (ParseFail OutOfFuel)
   \<and> (case parseStrictJson d of Inr v \<Rightarrow> json_ok v | Inl e \<Rightarrow> True)"
  using parse_text_fuel parse_text_Inr
  by (auto simp: parseStrictJson_def bindR_def split: sum.splits document.splits option.splits)

end
