(* ===== verification/Policy.thy ===== *)
theory Policy
  imports Strict_Json
begin

text \<open>
  The evaluators of \<^verbatim>\<open>src/scripts/supply-chain/policy.mjs\<close>: OSV vulnerabilities, OSV licences,
  advisory-database identity and Semgrep.  Each turns scanner evidence and a policy into a
  verdict with one of five exit codes.  A thrown \<^verbatim>\<open>ContractError\<close> is a value of \<open>contract\<close>, one
  constructor per message; the label naming the offending field is not kept.
  \<^verbatim>\<open>localeCompare\<close>, case mapping, digests and date parsing come from the runtime record \<open>E\<close>.
\<close>

section \<open>Verdicts\<close>

datatype contract =
    JsonProblem json_error | MustBeArray | MustBeObject | MustBeString | SurroundingWhitespace
  | NulByte | DuplicateSource jstring | ParityFailed "jstring list" | ExpectedShape | ExpectedEmpty
  | DuplicateExpected jstring | ScopeConflict | ScopeUnsupported jstring | GroupIdsEmpty
  | UnknownId jstring | IdMappedTwice jstring | IdsUnmapped "jstring list" | DuplicateId jstring
  | Exit0WithFindings | Exit1WithoutFindings | BadThreshold | SeverityText | SeverityNumber
  | AllowedEmpty | AllowedDuplicate jstring | AllowedUnknown jstring | LicenseConflict
  | LicenseMissing | EvidenceNotRequired | EcosystemNotRequired jstring | EcosystemsEmpty
  | EcosystemDuplicate jstring | HeadersShape | HeaderConflict jstring | HashMalformed
  | HashDuplicate jstring | HashMissing | HashNotBase64 | HeaderMissing | HeadersConflict
  | DigestShape | NotDecimal | NotPositive | BadDuration | BadDate | Md5Mismatch | LengthMismatch
  | LastModifiedBad | DatabaseStale | DatabaseFuture | PinnedMismatch jstring | SemgrepErrors
  | ScannedEmpty | ZeroCoverage jstring | LanguagesShape | ExtensionArray | ExtensionsEmpty
  | ExtensionShape | LanguageRequired jstring | LanguageUnsupported jstring

datatype exn = ContractError contract | OtherError

datatype verror = ErrContract contract | ErrInternal jstring | ErrControl jstring

datatype identity = Identity (ecosystem: jstring) (pname: jstring) (scope: jstring) (version: jstring)

datatype finding =
    VulnFinding jstring identity jnum "jstring list"
  | LicenseFinding jstring identity jstring jstring
  | SastFinding jstring jstring

record verdict =
  v_code :: nat
  v_status :: jstring
  v_errors :: "verror list"
  v_findings :: "finding list"
  v_evidence :: jsval

definition EXIT_PASS :: nat where "EXIT_PASS = 0"
definition EXIT_FINDING :: nat where "EXIT_FINDING = 10"
definition EXIT_CONTRACT :: nat where "EXIT_CONTRACT = 20"
definition EXIT_INTERNAL :: nat where "EXIT_INTERNAL = 21"
definition EXIT_ACQUISITION :: nat where "EXIT_ACQUISITION = 22"

lemmas exit_defs = EXIT_PASS_def EXIT_FINDING_def EXIT_CONTRACT_def EXIT_INTERNAL_def
  EXIT_ACQUISITION_def

definition status_of :: "nat \<Rightarrow> jstring" where
  "status_of c =
     (if c = EXIT_PASS then js ''PASS'' else if c = EXIT_FINDING then js ''FINDING''
      else if c = EXIT_CONTRACT then js ''CONTRACT_ERROR''
      else if c = EXIT_INTERNAL then js ''INTERNAL_ERROR''
      else if c = EXIT_ACQUISITION then js ''ACQUISITION_ERROR'' else [])"

definition result :: "nat \<Rightarrow> finding list \<Rightarrow> verror list \<Rightarrow> jsval \<Rightarrow> verdict" where
  "result code fs errs ev =
     \<lparr>v_code = code, v_status = status_of code, v_errors = errs, v_findings = fs, v_evidence = ev\<rparr>"

lemma result_simps [simp]:
  "v_code (result c fs es ev) = c" "v_status (result c fs es ev) = status_of c"
  "v_errors (result c fs es ev) = es" "v_findings (result c fs es ev) = fs"
  "v_evidence (result c fs es ev) = ev"
  by (simp_all add: result_def)

definition contractE :: "contract \<Rightarrow> exn + 'a" where
  "contractE c = Inl (ContractError c)"

lemma contractE_simps [simp]: "contractE c \<noteq> Inr x" "bindR (contractE c) f = contractE c"
  by (simp_all add: contractE_def)

definition normalizeControlFailure :: "jsenv \<Rightarrow> jsval \<Rightarrow> jstring \<Rightarrow> verdict" where
  "normalizeControlFailure E kind message =
     (let k = (case kind of JStr s \<Rightarrow> js_lower E (trim s) | _ \<Rightarrow> [])
      in if k \<in> {js ''acquisition'', js ''network'', js ''download''}
         then result EXIT_ACQUISITION []
                [ErrControl (if message = [] then js ''scanner acquisition or network failure''
                             else message)] (JObj [])
         else result EXIT_INTERNAL []
                [ErrControl (if message = [] then js ''scanner internal, timeout, or control failure''
                             else message)] (JObj []))"

definition safelyEvaluate :: "jstring \<Rightarrow> exn + verdict \<Rightarrow> jsval \<Rightarrow> verdict" where
  "safelyEvaluate label evaluator errorEvidence =
     (case evaluator of
        Inr v \<Rightarrow> v
      | Inl (ContractError c) \<Rightarrow> result EXIT_CONTRACT [] [ErrContract c] errorEvidence
      | Inl OtherError \<Rightarrow> result EXIT_INTERNAL []
          [ErrInternal (label @ js '' evaluator internal failure'')] errorEvidence)"

text \<open>\<open>None\<close> is the null that lets the evaluation go on.\<close>

definition scannerControlResult :: "jsenv \<Rightarrow> jstring \<Rightarrow> jsval \<Rightarrow> verdict option" where
  "scannerControlResult E scanner rawExit =
     (if is_record rawExit \<and> (getp rawExit ''acquisition'' = JBool True
          \<or> getp rawExit ''network'' = JBool True \<or> getp rawExit ''download'' = JBool True)
      then Some (normalizeControlFailure E (JStr (js ''acquisition''))
                   (scanner @ js '' acquisition or network failure''))
      else if is_record rawExit \<and> (getp rawExit ''timedOut'' = JBool True
          \<or> getp rawExit ''timeout'' = JBool True)
      then Some (normalizeControlFailure E (JStr (js ''timeout'')) (scanner @ js '' timed out''))
      else (case (if is_record rawExit then getp rawExit ''code'' else rawExit) of
        JNum x \<Rightarrow>
          if \<not> is_integer x
          then Some (normalizeControlFailure E (JStr (js ''internal''))
                       (scanner @ js '' exit code is missing or invalid''))
          else if x = Fin 0 \<or> x = Fin 1 then None
          else Some (normalizeControlFailure E (JStr (js ''internal''))
                       (scanner @ js '' control failure at raw exit '' @ js_num_text E x))
      | _ \<Rightarrow> Some (normalizeControlFailure E (JStr (js ''internal''))
                    (scanner @ js '' exit code is missing or invalid''))))"

definition scannerRawExitCode :: "jsval \<Rightarrow> jsval" where
  "scannerRawExitCode rawExit = (if is_record rawExit then getp rawExit ''code'' else rawExit)"

section \<open>Checked field access\<close>

definition requiredArray :: "jsval \<Rightarrow> exn + jsval list" where
  "requiredArray v = (case v of JArr xs \<Rightarrow> Inr xs | _ \<Rightarrow> contractE MustBeArray)"

definition optionalArray :: "jsval \<Rightarrow> exn + jsval list" where
  "optionalArray v = (if v = JUndef then Inr [] else requiredArray v)"

definition requireRecord :: "jsval \<Rightarrow> exn + unit" where
  "requireRecord v = (if is_record v then Inr () else contractE MustBeObject)"

definition requiredNonemptyString :: "jsval \<Rightarrow> exn + jstring" where
  "requiredNonemptyString v =
     (case v of JStr s \<Rightarrow> if trim s = [] then contractE MustBeString else Inr (trim s)
      | _ \<Rightarrow> contractE MustBeString)"

definition sourcePath :: "jsval \<Rightarrow> exn + jstring" where
  "sourcePath v = bindR (requiredNonemptyString v) (\<lambda>s.
     if 0 \<in> set s then contractE NulByte else Inr s)"

text \<open>A required string that must already be trimmed.\<close>

definition untrimmedString :: "jsval \<Rightarrow> exn + jstring" where
  "untrimmedString v = bindR (requiredNonemptyString v) (\<lambda>s.
     if JStr s \<noteq> v then contractE SurroundingWhitespace else Inr s)"

definition canonicalVulnerabilityId :: "jsval \<Rightarrow> exn + jstring" where
  "canonicalVulnerabilityId v = untrimmedString v"

definition canonicalText :: "jsenv \<Rightarrow> jsval \<Rightarrow> exn + jstring" where
  "canonicalText E v =
     (case canonicalJson E v of Inr t \<Rightarrow> Inr t | Inl e \<Rightarrow> contractE (JsonProblem e))"

definition sha256Hex :: "jsenv \<Rightarrow> jstring \<Rightarrow> jstring" where
  "sha256Hex E t = js_hash E (js ''sha256'') (utf8_encode t)"

definition parseDocument :: "document \<Rightarrow> exn + jsval" where
  "parseDocument d =
     (case parseStrictJson d of Inr v \<Rightarrow> Inr v | Inl e \<Rightarrow> contractE (JsonProblem e))"

lemma requiredNonemptyString_Inr [simp]:
  "requiredNonemptyString v = Inr s \<longleftrightarrow> (\<exists>t. v = JStr t \<and> s = trim t \<and> trim t \<noteq> [])"
  by (cases v) (auto simp: requiredNonemptyString_def)

lemma untrimmedString_Inr [simp]:
  "untrimmedString v = Inr s \<longleftrightarrow> v = JStr s \<and> trim s = s \<and> s \<noteq> []"
proof (cases v)
  case (JStr t)
  have "untrimmedString (JStr t) = (if trim t = [] then contractE MustBeString
      else if trim t \<noteq> t then contractE SurroundingWhitespace else Inr t)"
    by (simp add: untrimmedString_def requiredNonemptyString_def)
  with JStr show ?thesis by auto
qed (simp_all add: untrimmedString_def requiredNonemptyString_def)

lemma requiredArray_Inr [simp]: "requiredArray v = Inr xs \<longleftrightarrow> v = JArr xs"
  by (cases v) (auto simp: requiredArray_def)

lemma requireRecord_Inr [simp]: "requireRecord v = Inr u \<longleftrightarrow> is_record v"
  by (simp add: requireRecord_def)

section \<open>Package identities and inventory parity\<close>

definition allowed_scopes :: "jstring list" where
  "allowed_scopes = [js ''production'', js ''development'', js ''optional'', js ''peer'', js ''unknown'']"

definition packageIdentity :: "jsval \<Rightarrow> jsval \<Rightarrow> exn + identity" where
  "packageIdentity packageDocument itemScope =
     (let packageScope = getp packageDocument ''scope'' in
      if packageScope \<noteq> JUndef \<and> itemScope \<noteq> JUndef \<and> packageScope \<noteq> itemScope
      then contractE ScopeConflict
      else bindR (untrimmedString (coalesce (coalesce packageScope itemScope)
                                            (JStr (js ''unknown'')))) (\<lambda>sc.
        if sc \<notin> set allowed_scopes then contractE (ScopeUnsupported sc)
        else bindR (requiredNonemptyString (getp packageDocument ''ecosystem'')) (\<lambda>eco.
          bindR (requiredNonemptyString (getp packageDocument ''name'')) (\<lambda>nm.
          bindR (requiredNonemptyString (getp packageDocument ''version'')) (\<lambda>ver.
            Inr (Identity eco nm sc ver))))))"

definition packageIdentityKey :: "identity \<Rightarrow> jstring" where
  "packageIdentityKey i =
     ecosystem i @ [58] @ pname i @ [64] @ version i @ [35] @ scope i"

definition multiset :: "identity list \<Rightarrow> jstring counts" where
  "multiset ids = tally (map packageIdentityKey ids)"

definition compareMultisets :: "identity list \<Rightarrow> identity list \<Rightarrow> jstring \<Rightarrow> jstring list" where
  "compareMultisets actual expected source =
     (let ac = multiset actual; ec = multiset expected
      in map (\<lambda>k. source @ js '': package '' @ k @ js '' count '' @ nat_text (get_count ac k)
                   @ js '' differs from expected '' @ nat_text (get_count ec k))
           (filter (\<lambda>k. get_count ac k \<noteq> get_count ec k) (uniq (map fst ac @ map fst ec))))"

record entry =
  e_identity :: identity
  e_item :: jsval
  e_source :: jstring

record inventory =
  inv_entries :: "entry list"
  inv_sha256 :: jstring
  inv_sourceCount :: nat

text \<open>The caller's expected inventory: a \<^verbatim>\<open>Map\<close> or an object keyed by source, or neither.\<close>

datatype expected = ExpMap "(jsval \<times> jsval) list" | ExpVal jsval

definition expectedInventory :: "expected \<Rightarrow> exn + (jstring \<times> identity list) list" where
  "expectedInventory x =
     bindR (case x of ExpMap es \<Rightarrow> Inr es
            | ExpVal (JObj fs) \<Rightarrow> Inr (map (\<lambda>(k, v). (JStr k, v)) fs)
            | ExpVal _ \<Rightarrow> contractE ExpectedShape) (\<lambda>rawEntries.
     if rawEntries = [] then contractE ExpectedEmpty
     else foldR (\<lambda>acc (rawSource, packages).
       bindR (sourcePath rawSource) (\<lambda>source.
         if source \<in> fst ` set acc then contractE (DuplicateExpected source)
         else bindR (requiredArray packages) (\<lambda>ps.
           bindR (mapR (\<lambda>e. bindR (requireRecord e) (\<lambda>_.
                    packageIdentity e (getp e ''scope''))) ps) (\<lambda>ids.
             Inr (acc @ [(source, ids)]))))) [] rawEntries)"

definition scanSource :: "(jstring \<times> entry list) list \<Rightarrow> jsval \<Rightarrow> exn + (jstring \<times> entry list) list" where
  "scanSource acc scanResult =
     bindR (requireRecord scanResult) (\<lambda>_.
     bindR (requireRecord (getp scanResult ''source'')) (\<lambda>_.
     bindR (sourcePath (getp (getp scanResult ''source'') ''path'')) (\<lambda>source.
       if source \<in> fst ` set acc then contractE (DuplicateSource source)
       else bindR (requiredArray (getp scanResult ''packages'')) (\<lambda>packages.
         bindR (mapR (\<lambda>item. bindR (requireRecord item) (\<lambda>_.
             bindR (requireRecord (getp item ''package'')) (\<lambda>_.
             bindR (packageIdentity (getp item ''package'') (getp item ''scope'')) (\<lambda>i.
               Inr \<lparr>e_identity = i, e_item = item, e_source = source\<rparr>)))) packages) (\<lambda>es.
           Inr (acc @ [(source, es)]))))))"

definition parityErrors ::
  "(jstring \<times> entry list) list \<Rightarrow> (jstring \<times> identity list) list \<Rightarrow> jstring list" where
  "parityErrors actual expected =
     concat (map (\<lambda>source.
       case map_of expected source of
         None \<Rightarrow> [js ''unexpected scanned source: '' @ source]
       | Some ids \<Rightarrow>
           (case map_of actual source of
              None \<Rightarrow> [js ''expected scanned source is absent: '' @ source]
            | Some es \<Rightarrow> compareMultisets (map e_identity es) ids source))
       (uniq (map fst actual @ map fst expected)))"

definition identityJson :: "identity \<Rightarrow> jsval" where
  "identityJson i =
     JObj [(js ''ecosystem'', JStr (ecosystem i)), (js ''name'', JStr (pname i)),
           (js ''scope'', JStr (scope i)), (js ''version'', JStr (version i))]"

definition inventoryDocument :: "jsenv \<Rightarrow> (jstring \<times> entry list) list \<Rightarrow> jsval" where
  "inventoryDocument E actual =
     JArr (map (\<lambda>(source, es).
       JObj [(js ''packages'', JArr (map identityJson
                (sort_by (\<lambda>a b. js_locale_le E (packageIdentityKey a) (packageIdentityKey b))
                   (map e_identity es)))),
             (js ''source'', JStr source)])
       (sort_by (\<lambda>a b. js_locale_le E (fst a) (fst b)) actual))"

definition validateInventoryParity :: "jsenv \<Rightarrow> jsval \<Rightarrow> expected \<Rightarrow> exn + inventory" where
  "validateInventoryParity E doc expectedBySource =
     bindR (requireRecord doc) (\<lambda>_.
     bindR (requiredArray (getp doc ''results'')) (\<lambda>results.
     bindR (expectedInventory expectedBySource) (\<lambda>expected.
     bindR (foldR scanSource [] results) (\<lambda>actual.
       let errs = parityErrors actual expected in
       if errs \<noteq> [] then contractE (ParityFailed (sort_by (js_locale_le E) errs))
       else bindR (canonicalText E (inventoryDocument E actual)) (\<lambda>t.
         Inr \<lparr>inv_entries = concat (map snd actual), inv_sha256 = sha256Hex E t,
              inv_sourceCount = length actual\<rparr>)))))"

section \<open>OSV vulnerabilities\<close>

definition rawVulnerabilityIds :: "entry \<Rightarrow> exn + jstring list" where
  "rawVulnerabilityIds entry =
     bindR (optionalArray (getp (e_item entry) ''vulnerabilities'')) (\<lambda>vs.
       foldR (\<lambda>ids v. bindR (requireRecord v) (\<lambda>_.
         bindR (canonicalVulnerabilityId (getp v ''id'')) (\<lambda>i.
           if i \<in> set ids then contractE (DuplicateId i) else Inr (ids @ [i])))) [] vs)"

text \<open>\<^verbatim>\<open>/^(?:0(?:\.\d+)?|[1-9](?:\.\d+)?|10(?:\.0+)?)$/\<close>\<close>

definition fraction_ok :: "(nat \<Rightarrow> bool) \<Rightarrow> jstring \<Rightarrow> bool" where
  "fraction_ok p s \<longleftrightarrow> s = [] \<or> (hd s = 46 \<and> tl s \<noteq> [] \<and> list_all p (tl s))"

definition severity_pattern :: "jstring \<Rightarrow> bool" where
  "severity_pattern s \<longleftrightarrow>
     (s \<noteq> [] \<and> is_digit (hd s) \<and> fraction_ok is_digit (tl s))
     \<or> (take 2 s = [49, 48] \<and> fraction_ok (\<lambda>c. c = 48) (drop 2 s))"

text \<open>\<^verbatim>\<open>Number(value)\<close> of a text that matches the pattern.\<close>

definition decimal_number :: "jstring \<Rightarrow> jnum" where
  "decimal_number s =
     (let i = takeWhile is_digit s; f = drop 1 (dropWhile is_digit s)
      in to_double (token_value \<lparr>tok_neg = False, tok_int = i, tok_frac = f, tok_exp = 0\<rparr>))"

definition numericSeverity :: "jsval \<Rightarrow> exn + jnum" where
  "numericSeverity value =
     bindR (case value of
              JNum x \<Rightarrow> Inr x
            | JStr s \<Rightarrow> if severity_pattern s then Inr (decimal_number s) else contractE SeverityText
            | _ \<Rightarrow> contractE SeverityNumber) (\<lambda>score.
       case score of
         Fin r \<Rightarrow> if r < 0 \<or> r > 10 then contractE SeverityNumber else Inr score
       | _ \<Rightarrow> contractE SeverityNumber)"

record groups_state =
  g_mapped :: "jstring list"
  g_scores :: "jnum list"

definition mapGroupId :: "jstring list \<Rightarrow> jstring list \<Rightarrow> jsval \<Rightarrow> exn + jstring list" where
  "mapGroupId known mapped rawId =
     bindR (canonicalVulnerabilityId rawId) (\<lambda>i.
       if i \<notin> set known then contractE (UnknownId i)
       else if i \<in> set mapped then contractE (IdMappedTwice i)
       else Inr (mapped @ [i]))"

definition scoreGroup :: "jstring list \<Rightarrow> groups_state \<Rightarrow> jsval \<Rightarrow> exn + groups_state" where
  "scoreGroup known st grp =
     bindR (requireRecord grp) (\<lambda>_.
     bindR (requiredArray (getp grp ''ids'')) (\<lambda>ids.
       if ids = [] then contractE GroupIdsEmpty
       else bindR (numericSeverity (getp grp ''max_severity'')) (\<lambda>sc.
         bindR (foldR (mapGroupId known) (g_mapped st) ids) (\<lambda>mapped.
           Inr \<lparr>g_mapped = mapped, g_scores = g_scores st @ [sc]\<rparr>))))"

definition validateVulnerabilityGroups :: "jsenv \<Rightarrow> entry \<Rightarrow> exn + jnum list \<times> jstring list" where
  "validateVulnerabilityGroups E entry =
     bindR (rawVulnerabilityIds entry) (\<lambda>ids.
     bindR (optionalArray (getp (e_item entry) ''groups'')) (\<lambda>groups.
     bindR (foldR (scoreGroup ids) \<lparr>g_mapped = [], g_scores = []\<rparr> groups) (\<lambda>st.
       let unmapped = filter (\<lambda>i. i \<notin> set (g_mapped st)) ids in
       if unmapped \<noteq> [] then contractE (IdsUnmapped (sort_by (js_locale_le E) unmapped))
       else Inr (g_scores st, ids))))"

text \<open>The default \<^verbatim>\<open>policy = {}\<close> of the evaluators' parameter.\<close>

definition default_policy :: "jsval \<Rightarrow> jsval" where
  "default_policy policy = (if policy = JUndef then JObj [] else policy)"

lemma getp_default_policy [simp]: "getp (default_policy p) k = getp p k"
  by (simp add: default_policy_def getp_def)

lemma default_policy_object [simp]: "default_policy (JObj fs) = JObj fs"
  by (simp add: default_policy_def)

definition vulnerabilityThreshold :: "jsval \<Rightarrow> exn + rat" where
  "vulnerabilityThreshold policy =
     bindR (requireRecord policy) (\<lambda>_.
       case coalesce (coalesce (coalesce (getp policy ''blockAtOrAbove'')
              (getp policy ''blockAtSeverity'')) (getp policy ''severityThreshold''))
              (JNum (Fin 7)) of
         JNum (Fin r) \<Rightarrow> if r \<le> 0 \<or> r > 7 then contractE BadThreshold else Inr r
       | _ \<Rightarrow> contractE BadThreshold)"

definition assertRawFindingConsistency :: "jsval \<Rightarrow> bool \<Rightarrow> exn + unit" where
  "assertRawFindingConsistency rawExit hasRawFinding =
     (if rawExit = JNum (Fin 0) \<and> hasRawFinding then contractE Exit0WithFindings
      else if rawExit = JNum (Fin 1) \<and> \<not> hasRawFinding then contractE Exit1WithoutFindings
      else Inr ())"

text \<open>\<^verbatim>\<open>Math.max(...scores)\<close> of finite numbers.\<close>

definition fin_val :: "jnum \<Rightarrow> rat" where
  "fin_val x = (case x of Fin r \<Rightarrow> r | _ \<Rightarrow> 0)"

definition max_score :: "jnum list \<Rightarrow> rat" where
  "max_score xs = foldr max (map fin_val (tl xs)) (fin_val (hd xs))"

definition findingJson :: "finding \<Rightarrow> jsval" where
  "findingJson f =
     (case f of
        VulnFinding src i sev ids \<Rightarrow>
          JObj [(js ''type'', JStr (js ''vulnerability'')), (js ''source'', JStr src),
                (js ''package'', identityJson i), (js ''scope'', JStr (scope i)),
                (js ''maximumSeverity'', JNum sev), (js ''vulnerabilityIds'', JArr (map JStr ids))]
      | LicenseFinding src i lic reason \<Rightarrow>
          JObj [(js ''type'', JStr (js ''license'')), (js ''source'', JStr src),
                (js ''package'', identityJson i), (js ''scope'', JStr (scope i)),
                (js ''license'', JStr lic), (js ''reason'', JStr reason)]
      | SastFinding check path \<Rightarrow>
          JObj [(js ''type'', JStr (js ''sast'')), (js ''checkId'', JStr check),
                (js ''path'', JStr path)])"

definition compareFindings :: "jsenv \<Rightarrow> finding \<Rightarrow> finding \<Rightarrow> bool" where
  "compareFindings E a b =
     (case (canonicalJson E (findingJson a), canonicalJson E (findingJson b)) of
        (Inr s, Inr t) \<Rightarrow> js_locale_le E s t | _ \<Rightarrow> True)"

definition vulnerabilityEntry ::
  "jsenv \<Rightarrow> rat \<Rightarrow> finding list \<times> nat \<Rightarrow> entry \<Rightarrow> exn + finding list \<times> nat" where
  "vulnerabilityEntry E threshold st entry =
     bindR (validateVulnerabilityGroups E entry) (\<lambda>(scores, ids).
       let n = snd st + length ids in
       if scores \<noteq> [] \<and> max_score scores \<ge> threshold
       then Inr (fst st @ [VulnFinding (e_source entry) (e_identity entry) (Fin (max_score scores))
                             (sort_by (js_locale_le E) ids)], n)
       else Inr (fst st, n))"

definition finish :: "jsenv \<Rightarrow> finding list \<Rightarrow> jsval \<Rightarrow> verdict" where
  "finish E findings evidence =
     (if findings = [] then result EXIT_PASS [] [] evidence
      else result EXIT_FINDING (sort_by (compareFindings E) findings) [] evidence)"

definition evaluateOsvVulnerabilities ::
  "jsenv \<Rightarrow> document \<Rightarrow> jsval \<Rightarrow> expected \<Rightarrow> jsval \<Rightarrow> verdict" where
  "evaluateOsvVulnerabilities E doc rawExit expectedBySource policy =
     (case scannerControlResult E (js ''OSV vulnerability scanner'') rawExit of
        Some control \<Rightarrow> control
      | None \<Rightarrow> safelyEvaluate (js ''OSV vulnerability'')
          (bindR (vulnerabilityThreshold (default_policy policy)) (\<lambda>threshold.
           bindR (parseDocument doc) (\<lambda>parsed.
           bindR (validateInventoryParity E parsed expectedBySource) (\<lambda>inventory.
           bindR (foldR (vulnerabilityEntry E threshold) ([], 0) (inv_entries inventory))
             (\<lambda>(findings, rawVulnerabilityCount).
           bindR (assertRawFindingConsistency (scannerRawExitCode rawExit)
                    (rawVulnerabilityCount > 0)) (\<lambda>_.
             Inr (finish E findings
               (JObj [(js ''inventorySha256'', JStr (inv_sha256 inventory)),
                      (js ''packageCount'', JNum (Fin (of_nat (length (inv_entries inventory))))),
                      (js ''sourceCount'', JNum (Fin (of_nat (inv_sourceCount inventory)))),
                      (js ''threshold'', JNum (Fin threshold))])))))))) (JObj []))"

section \<open>OSV licences\<close>

definition unknown_licenses :: "jstring list" where
  "unknown_licenses = [js ''UNKNOWN'', js ''NOASSERTION'', js ''NONE'']"

text \<open>The argument of \<^verbatim>\<open>policy.allowedSpdx\<close> may be a \<^verbatim>\<open>Set\<close> of the caller; both forms are the list
  of their elements.\<close>

definition allowedSpdxSet :: "jsenv \<Rightarrow> jsval \<Rightarrow> exn + jstring list" where
  "allowedSpdxSet E policy =
     bindR (requireRecord policy) (\<lambda>_.
       case getp policy ''allowedSpdx'' of
         JArr entries \<Rightarrow>
           if entries = [] then contractE AllowedEmpty
           else foldR (\<lambda>allowed e. bindR (untrimmedString e) (\<lambda>license.
             if license \<in> set allowed then contractE (AllowedDuplicate license)
             else if js_upper E license \<in> set unknown_licenses then contractE (AllowedUnknown license)
             else Inr (allowed @ [license]))) [] entries
       | _ \<Rightarrow> contractE AllowedEmpty)"

definition licenseArray :: "jsenv \<Rightarrow> entry \<Rightarrow> exn + jsval list" where
  "licenseArray E entry =
     (let outer = getp (e_item entry) ''licenses'';
          nested = getp (getp (e_item entry) ''package'') ''licenses''
      in bindR (if outer \<noteq> JUndef \<and> nested \<noteq> JUndef
                then bindR (canonicalText E outer) (\<lambda>a. bindR (canonicalText E nested) (\<lambda>b.
                       if a \<noteq> b then contractE LicenseConflict else Inr ()))
                else Inr ()) (\<lambda>_.
           if coalesce outer nested = JUndef then contractE LicenseMissing
           else requiredArray (coalesce outer nested)))"

definition licenseFindings :: "jsenv \<Rightarrow> jstring list \<Rightarrow> entry \<Rightarrow> jsval list \<Rightarrow> exn + finding list" where
  "licenseFindings E allowed entry licenses =
     foldR (\<lambda>fs license. bindR (untrimmedString license) (\<lambda>normalized.
       let isUnknown = js_upper E normalized \<in> set unknown_licenses in
       if isUnknown \<or> normalized \<notin> set allowed
       then Inr (fs @ [LicenseFinding (e_source entry) (e_identity entry) normalized
                  (if isUnknown then js ''license is unknown''
                   else js ''license is not explicitly allowed'')])
       else Inr fs)) [] licenses"

definition licenseEntry ::
  "jsenv \<Rightarrow> jstring list \<Rightarrow> finding list \<times> nat \<Rightarrow> entry \<Rightarrow> exn + finding list \<times> nat" where
  "licenseEntry E allowed st entry =
     bindR (rawVulnerabilityIds entry) (\<lambda>ids.
     bindR (licenseArray E entry) (\<lambda>licenses.
       if licenses = []
       then Inr (fst st @ [LicenseFinding (e_source entry) (e_identity entry) (js ''UNKNOWN'')
                   (js ''license array is empty'')], snd st + length ids)
       else bindR (licenseFindings E allowed entry licenses) (\<lambda>fs.
         Inr (fst st @ fs, snd st + length ids))))"

definition evaluateOsvLicenses ::
  "jsenv \<Rightarrow> document \<Rightarrow> jsval \<Rightarrow> expected \<Rightarrow> jsval \<Rightarrow> verdict" where
  "evaluateOsvLicenses E doc rawExit expectedBySource policy =
     (case scannerControlResult E (js ''OSV license scanner'') rawExit of
        Some control \<Rightarrow> control
      | None \<Rightarrow> safelyEvaluate (js ''OSV license'')
          (bindR (allowedSpdxSet E (default_policy policy)) (\<lambda>allowed.
           bindR (parseDocument doc) (\<lambda>parsed.
           bindR (validateInventoryParity E parsed expectedBySource) (\<lambda>inventory.
           bindR (foldR (licenseEntry E allowed) ([], 0) (inv_entries inventory))
             (\<lambda>(findings, rawVulnerabilityCount).
           bindR (assertRawFindingConsistency (scannerRawExitCode rawExit)
                    (rawVulnerabilityCount > 0 \<or> findings \<noteq> [])) (\<lambda>_.
           bindR (canonicalText E (JArr (map JStr (sort_by (js_locale_le E) allowed)))) (\<lambda>t.
             Inr (finish E findings
               (JObj [(js ''allowedSpdxSha256'', JStr (sha256Hex E t)),
                      (js ''inventorySha256'', JStr (inv_sha256 inventory)),
                      (js ''packageCount'', JNum (Fin (of_nat (length (inv_entries inventory))))),
                      (js ''sourceCount'', JNum (Fin (of_nat (inv_sourceCount inventory))))]))))))))) (JObj []))"

section \<open>Advisory-database identity\<close>

definition MAX_DATABASE_AGE_MS :: int where "MAX_DATABASE_AGE_MS = 48 * 60 * 60 * 1000"
definition MAX_FUTURE_SKEW_MS :: int where "MAX_FUTURE_SKEW_MS = 10 * 60 * 1000"

definition databaseEcosystems :: "jsval \<Rightarrow> exn + jstring list" where
  "databaseEcosystems policy =
     (let raw = coalesce (getp policy ''requiredEcosystems'')
            (if getp policy ''requiredEcosystem'' \<noteq> JUndef
             then JArr [getp policy ''requiredEcosystem'']
             else if getp policy ''ecosystem'' \<noteq> JUndef then JArr [getp policy ''ecosystem'']
             else JUndef)
      in case raw of
           JArr xs \<Rightarrow>
             if xs = [] then contractE EcosystemsEmpty
             else foldR (\<lambda>acc x. bindR (requiredNonemptyString x) (\<lambda>n.
               if n \<in> set acc then contractE (EcosystemDuplicate n) else Inr (acc @ [n]))) [] xs
         | _ \<Rightarrow> contractE EcosystemsEmpty)"

text \<open>Headers: the entries of an object, or of a \<^verbatim>\<open>Headers\<close>/\<^verbatim>\<open>Map\<close> object of the caller, which the model
  takes as the object of its entries.\<close>

definition normalizeHeaders :: "jsenv \<Rightarrow> jsval \<Rightarrow> exn + (jstring \<times> jstring) list" where
  "normalizeHeaders E rawHeaders =
     (case rawHeaders of
        JObj fs \<Rightarrow>
          foldR (\<lambda>headers (rawName, rawValue).
            bindR (requiredNonemptyString (JStr rawName)) (\<lambda>n0.
            bindR (requiredNonemptyString rawValue) (\<lambda>value.
              let nm = js_lower E n0 in
              (case map_of headers nm of
                 Some old \<Rightarrow> if old \<noteq> value then contractE (HeaderConflict nm)
                             else Inr (put headers nm value)
               | None \<Rightarrow> Inr (put headers nm value))))) [] fs
      | _ \<Rightarrow> contractE HeadersShape)"

definition requiredHeader :: "(jstring \<times> jstring) list \<Rightarrow> jstring list \<Rightarrow> exn + jstring" where
  "requiredHeader headers aliases =
     (case List.map_filter (map_of headers) aliases of
        [] \<Rightarrow> contractE HeaderMissing
      | values \<Rightarrow> bindR (mapR (\<lambda>v. requiredNonemptyString (JStr v)) values) (\<lambda>normalized.
          if length (uniq normalized) \<noteq> 1 then contractE HeadersConflict
          else Inr (hd normalized)))"

definition hashPart ::
  "jsenv \<Rightarrow> (jstring \<times> jstring) list \<Rightarrow> jstring \<Rightarrow> exn + (jstring \<times> jstring) list" where
  "hashPart E values part =
     (case index_of 61 part of
        None \<Rightarrow> contractE HashMalformed
      | Some separator \<Rightarrow>
          if separator = 0 then contractE HashMalformed
          else let algorithm = js_lower E (trim (take separator part));
                   value = trim (drop (separator + 1) part)
               in if algorithm = [] \<or> value = [] then contractE HashMalformed
                  else if algorithm \<in> fst ` set values then contractE (HashDuplicate algorithm)
                  else Inr (values @ [(algorithm, value)]))"

definition gcsMd5Header :: "jsenv \<Rightarrow> (jstring \<times> jstring) list \<Rightarrow> exn + jstring" where
  "gcsMd5Header E headers =
     bindR (requiredHeader headers [js ''x-goog-hash'']) (\<lambda>rawHash.
     bindR (foldR (hashPart E) [] (split_on 44 rawHash)) (\<lambda>values.
       case map_of values (js ''md5'') of
         None \<Rightarrow> contractE HashMissing
       | Some md5 \<Rightarrow>
           let decoded = js_b64_decode E md5 in
           if length decoded \<noteq> 16 \<or> base64_encode decoded \<noteq> md5 then contractE HashNotBase64
           else Inr md5))"

definition digestField :: "jsenv \<Rightarrow> jsval \<Rightarrow> nat \<Rightarrow> exn + jstring" where
  "digestField E value len =
     bindR (requiredNonemptyString value) (\<lambda>digest.
       if \<not> (length digest = len \<and> list_all is_hex digest) then contractE DigestShape
       else Inr (js_lower E digest))"

definition positiveInteger :: "jsval \<Rightarrow> exn + int" where
  "positiveInteger value =
     (case value of
        JNum (Fin r) \<Rightarrow> if \<not> is_safe_integer (Fin r) \<or> r \<le> 0 then contractE NotPositive
                        else Inr \<lfloor>r\<rfloor>
      | _ \<Rightarrow> contractE NotPositive)"

definition decimalHeader :: "jstring \<Rightarrow> exn + int" where
  "decimalHeader value =
     (if value = [] \<or> \<not> list_all is_digit value then contractE NotDecimal
      else positiveInteger (JNum (to_double (of_nat (digits_value value)))))"

definition boundedDuration :: "jsval \<Rightarrow> int \<Rightarrow> exn + int" where
  "boundedDuration value maximum =
     (if value = JUndef then Inr maximum
      else case value of
        JNum (Fin r) \<Rightarrow> if \<not> is_safe_integer (Fin r) \<or> r < 0 \<or> r > of_int maximum
                        then contractE BadDuration else Inr \<lfloor>r\<rfloor>
      | _ \<Rightarrow> contractE BadDuration)"

text \<open>The \<^verbatim>\<open>now\<close> argument: a \<^verbatim>\<open>Date\<close> (given by its time value), or a number or text.\<close>

datatype moment = MDate jnum | MVal jsval

definition dateMilliseconds :: "jsenv \<Rightarrow> moment \<Rightarrow> exn + rat" where
  "dateMilliseconds E value =
     (case (case value of MDate x \<Rightarrow> x | MVal (JNum x) \<Rightarrow> x | MVal (JStr s) \<Rightarrow> js_date_parse E s
            | MVal _ \<Rightarrow> NaN) of
        Fin r \<Rightarrow> Inr r | _ \<Rightarrow> contractE BadDate)"

record db_identity =
  db_contentLength :: int
  db_ecosystem :: jstring
  db_etag :: jstring
  db_file :: jstring
  db_generation :: jstring
  db_lastModified :: rat
  db_md5 :: jstring
  db_sha256 :: jstring

definition validatePinnedDatabaseIdentity :: "db_identity \<Rightarrow> jsval \<Rightarrow> exn + unit" where
  "validatePinnedDatabaseIdentity i policy =
     foldR (\<lambda>_ (policyKey, actual, label).
       if getp policy policyKey \<noteq> JUndef \<and> getp policy policyKey \<noteq> actual
       then contractE (PinnedMismatch (js label)) else Inr ()) ()
     [(''expectedSha256'', JStr (db_sha256 i), ''SHA-256''),
      (''expectedMd5'', JStr (db_md5 i), ''MD5''),
      (''expectedContentLength'', JNum (Fin (of_int (db_contentLength i))), ''content length''),
      (''expectedGeneration'', JStr (db_generation i), ''generation''),
      (''expectedEtag'', JStr (db_etag i), ''etag'')]"

definition identityRecord :: "jsenv \<Rightarrow> db_identity \<Rightarrow> jsval" where
  "identityRecord E i =
     JObj [(js ''contentLength'', JNum (Fin (of_int (db_contentLength i)))),
           (js ''ecosystem'', JStr (db_ecosystem i)), (js ''etag'', JStr (db_etag i)),
           (js ''file'', JStr (db_file i)), (js ''generation'', JStr (db_generation i)),
           (js ''lastModified'', JStr (js_iso E (Fin (db_lastModified i)))),
           (js ''md5'', JStr (db_md5 i)), (js ''sha256'', JStr (db_sha256 i))]"

text \<open>The part of \<^verbatim>\<open>validateDatabaseIdentity\<close> before the headers are normalised, and the part after.\<close>

definition databaseFields ::
  "jsenv \<Rightarrow> jsval \<Rightarrow> jsval \<Rightarrow> exn + jstring \<times> jstring \<times> jstring \<times> jstring \<times> int" where
  "databaseFields E metadata policy =
     bindR (requireRecord metadata) (\<lambda>_.
     bindR (requireRecord (default_policy policy)) (\<lambda>_.
       if getp policy ''requireSha256Evidence'' \<noteq> JBool True then contractE EvidenceNotRequired
       else bindR (databaseEcosystems policy) (\<lambda>required.
       bindR (requiredNonemptyString (getp metadata ''ecosystem'')) (\<lambda>eco.
       if eco \<notin> set required then contractE (EcosystemNotRequired eco)
       else bindR (requiredNonemptyString (getp metadata ''file'')) (\<lambda>file.
       bindR (digestField E (getp metadata ''sha256'') 64) (\<lambda>sha256.
       bindR (digestField E (getp metadata ''md5'') 32) (\<lambda>md5.
       bindR (positiveInteger (getp metadata ''contentLength'')) (\<lambda>contentLength.
         Inr (eco, file, sha256, md5, contentLength)))))))))"

definition databaseFreshness ::
  "jsenv \<Rightarrow> (jstring \<times> jstring) list \<Rightarrow> jsval \<Rightarrow> moment \<Rightarrow> exn + jstring \<times> jstring \<times> rat" where
  "databaseFreshness E headers policy now =
     bindR (requiredHeader headers [js ''lastmodified'', js ''last-modified'']) (\<lambda>lastModifiedText.
     bindR (requiredHeader headers [js ''generation'', js ''x-generation'', js ''x-goog-generation''])
       (\<lambda>generation.
     bindR (requiredHeader headers [js ''etag'']) (\<lambda>etag.
     bindR (case js_date_parse E lastModifiedText of Fin r \<Rightarrow> Inr r | _ \<Rightarrow> contractE LastModifiedBad)
       (\<lambda>lastModified.
     bindR (dateMilliseconds E now) (\<lambda>nowMs.
     bindR (boundedDuration (getp policy ''maxAgeMs'') MAX_DATABASE_AGE_MS) (\<lambda>maxAgeMs.
     bindR (boundedDuration (getp policy ''maxFutureSkewMs'') MAX_FUTURE_SKEW_MS) (\<lambda>maxFutureSkewMs.
       if lastModified < nowMs - of_int maxAgeMs then contractE DatabaseStale
       else if lastModified > nowMs + of_int maxFutureSkewMs then contractE DatabaseFuture
       else Inr (etag, generation, lastModified))))))))"

definition databaseIdentity ::
  "jsenv \<Rightarrow> jsval \<Rightarrow> moment \<Rightarrow> (jstring \<times> jstring) list
   \<Rightarrow> jstring \<times> jstring \<times> jstring \<times> jstring \<times> int \<Rightarrow> exn + db_identity" where
  "databaseIdentity E policy now headers flds =
     (case flds of (eco, file, sha256, md5, contentLength) \<Rightarrow>
     bindR (gcsMd5Header E headers) (\<lambda>headerMd5.
     bindR (bindR (requiredHeader headers [js ''contentlength'', js ''content-length'']) decimalHeader)
       (\<lambda>headerLength.
       if base64_encode (hex_decode md5) \<noteq> headerMd5 then contractE Md5Mismatch
       else if contentLength \<noteq> headerLength then contractE LengthMismatch
       else bindR (databaseFreshness E headers policy now) (\<lambda>(etag, generation, lastModified).
         let i = \<lparr>db_contentLength = contentLength, db_ecosystem = eco, db_etag = etag,
                  db_file = file, db_generation = generation, db_lastModified = lastModified,
                  db_md5 = md5, db_sha256 = sha256\<rparr>
         in bindR (validatePinnedDatabaseIdentity i policy) (\<lambda>_. Inr i)))))"

definition headersEvidence :: "jsenv \<Rightarrow> (jstring \<times> jstring) list \<Rightarrow> jsval" where
  "headersEvidence E headers =
     JObj (map (\<lambda>(k, v). (k, JStr v)) (sort_by (\<lambda>a b. js_locale_le E (fst a) (fst b)) headers))"

text \<open>The error evidence is empty until the headers are normalised and then holds them.\<close>

definition validateDatabaseIdentity :: "jsenv \<Rightarrow> jsval \<Rightarrow> jsval \<Rightarrow> moment \<Rightarrow> verdict" where
  "validateDatabaseIdentity E metadata policy now =
     (case bindR (databaseFields E metadata policy) (\<lambda>flds.
             bindR (normalizeHeaders E (getp metadata ''headers'')) (\<lambda>headers.
               Inr (flds, headers))) of
        Inl e \<Rightarrow> safelyEvaluate (js ''advisory database identity'') (Inl e) (JObj [])
      | Inr (flds, headers) \<Rightarrow>
          safelyEvaluate (js ''advisory database identity'')
            (bindR (databaseIdentity E policy now headers flds) (\<lambda>i.
             bindR (canonicalText E (identityRecord E i)) (\<lambda>t.
               Inr (result EXIT_PASS [] []
                 (JObj [(js ''headers'', headersEvidence E headers), (js ''identity'', identityRecord E i),
                        (js ''identitySha256'', JStr (sha256Hex E t))])))))
            (JObj [(js ''headers'', headersEvidence E headers)]))"

section \<open>Semgrep\<close>

text \<open>\<^verbatim>\<open>path.extname\<close> of a POSIX path.\<close>

definition last_component :: "jstring \<Rightarrow> jstring" where
  "last_component p = last (split_on 47 (rev (dropWhile (\<lambda>c. c = 47) (rev p))))"

definition extname :: "jstring \<Rightarrow> jstring" where
  "extname p =
     (let base = last_component p
      in case index_of 46 (rev base) of
           None \<Rightarrow> []
         | Some i \<Rightarrow> if i + 1 = length base \<or> base = [46, 46] then []
                     else drop (length base - (i + 1)) base)"

definition default_languages :: "(jstring \<times> jstring list) list" where
  "default_languages =
     [(js ''go'', [js ''.go'']),
      (js ''javascript-typescript'',
        [js ''.js'', js ''.jsx'', js ''.mjs'', js ''.cjs'', js ''.ts'', js ''.tsx'', js ''.mts'', js ''.cts''])]"

definition canonicalLanguage :: "jsenv \<Rightarrow> jsval \<Rightarrow> exn + jstring" where
  "canonicalLanguage E value =
     bindR (requiredNonemptyString value) (\<lambda>s.
       let language = js_lower E s in
       if language = js ''go'' \<or> language = js ''golang'' then Inr (js ''go'')
       else if language \<in> {js ''javascript-typescript'', js ''javascript'', js ''typescript'',
                           js ''js'', js ''ts'', js ''js/ts''} then Inr (js ''javascript-typescript'')
       else contractE (LanguageUnsupported language))"

definition extension_pattern :: "jstring \<Rightarrow> bool" where
  "extension_pattern s \<longleftrightarrow>
     s \<noteq> [] \<and> hd s = 46 \<and> tl s \<noteq> [] \<and> list_all (\<lambda>c. is_lower c \<or> is_digit c) (tl s)"

definition languageEntry ::
  "jsenv \<Rightarrow> (jstring \<times> jstring list) list \<Rightarrow> jsval \<times> jsval
   \<Rightarrow> exn + (jstring \<times> jstring list) list" where
  "languageEntry E combined e =
     (case e of (rawLanguage, rawExtensions) \<Rightarrow>
     bindR (canonicalLanguage E rawLanguage) (\<lambda>language.
     bindR (if rawExtensions = JNull
            then Inr (case map_of default_languages language of Some xs \<Rightarrow> map JStr xs | None \<Rightarrow> [])
            else case rawExtensions of
                   JArr xs \<Rightarrow> Inr xs
                 | JObj _ \<Rightarrow> (case getp rawExtensions ''extensions'' of
                     JArr xs \<Rightarrow> Inr xs | _ \<Rightarrow> contractE ExtensionArray)
                 | _ \<Rightarrow> contractE ExtensionArray) (\<lambda>extensions.
       if extensions = [] then contractE ExtensionsEmpty
       else bindR (foldR (\<lambda>cur x. bindR (requiredNonemptyString x) (\<lambda>s.
              if \<not> extension_pattern (js_lower E s) then contractE ExtensionShape
              else Inr (if js_lower E s \<in> set cur then cur else cur @ [js_lower E s])))
              (case map_of combined language of Some xs \<Rightarrow> xs | None \<Rightarrow> []) extensions) (\<lambda>cur.
         Inr (put combined language cur)))))"

definition languagePolicy :: "jsenv \<Rightarrow> jsval \<Rightarrow> exn + (jstring \<times> jstring list) list" where
  "languagePolicy E requiredLanguages =
     bindR (case requiredLanguages of
              JArr ls \<Rightarrow> Inr (map (\<lambda>l. (l, JNull)) ls)
            | JObj fs \<Rightarrow> Inr (map (\<lambda>(k, v). (JStr k, v)) fs)
            | _ \<Rightarrow> contractE LanguagesShape) (\<lambda>entries.
       if entries = [] then contractE LanguagesShape
       else bindR (foldR (languageEntry E) [] entries) (\<lambda>combined.
         if js ''go'' \<notin> fst ` set combined then contractE (LanguageRequired (js ''go''))
         else if js ''javascript-typescript'' \<notin> fst ` set combined
         then contractE (LanguageRequired (js ''javascript-typescript''))
         else Inr (sort_by (\<lambda>a b. js_locale_le E (fst a) (fst b)) combined)))"

definition coverageCount :: "jsenv \<Rightarrow> jstring list \<Rightarrow> jstring list \<Rightarrow> nat" where
  "coverageCount E scanned extensions =
     length (filter (\<lambda>p. js_lower E (extname p) \<in> set extensions) scanned)"

definition semgrepFinding :: "jsval \<Rightarrow> exn + finding" where
  "semgrepFinding f =
     bindR (requireRecord f) (\<lambda>_.
     bindR (requiredNonemptyString (getp f ''check_id'')) (\<lambda>c.
     bindR (requiredNonemptyString (getp f ''path'')) (\<lambda>p. Inr (SastFinding c p))))"

definition evaluateSemgrep :: "jsenv \<Rightarrow> document \<Rightarrow> jsval \<Rightarrow> jsval \<Rightarrow> verdict" where
  "evaluateSemgrep E doc rawExit requiredLanguages =
     (case scannerControlResult E (js ''Semgrep'') rawExit of
        Some control \<Rightarrow> control
      | None \<Rightarrow> safelyEvaluate (js ''Semgrep'')
          (bindR (parseDocument doc) (\<lambda>parsed.
           bindR (requireRecord parsed) (\<lambda>_.
           bindR (requiredArray (getp parsed ''errors'')) (\<lambda>errors.
           if errors \<noteq> [] then contractE SemgrepErrors
           else bindR (requiredArray (getp parsed ''results'')) (\<lambda>findings.
           bindR (requireRecord (getp parsed ''paths'')) (\<lambda>_.
           bindR (bindR (requiredArray (getp (getp parsed ''paths'') ''scanned''))
                    (mapR requiredNonemptyString)) (\<lambda>scanned.
           if scanned = [] then contractE ScannedEmpty
           else bindR (languagePolicy E requiredLanguages) (\<lambda>languages.
           bindR (mapR (\<lambda>(language, extensions).
                    let n = coverageCount E scanned extensions in
                    if n = 0 then contractE (ZeroCoverage language) else Inr (language, n)) languages)
             (\<lambda>coverage.
           bindR (mapR semgrepFinding findings) (\<lambda>normalized.
           if rawExit = JNum (Fin 0) \<and> normalized \<noteq> [] then contractE Exit0WithFindings
           else if rawExit = JNum (Fin 1) \<and> normalized = [] then contractE Exit1WithoutFindings
           else bindR (canonicalText E (JArr (map JStr (sort_by (js_locale_le E) scanned)))) (\<lambda>t.
             Inr (finish E normalized
               (JObj [(js ''coverage'', JObj (map (\<lambda>(l, n). (l, JNum (Fin (of_nat n)))) coverage)),
                      (js ''scannedPathCount'', JNum (Fin (of_nat (length scanned)))),
                      (js ''scannedPathsSha256'', JStr (sha256Hex E t))]))))))))))))) (JObj []))"

end
