(* ===== verification/Policy_Props.thy ===== *)
theory Policy_Props
  imports Policy
begin

text \<open>
  Correctness of the evaluators of \<^verbatim>\<open>policy.mjs\<close>: the shape of every verdict, the refinement of
  the counting maps to multisets, and what a passing verdict guarantees about the evidence.
\<close>

section \<open>Verdict shape\<close>

text \<open>What every caller relies on: the status names the exit code, a pass carries neither findings
  nor errors, a finding verdict carries findings and no error, and every other code carries an
  error and no finding.\<close>

definition verdict_ok :: "verdict \<Rightarrow> bool" where
  "verdict_ok v \<longleftrightarrow> v_status v = status_of (v_code v) \<and>
     (if v_code v = EXIT_PASS then v_findings v = [] \<and> v_errors v = []
      else if v_code v = EXIT_FINDING then v_findings v \<noteq> [] \<and> v_errors v = []
      else v_code v \<in> {EXIT_CONTRACT, EXIT_INTERNAL, EXIT_ACQUISITION}
           \<and> v_findings v = [] \<and> v_errors v \<noteq> [])"

lemma control_failure_ok:
  "verdict_ok (normalizeControlFailure E k m)"
  "v_code (normalizeControlFailure E k m) = EXIT_INTERNAL
   \<or> v_code (normalizeControlFailure E k m) = EXIT_ACQUISITION"
  by (simp_all add: normalizeControlFailure_def Let_def verdict_ok_def exit_defs)

lemma control_result:
  assumes "scannerControlResult E sc rawExit = Some v"
  shows "verdict_ok v" "v_code v = EXIT_INTERNAL \<or> v_code v = EXIT_ACQUISITION"
proof -
  have "\<exists>k m. v = normalizeControlFailure E k m"
    using assms unfolding scannerControlResult_def
    by (simp split: if_splits jsval.splits) blast+
  then show "verdict_ok v" "v_code v = EXIT_INTERNAL \<or> v_code v = EXIT_ACQUISITION"
    using control_failure_ok by blast+
qed

lemma control_not_pass: "scannerControlResult E sc rawExit = Some v \<Longrightarrow> v_code v \<noteq> EXIT_PASS"
  using control_result(2)[of E sc rawExit v] by (auto simp: exit_defs)

lemma control_None:
  "scannerControlResult E sc rawExit = None \<Longrightarrow>
     scannerRawExitCode rawExit = JNum (Fin 0) \<or> scannerRawExitCode rawExit = JNum (Fin 1)"
  by (auto simp: scannerControlResult_def scannerRawExitCode_def split: if_splits jsval.splits)

lemma safely_verdict_ok:
  "(\<And>v. m = Inr v \<Longrightarrow> verdict_ok v) \<Longrightarrow> verdict_ok (safelyEvaluate l m ev)"
  by (auto simp: safelyEvaluate_def verdict_ok_def exit_defs split: sum.splits exn.splits)

lemma safely_pass:
  "v_code (safelyEvaluate l m ev) = EXIT_PASS \<longleftrightarrow> (\<exists>v. m = Inr v \<and> v_code v = EXIT_PASS)"
  by (auto simp: safelyEvaluate_def exit_defs split: sum.splits exn.splits)

lemma finish_ok: "verdict_ok (finish E fs ev)"
  by (simp add: finish_def verdict_ok_def exit_defs)

lemma finish_pass: "v_code (finish E fs ev) = EXIT_PASS \<longleftrightarrow> fs = []"
  by (simp add: finish_def exit_defs)

lemma osv_vulnerabilities_ok: "verdict_ok (evaluateOsvVulnerabilities E d r x p)"
  by (auto simp: evaluateOsvVulnerabilities_def finish_ok control_result(1) Let_def
      intro!: safely_verdict_ok split: option.splits prod.splits)

lemma osv_licenses_ok: "verdict_ok (evaluateOsvLicenses E d r x p)"
  by (auto simp: evaluateOsvLicenses_def finish_ok control_result(1) Let_def
      intro!: safely_verdict_ok split: option.splits prod.splits)

lemma semgrep_ok: "verdict_ok (evaluateSemgrep E d r l)"
  by (auto simp: evaluateSemgrep_def finish_ok control_result(1) Let_def
      intro!: safely_verdict_ok split: option.splits prod.splits if_splits)

lemma database_ok: "verdict_ok (validateDatabaseIdentity E m p n)"
  unfolding validateDatabaseIdentity_def
  by (auto split: sum.splits prod.splits intro!: safely_verdict_ok)
    (simp add: verdict_ok_def exit_defs)

section \<open>Counting maps are multisets\<close>

lemma compareMultisets_Nil_iff:
  "compareMultisets actual expected source = [] \<longleftrightarrow>
     mset (map packageIdentityKey actual) = mset (map packageIdentityKey expected)"
proof -
  let ?a = "map packageIdentityKey actual" and ?e = "map packageIdentityKey expected"
  have "compareMultisets actual expected source = [] \<longleftrightarrow>
      (\<forall>k \<in> set ?a \<union> set ?e. count (mset ?a) k = count (mset ?e) k)"
    by (auto simp: compareMultisets_def multiset_def Let_def filter_empty_conv
        simp del: mset_map)
  also have "\<dots> \<longleftrightarrow> mset ?a = mset ?e"
  proof
    assume *: "\<forall>k \<in> set ?a \<union> set ?e. count (mset ?a) k = count (mset ?e) k"
    show "mset ?a = mset ?e"
    proof (rule multiset_eqI)
      fix k
      show "count (mset ?a) k = count (mset ?e) k"
      proof (cases "k \<in> set ?a \<union> set ?e")
        case False
        then have "k \<notin># mset ?a" "k \<notin># mset ?e" unfolding set_mset_mset by blast+
        then show ?thesis by (simp only: not_in_iff)
      qed (use * in blast)
    qed
  qed simp
  finally show ?thesis .
qed

text \<open>The abstract contract of the inventory comparison: the same sources, and for every source
  the same multiset of package keys.\<close>

definition same_inventory ::
  "(jstring \<times> entry list) list \<Rightarrow> (jstring \<times> identity list) list \<Rightarrow> bool" where
  "same_inventory actual expected \<longleftrightarrow>
     fst ` set actual = fst ` set expected \<and>
     (\<forall>source es ids. map_of actual source = Some es \<longrightarrow> map_of expected source = Some ids \<longrightarrow>
        mset (map (packageIdentityKey \<circ> e_identity) es) = mset (map packageIdentityKey ids))"

lemma parityErrors_Nil_iff: "parityErrors actual expected = [] \<longleftrightarrow> same_inventory actual expected"
proof -
  let ?f = "\<lambda>source. case map_of expected source of
         None \<Rightarrow> [js ''unexpected scanned source: '' @ source]
       | Some ids \<Rightarrow>
           (case map_of actual source of
              None \<Rightarrow> [js ''expected scanned source is absent: '' @ source]
            | Some es \<Rightarrow> compareMultisets (map e_identity es) ids source)"
  have "parityErrors actual expected = [] \<longleftrightarrow>
      (\<forall>s \<in> fst ` set actual \<union> fst ` set expected. ?f s = [])"
    by (auto simp: parityErrors_def)
  also have "\<dots> \<longleftrightarrow> (\<forall>s \<in> fst ` set actual \<union> fst ` set expected.
      \<exists>es ids. map_of actual s = Some es \<and> map_of expected s = Some ids \<and>
        mset (map (packageIdentityKey \<circ> e_identity) es) = mset (map packageIdentityKey ids))"
    by (intro ball_cong refl)
      (auto simp: compareMultisets_Nil_iff split: option.splits)
  also have "\<dots> \<longleftrightarrow> same_inventory actual expected" (is "?L \<longleftrightarrow> ?R")
  proof
    show ?R if ?L
      unfolding same_inventory_def
    proof (intro conjI allI impI)
      show "fst ` set actual = fst ` set expected"
        using that by (simp only: key_iff_map_of Un_iff set_eq_iff Ball_def) blast
      fix s es ids assume "map_of actual s = Some es" "map_of expected s = Some ids"
      then show "mset (map (packageIdentityKey \<circ> e_identity) es) = mset (map packageIdentityKey ids)"
        using that by (metis UnI1 key_iff_map_of option.inject)
    qed
    show ?L if ?R
      using that unfolding same_inventory_def by (metis Un_iff key_iff_map_of)
  qed
  finally show ?thesis .
qed

lemma validateInventoryParity_Inr:
  assumes "validateInventoryParity E doc x = Inr iv"
  obtains results actual exps where
    "getp doc ''results'' = JArr results" "expectedInventory x = Inr exps"
    "foldR scanSource [] results = Inr actual" "same_inventory actual exps"
    "inv_entries iv = concat (map snd actual)" "inv_sourceCount iv = length actual"
  using assms
  by (auto simp: validateInventoryParity_def Let_def parityErrors_Nil_iff split: if_splits)

section \<open>What a passing vulnerability verdict guarantees\<close>

lemma numericSeverity_Inr: "numericSeverity v = Inr x \<Longrightarrow> \<exists>r. x = Fin r \<and> 0 \<le> r \<and> r \<le> 10"
proof -
  assume "numericSeverity v = Inr x"
  then obtain y where "(case y of Fin r \<Rightarrow> if r < 0 \<or> r > 10 then contractE SeverityNumber else Inr y
       | _ \<Rightarrow> contractE SeverityNumber) = Inr x"
    unfolding numericSeverity_def by auto
  then show ?thesis by (cases y) (auto split: if_splits)
qed

lemma vulnerabilityThreshold_Inr: "vulnerabilityThreshold p = Inr t \<Longrightarrow> 0 < t \<and> t \<le> 7"
  by (auto simp: vulnerabilityThreshold_def split: jsval.splits jnum.splits if_splits)

lemma max_score_ge: "x \<in> set xs \<Longrightarrow> fin_val x \<le> max_score xs"
proof (cases xs)
  case (Cons y ys)
  have "\<forall>z \<in> insert b (set zs). z \<le> foldr max zs b" for b and zs :: "rat list"
    by (induction zs) auto
  then show "x \<in> set xs \<Longrightarrow> ?thesis" using Cons by (auto simp: max_score_def)
qed simp

lemma mapGroupId_fold:
  "foldR (mapGroupId known) m ids = Inr m' \<Longrightarrow> i \<in> set m' \<Longrightarrow> i \<in> set m \<or> JStr i \<in> set ids"
  by (induction ids arbitrary: m)
    (fastforce simp: mapGroupId_def canonicalVulnerabilityId_def split: if_splits)+

lemma scoreGroup_step:
  assumes "scoreGroup known st h = Inr st1"
  obtains ids r where "getp h ''ids'' = JArr ids"
    "numericSeverity (getp h ''max_severity'') = Inr (Fin r)"
    "foldR (mapGroupId known) (g_mapped st) ids = Inr (g_mapped st1)"
    "g_scores st1 = g_scores st @ [Fin r]"
proof -
  from assms obtain ids sc m where *: "getp h ''ids'' = JArr ids"
    "numericSeverity (getp h ''max_severity'') = Inr sc"
    "foldR (mapGroupId known) (g_mapped st) ids = Inr m"
    "st1 = \<lparr>g_mapped = m, g_scores = g_scores st @ [sc]\<rparr>"
    by (auto simp: scoreGroup_def split: if_splits)
  obtain r where "sc = Fin r" using numericSeverity_Inr[OF *(2)] by blast
  with * that show thesis by simp
qed

lemma scoreGroup_scores_mono:
  "foldR (scoreGroup known) st gs = Inr st' \<Longrightarrow> set (g_scores st) \<subseteq> set (g_scores st')"
proof (induction gs arbitrary: st)
  case (Cons h gs)
  then obtain st1 where st1: "scoreGroup known st h = Inr st1"
    and sub: "set (g_scores st1) \<subseteq> set (g_scores st')" by auto
  from st1 obtain r where "g_scores st1 = g_scores st @ [Fin r]" by (rule scoreGroup_step)
  with sub show ?case by auto
qed simp

lemma scoreGroup_scores:
  assumes "foldR (scoreGroup known) st gs = Inr st'" "g \<in> set gs"
  shows "\<exists>r. numericSeverity (getp g ''max_severity'') = Inr (Fin r) \<and> Fin r \<in> set (g_scores st')"
proof -
  obtain u v ys where *: "scoreGroup known u g = Inr v" "foldR (scoreGroup known) v ys = Inr st'"
    using foldR_step[OF assms] by blast
  from *(1) obtain r where "numericSeverity (getp g ''max_severity'') = Inr (Fin r)"
    "g_scores v = g_scores u @ [Fin r]" by (rule scoreGroup_step)
  with scoreGroup_scores_mono[OF *(2)] show ?thesis by auto
qed

lemma scoreGroup_mapped:
  "foldR (scoreGroup known) st gs = Inr st' \<Longrightarrow> i \<in> set (g_mapped st') \<Longrightarrow>
     i \<in> set (g_mapped st) \<or> (\<exists>g \<in> set gs. \<exists>xs. getp g ''ids'' = JArr xs \<and> JStr i \<in> set xs)"
proof (induction gs arbitrary: st)
  case (Cons h gs)
  then obtain st1 where st1: "scoreGroup known st h = Inr st1"
    and ih: "i \<in> set (g_mapped st1) \<or> (\<exists>g \<in> set gs. \<exists>xs. getp g ''ids'' = JArr xs \<and> JStr i \<in> set xs)"
    by auto
  from st1 obtain ids r where "getp h ''ids'' = JArr ids"
    "foldR (mapGroupId known) (g_mapped st) ids = Inr (g_mapped st1)"
    by (rule scoreGroup_step)
  with ih mapGroupId_fold[of known "g_mapped st" ids "g_mapped st1" i] show ?case by auto
qed simp

text \<open>Every severity group of the package is below the threshold and every listed vulnerability
  belongs to a group.\<close>

definition entry_below :: "rat \<Rightarrow> entry \<Rightarrow> bool" where
  "entry_below threshold e \<longleftrightarrow>
     (\<exists>ids groups. rawVulnerabilityIds e = Inr ids
        \<and> optionalArray (getp (e_item e) ''groups'') = Inr groups
        \<and> (\<forall>g \<in> set groups. \<exists>r. numericSeverity (getp g ''max_severity'') = Inr (Fin r)
              \<and> 0 \<le> r \<and> r < threshold)
        \<and> (\<forall>i \<in> set ids. \<exists>g \<in> set groups. \<exists>xs. getp g ''ids'' = JArr xs \<and> JStr i \<in> set xs))"

lemma validateVulnerabilityGroups_below:
  assumes "validateVulnerabilityGroups E e = Inr (scores, ids)"
    and "scores = [] \<or> max_score scores < threshold"
  shows "entry_below threshold e"
proof -
  from assms(1) obtain groups st where *: "rawVulnerabilityIds e = Inr ids"
    "optionalArray (getp (e_item e) ''groups'') = Inr groups"
    "foldR (scoreGroup ids) \<lparr>g_mapped = [], g_scores = []\<rparr> groups = Inr st"
    "scores = g_scores st" "filter (\<lambda>i. i \<notin> set (g_mapped st)) ids = []"
    by (auto simp: validateVulnerabilityGroups_def Let_def split: if_splits)
  have "\<exists>r. numericSeverity (getp g ''max_severity'') = Inr (Fin r) \<and> 0 \<le> r \<and> r < threshold"
    if g: "g \<in> set groups" for g
  proof -
    obtain r where r: "numericSeverity (getp g ''max_severity'') = Inr (Fin r)" "Fin r \<in> set scores"
      using scoreGroup_scores[OF *(3) g] *(4) by auto
    then have "r \<le> max_score scores" using max_score_ge[OF r(2)] by (simp add: fin_val_def)
    with assms(2) r numericSeverity_Inr[OF r(1)] show ?thesis by auto
  qed
  moreover have "\<exists>g \<in> set groups. \<exists>xs. getp g ''ids'' = JArr xs \<and> JStr i \<in> set xs" if "i \<in> set ids" for i
    using scoreGroup_mapped[OF *(3), of i] *(5) that by (auto simp: filter_empty_conv)
  ultimately show ?thesis using *(1,2) unfolding entry_below_def by blast
qed

lemma vulnerabilityEntry_mono:
  "foldR (vulnerabilityEntry E t) st es = Inr st' \<Longrightarrow> fst st' = [] \<Longrightarrow> fst st = []"
proof (induction es arbitrary: st)
  case (Cons e es)
  then obtain st1 where "vulnerabilityEntry E t st e = Inr st1" "fst st1 = []" by auto
  then show ?case by (auto simp: vulnerabilityEntry_def Let_def split: if_splits prod.splits)
qed simp

lemma vulnerabilityEntry_below:
  assumes "foldR (vulnerabilityEntry E t) st es = Inr ([], n)" "e \<in> set es"
  shows "entry_below t e"
proof -
  obtain u v ys where *: "vulnerabilityEntry E t u e = Inr v"
    "foldR (vulnerabilityEntry E t) v ys = Inr ([], n)"
    using foldR_step[OF assms] by blast
  have "fst v = []" using vulnerabilityEntry_mono[OF *(2)] by simp
  with *(1) obtain scores ids where "validateVulnerabilityGroups E e = Inr (scores, ids)"
    "\<not> (scores \<noteq> [] \<and> max_score scores \<ge> t)"
    by (auto simp: vulnerabilityEntry_def Let_def split: if_splits prod.splits)
  then show ?thesis by (intro validateVulnerabilityGroups_below) auto
qed

text \<open>C3: a vulnerability scan passes only if the scanned sources and, for each of them, the
  multiset of package keys are exactly the expected ones, and no severity group of any scanned
  package reaches the policy threshold, which is itself at most 7 and is 7 when no policy is given.\<close>

theorem osv_pass_is_sound:
  assumes "v_code (evaluateOsvVulnerabilities E doc rawExit x policy) = EXIT_PASS"
  shows "\<exists>threshold parsed results actual exps.
      vulnerabilityThreshold (default_policy policy) = Inr threshold \<and> 0 < threshold \<and> threshold \<le> 7
    \<and> parseDocument doc = Inr parsed \<and> getp parsed ''results'' = JArr results
    \<and> foldR scanSource [] results = Inr actual \<and> expectedInventory x = Inr exps
    \<and> same_inventory actual exps
    \<and> (\<forall>e \<in> set (concat (map snd actual)). entry_below threshold e)"
proof -
  have c: "scannerControlResult E (js ''OSV vulnerability scanner'') rawExit = None"
    using assms control_not_pass
    by (auto simp: evaluateOsvVulnerabilities_def split: option.splits)
  from assms obtain threshold parsed iv n where *:
    "vulnerabilityThreshold (default_policy policy) = Inr threshold" "parseDocument doc = Inr parsed"
    "validateInventoryParity E parsed x = Inr iv"
    "foldR (vulnerabilityEntry E threshold) ([], 0) (inv_entries iv) = Inr ([], n)"
    by (auto simp: evaluateOsvVulnerabilities_def c safely_pass finish_pass split: prod.splits)
  obtain results actual exps where p: "getp parsed ''results'' = JArr results"
    "expectedInventory x = Inr exps" "foldR scanSource [] results = Inr actual"
    "same_inventory actual exps" "inv_entries iv = concat (map snd actual)"
    using *(3) by (rule validateInventoryParity_Inr)
  show ?thesis
    using * p vulnerabilityThreshold_Inr[OF *(1)] vulnerabilityEntry_below[OF *(4)] by auto
qed

section \<open>What a passing licence verdict guarantees\<close>

text \<open>The package lists at least one licence, and every one of them is explicitly allowed and not
  one of the unknown markers.\<close>

definition licenses_allowed :: "jsenv \<Rightarrow> jstring list \<Rightarrow> entry \<Rightarrow> bool" where
  "licenses_allowed E allowed e \<longleftrightarrow>
     (\<exists>ls. licenseArray E e = Inr ls \<and> ls \<noteq> []
        \<and> (\<forall>l \<in> set ls. \<exists>s. l = JStr s \<and> s \<in> set allowed \<and> js_upper E s \<notin> set unknown_licenses))"

lemma licenseFindings_Nil:
  assumes "licenseFindings E allowed e ls = Inr []" "l \<in> set ls"
  shows "\<exists>s. l = JStr s \<and> s \<in> set allowed \<and> js_upper E s \<notin> set unknown_licenses"
proof -
  let ?f = "\<lambda>fs license. bindR (untrimmedString license) (\<lambda>normalized.
       let isUnknown = js_upper E normalized \<in> set unknown_licenses in
       if isUnknown \<or> normalized \<notin> set allowed
       then Inr (fs @ [LicenseFinding (e_source e) (e_identity e) normalized
                  (if isUnknown then js ''license is unknown''
                   else js ''license is not explicitly allowed'')])
       else Inr fs)"
  have mono: "foldR ?f fs xs = Inr [] \<Longrightarrow> fs = []" for fs xs
  proof (induction xs arbitrary: fs)
    case (Cons x xs)
    then obtain fs' where "?f fs x = Inr fs'" "fs' = []" by auto
    then show ?case by (auto simp: Let_def split: if_splits)
  qed simp
  from assms(1) have "foldR ?f [] ls = Inr []" by (simp add: licenseFindings_def)
  from foldR_step[OF this assms(2)] obtain u v ys where *: "?f u l = Inr v" "foldR ?f v ys = Inr []"
    by blast
  with mono[OF *(2)] show ?thesis by (auto simp: Let_def split: if_splits)
qed

lemma licenseEntry_mono:
  "foldR (licenseEntry E al) st es = Inr st' \<Longrightarrow> fst st' = [] \<Longrightarrow> fst st = []"
proof (induction es arbitrary: st)
  case (Cons e es)
  then obtain st1 where "licenseEntry E al st e = Inr st1" "fst st1 = []" by auto
  then show ?case by (auto simp: licenseEntry_def split: if_splits)
qed simp

lemma licenseEntry_allowed:
  assumes "foldR (licenseEntry E al) st es = Inr ([], n)" "e \<in> set es"
  shows "licenses_allowed E al e"
proof -
  obtain u v ys where *: "licenseEntry E al u e = Inr v" "foldR (licenseEntry E al) v ys = Inr ([], n)"
    using foldR_step[OF assms] by blast
  have "fst v = []" using licenseEntry_mono[OF *(2)] by simp
  with *(1) obtain ls where "licenseArray E e = Inr ls" "ls \<noteq> []" "licenseFindings E al e ls = Inr []"
    by (auto simp: licenseEntry_def split: if_splits)
  with licenseFindings_Nil show ?thesis unfolding licenses_allowed_def by blast
qed

lemma allowedSpdxSet_default: "allowedSpdxSet E (default_policy p) = Inr a \<longleftrightarrow> allowedSpdxSet E p = Inr a"
  by (auto simp: default_policy_def allowedSpdxSet_def getp_def requireRecord_def)

text \<open>C4: a licence scan passes only if the inventory matches and every scanned package has a
  nonempty list of licences, all of them on the policy's explicit list and none of them an
  unknown marker.\<close>

theorem license_pass_is_sound:
  assumes "v_code (evaluateOsvLicenses E doc rawExit x policy) = EXIT_PASS"
  shows "\<exists>allowed parsed results actual exps.
      allowedSpdxSet E policy = Inr allowed
    \<and> parseDocument doc = Inr parsed \<and> getp parsed ''results'' = JArr results
    \<and> foldR scanSource [] results = Inr actual \<and> expectedInventory x = Inr exps
    \<and> same_inventory actual exps
    \<and> (\<forall>e \<in> set (concat (map snd actual)). licenses_allowed E allowed e)"
proof -
  have c: "scannerControlResult E (js ''OSV license scanner'') rawExit = None"
    using assms control_not_pass by (auto simp: evaluateOsvLicenses_def split: option.splits)
  from assms obtain allowed parsed iv n where *:
    "allowedSpdxSet E policy = Inr allowed" "parseDocument doc = Inr parsed"
    "validateInventoryParity E parsed x = Inr iv"
    "foldR (licenseEntry E allowed) ([], 0) (inv_entries iv) = Inr ([], n)"
    by (auto simp: evaluateOsvLicenses_def c safely_pass finish_pass allowedSpdxSet_default split: prod.splits)
  obtain results actual exps where p: "getp parsed ''results'' = JArr results"
    "expectedInventory x = Inr exps" "foldR scanSource [] results = Inr actual"
    "same_inventory actual exps" "inv_entries iv = concat (map snd actual)"
    using *(3) by (rule validateInventoryParity_Inr)
  show ?thesis using * p licenseEntry_allowed[OF *(4)] by auto
qed

section \<open>What a passing database identity guarantees\<close>

lemma boundedDuration_Inr: "boundedDuration v m = Inr d \<Longrightarrow> 0 \<le> m \<Longrightarrow> 0 \<le> d \<and> d \<le> m"
  by (auto simp: boundedDuration_def le_floor_iff floor_le_iff split: if_splits jsval.splits jnum.splits)

lemma databaseFreshness_Inr:
  assumes "databaseFreshness E headers policy now = Inr (etag, generation, t)"
  shows "\<exists>nowMs. dateMilliseconds E now = Inr nowMs
     \<and> nowMs - of_int MAX_DATABASE_AGE_MS \<le> t \<and> t \<le> nowMs + of_int MAX_FUTURE_SKEW_MS"
proof -
  from assms obtain nowMs a f where *: "dateMilliseconds E now = Inr nowMs"
    "boundedDuration (getp policy ''maxAgeMs'') MAX_DATABASE_AGE_MS = Inr a"
    "boundedDuration (getp policy ''maxFutureSkewMs'') MAX_FUTURE_SKEW_MS = Inr f"
    "nowMs - of_int a \<le> t" "t \<le> nowMs + of_int f"
    by (auto simp: databaseFreshness_def not_less split: if_splits)
  have "a \<le> MAX_DATABASE_AGE_MS" "f \<le> MAX_FUTURE_SKEW_MS"
    using boundedDuration_Inr[OF *(2)] boundedDuration_Inr[OF *(3)]
    by (simp_all add: MAX_DATABASE_AGE_MS_def MAX_FUTURE_SKEW_MS_def)
  then have "(of_int a :: rat) \<le> of_int MAX_DATABASE_AGE_MS" "(of_int f :: rat) \<le> of_int MAX_FUTURE_SKEW_MS"
    by (simp_all only: of_int_le_iff)
  with * show ?thesis by auto
qed

text \<open>C5: an advisory database passes only if its recorded MD5 is the one in the storage header,
  its length is the one in the length header, and its last modification lies within 48 hours
  before and 10 minutes after the validation time, whatever shorter limits the policy sets.\<close>

theorem database_pass_is_fresh_and_bound:
  assumes "v_code (validateDatabaseIdentity E metadata policy now) = EXIT_PASS"
  shows "\<exists>headers nowMs i.
      getp (v_evidence (validateDatabaseIdentity E metadata policy now)) ''identity'' = identityRecord E i
    \<and> normalizeHeaders E (getp metadata ''headers'') = Inr headers
    \<and> gcsMd5Header E headers = Inr (base64_encode (hex_decode (db_md5 i)))
    \<and> bindR (requiredHeader headers [js ''contentlength'', js ''content-length'']) decimalHeader
        = Inr (db_contentLength i)
    \<and> dateMilliseconds E now = Inr nowMs
    \<and> nowMs - of_int MAX_DATABASE_AGE_MS \<le> db_lastModified i
    \<and> db_lastModified i \<le> nowMs + of_int MAX_FUTURE_SKEW_MS
    \<and> validatePinnedDatabaseIdentity i policy = Inr ()"
proof -
  from assms obtain flds headers i ev where
    h: "databaseFields E metadata policy = Inr flds" "normalizeHeaders E (getp metadata ''headers'') = Inr headers"
    and i: "databaseIdentity E policy now headers flds = Inr i"
    and ev: "v_evidence (validateDatabaseIdentity E metadata policy now) = ev"
      "getp ev ''identity'' = identityRecord E i"
    by (auto simp: validateDatabaseIdentity_def safely_pass safelyEvaluate_def getp_def exit_defs
        split: sum.splits prod.splits exn.splits)
  obtain eco fl sha md5 len where f: "flds = (eco, fl, sha, md5, len)" by (cases flds) auto
  from i[unfolded f] obtain hm hl etag gen t where *:
    "gcsMd5Header E headers = Inr hm"
    "bindR (requiredHeader headers [js ''contentlength'', js ''content-length'']) decimalHeader = Inr hl"
    "base64_encode (hex_decode md5) = hm" "len = hl"
    "databaseFreshness E headers policy now = Inr (etag, gen, t)"
    "i = \<lparr>db_contentLength = len, db_ecosystem = eco, db_etag = etag, db_file = fl,
          db_generation = gen, db_lastModified = t, db_md5 = md5, db_sha256 = sha\<rparr>"
    "validatePinnedDatabaseIdentity i policy = Inr ()"
    by (auto simp: databaseIdentity_def Let_def split: if_splits prod.splits)
  have "hm = base64_encode (hex_decode (db_md5 i))" "hl = db_contentLength i" "t = db_lastModified i"
    using * by simp_all
  with databaseFreshness_Inr[OF *(5)] h ev *(1,2,7) show ?thesis
    by (intro exI[of _ headers]) auto
qed

section \<open>Semgrep\<close>

lemma languagePolicy_Inr:
  "languagePolicy E l = Inr ls \<Longrightarrow> js ''go'' \<in> fst ` set ls \<and> js ''javascript-typescript'' \<in> fst ` set ls"
  by (auto simp: languagePolicy_def split: if_splits)

text \<open>C6: Semgrep with a numeric exit code passes only if the exit code is 0, the report lists no
  error and no result, and for every required language, Go and JavaScript/TypeScript among them,
  at least one scanned path has one of its extensions.\<close>

theorem semgrep_pass_is_sound:
  assumes "v_code (evaluateSemgrep E doc (JNum x) requiredLanguages) = EXIT_PASS"
  shows "\<exists>parsed scanned languages.
      x = Fin 0 \<and> parseDocument doc = Inr parsed
    \<and> getp parsed ''errors'' = JArr [] \<and> getp parsed ''results'' = JArr []
    \<and> bindR (requiredArray (getp (getp parsed ''paths'') ''scanned'')) (mapR requiredNonemptyString) = Inr scanned
    \<and> languagePolicy E requiredLanguages = Inr languages
    \<and> js ''go'' \<in> fst ` set languages \<and> js ''javascript-typescript'' \<in> fst ` set languages
    \<and> (\<forall>l \<in> set languages. 0 < coverageCount E scanned (snd l))"
proof -
  have c: "scannerControlResult E (js ''Semgrep'') (JNum x) = None"
    using assms control_not_pass by (auto simp: evaluateSemgrep_def split: option.splits)
  from control_None[OF c] have x: "x = Fin 0 \<or> x = Fin 1" by (simp add: scannerRawExitCode_def)
  from assms obtain parsed findings scanned languages coverage where *:
    "parseDocument doc = Inr parsed" "getp parsed ''errors'' = JArr []"
    "getp parsed ''results'' = JArr findings"
    "bindR (requiredArray (getp (getp parsed ''paths'') ''scanned'')) (mapR requiredNonemptyString) = Inr scanned"
    "languagePolicy E requiredLanguages = Inr languages"
    "mapR (\<lambda>(language, extensions).
        let n = coverageCount E scanned extensions in
        if n = 0 then contractE (ZeroCoverage language) else Inr (language, n)) languages = Inr coverage"
    "mapR semgrepFinding findings = Inr []" "x \<noteq> Fin 1"
    by (auto simp: evaluateSemgrep_def c safely_pass finish_pass simp del: requiredArray_Inr
        split: if_splits) (auto simp: requiredArray_def split: jsval.splits)
  have "findings = []" using mapR_Inr_length[OF *(7)] by simp
  moreover have "0 < coverageCount E scanned (snd l)" if l: "l \<in> set languages" for l
    using mapR_Inr_set'[OF *(6) l] by (auto simp: Let_def split: prod.splits if_splits)
  ultimately show ?thesis using x *(1-5,8) languagePolicy_Inr[OF *(5)] by auto
qed

text \<open>given as an object, the exit code is not compared with the findings.  When the raw exit
  is passed in the \<^verbatim>\<open>{code: ...}\<close> form that the control check also accepts, Semgrep's exit code 1
  is treated exactly like 0, so an exit code that reports findings can end in a pass.\<close>

theorem semgrep_object_exit_is_unchecked:
  "evaluateSemgrep E doc (JObj [(js ''code'', JNum (Fin 1))]) requiredLanguages
   = evaluateSemgrep E doc (JObj [(js ''code'', JNum (Fin 0))]) requiredLanguages"
proof -
  have "scannerControlResult E (js ''Semgrep'') (JObj [(js ''code'', JNum (Fin r))]) = None"
    if "r = 0 \<or> r = 1" for r
    using that by (auto simp: scannerControlResult_def getp_def is_integer_def is_integral_def)
  then show ?thesis by (simp add: evaluateSemgrep_def scannerRawExitCode_def cong: if_cong)
qed

text \<open>C7: the counting maps of the inventory comparison refine multisets: it reports no error exactly
  when both sides have the same sources and, source by source, the same multiset of package keys.\<close>

theorem inventory_parity_refines_multisets:
  "parityErrors actual exps = [] \<longleftrightarrow> same_inventory actual exps"
  by (rule parityErrors_Nil_iff)

text \<open>package keys do not separate all identities: two different packages, one whose name
  ends in what the other has at the start of its version, have the same key, so parity on keys
  accepts one in place of the other.\<close>

theorem package_key_not_injective:
  "\<exists>i j. i \<noteq> j \<and> packageIdentityKey i = packageIdentityKey j
     \<and> scope i = scope j \<and> ecosystem i = ecosystem j"
proof -
  have "packageIdentityKey (Identity (js ''npm'') (js ''a@1'') (js ''peer'') (js ''2''))
      = packageIdentityKey (Identity (js ''npm'') (js ''a'') (js ''peer'') (js ''1@2''))"
    by (simp add: packageIdentityKey_def js_def)
  then show ?thesis
    by (intro exI[of _ "Identity (js ''npm'') (js ''a@1'') (js ''peer'') (js ''2'')"]
        exI[of _ "Identity (js ''npm'') (js ''a'') (js ''peer'') (js ''1@2'')"]) simp
qed

section \<open>Concrete runs\<close>

text \<open>Scanner evidence on which every evaluator passes, evaluated step by step.\<close>

definition sample_osv :: jstring where
  "sample_osv = js ''{\"results\":[{\"source\":{\"path\":\"a\"},\"packages\":[{\"package\":{\"name\":\"n\",\"version\":\"1\",\"ecosystem\":\"npm\"},\"licenses\":[\"MIT\"]}]}]}''"
definition sample_package :: jsval where
 "sample_package = JObj [(js ''name'', JStr (js ''n'')), (js ''version'', JStr (js ''1'')), (js ''ecosystem'', JStr (js ''npm''))]"
definition sample_doc :: jsval where
 "sample_doc = JObj [(js ''results'', JArr [JObj [(js ''source'', JObj [(js ''path'', JStr (js ''a''))]),
    (js ''packages'', JArr [JObj [(js ''package'', sample_package), (js ''licenses'', JArr [JStr (js ''MIT'')])]])]])]"
definition sample_expected :: expected where
 "sample_expected = ExpVal (JObj [(js ''a'', JArr [sample_package])])"
definition sample_semgrep :: jstring where
  "sample_semgrep = js ''{\"errors\":[],\"results\":[],\"paths\":{\"scanned\":[\"a.go\",\"b.ts\"]}}''"
definition sample_semgrep_doc :: jsval where
 "sample_semgrep_doc = JObj [(js ''errors'', JArr []), (js ''results'', JArr []), (js ''paths'', JObj [(js ''scanned'', JArr [JStr (js ''a.go''), JStr (js ''b.ts'')])])]"
definition sample_metadata :: jsval where
 "sample_metadata = JObj [(js ''ecosystem'', JStr (js ''npm'')), (js ''file'', JStr (js ''f'')),
    (js ''sha256'', JStr (replicate 64 48)), (js ''md5'', JStr (replicate 32 48)), (js ''contentLength'', JNum (Fin 5)),
    (js ''headers'', JObj [(js ''x-goog-hash'', JStr (js ''md5=AAAAAAAAAAAAAAAAAAAAAA=='')), (js ''content-length'', JStr (js ''5'')),
       (js ''last-modified'', JStr (js ''7'')), (js ''x-generation'', JStr (js ''1'')), (js ''etag'', JStr (js ''e''))])]"
definition sample_database_policy :: jsval where
 "sample_database_policy = JObj [(js ''requireSha256Evidence'', JBool True), (js ''ecosystem'', JStr (js ''npm''))]"

lemma sample_osv_text: "parseDocument (DocText sample_osv) = Inr sample_doc"
proof -
  have "trim sample_osv \<noteq> []" by (rule trim_not_Nil) (simp_all add: sample_osv_def js_def is_ws_def)
  moreover have "parse_text sample_osv = Inr sample_doc" by code_simp
  ultimately show ?thesis by (simp add: parseDocument_def parseStrictJson_def)
qed
lemma sample_semgrep_text: "parseDocument (DocText sample_semgrep) = Inr sample_semgrep_doc"
proof -
  have "trim sample_semgrep \<noteq> []" by (rule trim_not_Nil) (simp_all add: sample_semgrep_def js_def is_ws_def)
  moreover have "parse_text sample_semgrep = Inr sample_semgrep_doc" by code_simp
  ultimately show ?thesis by (simp add: parseDocument_def parseStrictJson_def)
qed

lemmas sample_eval = scannerControlResult_def is_integer_def is_integral_def requireRecord_def coalesce_def getp_def nullish_def
    validateInventoryParity_def sample_doc_def sample_package_def requiredArray_def expectedInventory_def sample_expected_def sourcePath_def requiredNonemptyString_def packageIdentity_def untrimmedString_def allowed_scopes_def scanSource_def
    parityErrors_def uniq_def compareMultisets_def multiset_def tally_def
   canonicalText_def inventoryDocument_def identityJson_def rawVulnerabilityIds_def optionalArray_def assertRawFindingConsistency_def scannerRawExitCode_def finish_def safelyEvaluate_def

lemma sample_trims: "trim (js ''a'') = js ''a''" "trim (js ''n'') = js ''n''" "trim (js ''1'') = js ''1''" "trim (js ''npm'') = js ''npm''" "trim (js ''unknown'') = js ''unknown''" 
   "trim (js ''MIT'') = js ''MIT''" "trim (js ''f'') = js ''f''" "trim (js ''5'') = js ''5''" "trim (js ''7'') = js ''7''" "trim (js ''e'') = js ''e''"
   "trim (js ''a.go'') = js ''a.go''" "trim (js ''b.ts'') = js ''b.ts''"
   "0 \<notin> set (js ''a'')"
  by (simp_all add: trim_printable js_def)

lemma sample_case: "ascii_upper (js ''MIT'') = js ''MIT''"
  "ascii_lower (js ''go'') = js ''go''" "ascii_lower (js ''ts'') = js ''ts''" "ascii_lower (js ''.go'') = js ''.go''" "ascii_lower (js ''.ts'') = js ''.ts''"
  "ascii_lower (js ''etag'') = js ''etag''" "ascii_lower (js ''x-generation'') = js ''x-generation''"
  "ascii_lower (js ''last-modified'') = js ''last-modified''" "ascii_lower (js ''content-length'') = js ''content-length''"
  "ascii_lower (js ''x-goog-hash'') = js ''x-goog-hash''" "ascii_lower (js ''md5'') = js ''md5''"
  by (simp_all add: ascii_upper_def ascii_lower_def js_def is_lower_def is_upper_def)


lemma sample_extname: "extname (js ''a.go'') = js ''.go''" "extname (js ''b.ts'') = js ''.ts''"
  by code_simp+
lemma sample_languages: "languagePolicy sample_env (JObj [(js ''go'', JArr [JStr (js ''.go'')]), (js ''ts'', JArr [JStr (js ''.ts'')])])
   = Inr [(js ''go'', [js ''.go'']), (js ''javascript-typescript'', [js ''.ts''])]"
proof -
  have "trim (js ''go'') = js ''go''" "trim (js ''ts'') = js ''ts''" "trim (js ''.go'') = js ''.go''" "trim (js ''.ts'') = js ''.ts''" 
   by (simp_all add: trim_printable js_def)
  moreover have "js ''go'' \<le> js ''javascript-typescript''" by code_simp
  moreover have "extension_pattern (js ''.go'')" "extension_pattern (js ''.ts'')" by code_simp+
  ultimately show ?thesis
   by (simp add: languagePolicy_def languageEntry_def canonicalLanguage_def sample_env_simps sample_case requiredNonemptyString_def put_def)
qed

lemma sample_headers: "normalizeHeaders sample_env (getp sample_metadata ''headers'') = Inr
    [(js ''x-goog-hash'', js ''md5=AAAAAAAAAAAAAAAAAAAAAA==''), (js ''content-length'', js ''5''),
     (js ''last-modified'', js ''7''), (js ''x-generation'', js ''1''), (js ''etag'', js ''e'')]"
proof -
  have "trim (js ''x-goog-hash'') = js ''x-goog-hash''" "trim (js ''content-length'') = js ''content-length''" 
    "trim (js ''last-modified'') = js ''last-modified''" "trim (js ''x-generation'') = js ''x-generation''"
    "trim (js ''etag'') = js ''etag''" "trim (js ''md5=AAAAAAAAAAAAAAAAAAAAAA=='') = js ''md5=AAAAAAAAAAAAAAAAAAAAAA==''" 
   by (simp_all add: trim_printable js_def)
  then show ?thesis
    by (simp add: sample_metadata_def getp_def normalizeHeaders_def requiredNonemptyString_def sample_trims sample_env_simps sample_case put_def)
qed
lemma sample_md5: "gcsMd5Header sample_env [(js ''x-goog-hash'', js ''md5=AAAAAAAAAAAAAAAAAAAAAA==''), (js ''content-length'', js ''5''),
     (js ''last-modified'', js ''7''), (js ''x-generation'', js ''1''), (js ''etag'', js ''e'')] = Inr (js ''AAAAAAAAAAAAAAAAAAAAAA=='')"
proof -
  have t: "trim (js ''md5=AAAAAAAAAAAAAAAAAAAAAA=='') = js ''md5=AAAAAAAAAAAAAAAAAAAAAA==''" "trim (js ''md5'') = js ''md5''" "trim (js ''AAAAAAAAAAAAAAAAAAAAAA=='') = js ''AAAAAAAAAAAAAAAAAAAAAA==''" 
   by (simp_all add: trim_printable js_def)
  have s: "split_on 44 (js ''md5=AAAAAAAAAAAAAAAAAAAAAA=='') = [js ''md5=AAAAAAAAAAAAAAAAAAAAAA=='']" "index_of 61 (js ''md5=AAAAAAAAAAAAAAAAAAAAAA=='') = Some 3"
     "take 3 (js ''md5=AAAAAAAAAAAAAAAAAAAAAA=='') = js ''md5''" "drop 4 (js ''md5=AAAAAAAAAAAAAAAAAAAAAA=='') = js ''AAAAAAAAAAAAAAAAAAAAAA==''"
     "base64_decode (js ''AAAAAAAAAAAAAAAAAAAAAA=='') = replicate 16 0" "base64_encode (replicate 16 0) = js ''AAAAAAAAAAAAAAAAAAAAAA==''" by code_simp+
  show ?thesis
    by (simp add: gcsMd5Header_def requiredHeader_def hashPart_def map_filter_simps uniq_def requiredNonemptyString_def t s sample_env_simps sample_case)
qed
lemma sample_fields: "databaseFields sample_env sample_metadata sample_database_policy = Inr (js ''npm'', js ''f'', replicate 64 48, replicate 32 48, 5)"
proof -
  have "trim (replicate 64 48) = replicate 64 48" "trim (replicate 32 48) = replicate 32 48" 
   by (simp_all add: trim_printable)
  moreover have "is_safe_integer (Fin 5)" by (simp add: is_safe_integer_def is_integral_def max_safe_def)
  moreover have "ascii_lower (replicate n 48) = replicate n 48" for n by (simp add: ascii_lower_def is_upper_def)
  moreover have "list_all is_hex (replicate n 48)" for n by (simp add: list_all_iff is_hex_def is_lower_hex_def is_digit_def)
  ultimately show ?thesis 
    by (simp add: databaseFields_def sample_metadata_def sample_database_policy_def getp_def databaseEcosystems_def coalesce_def nullish_def requiredNonemptyString_def sample_trims
       digestField_def positiveInteger_def sample_env_simps)
qed
lemma sample_len: "digits_value (js ''5'') = 5" "foldl (\<lambda>a c. 10 * a + (c - 48)) 0 (js ''7'') = 7" "list_all is_digit (js ''5'')" "hex_decode (replicate 32 48) = replicate 16 0" "base64_encode (replicate 16 0) = js ''AAAAAAAAAAAAAAAAAAAAAA==''" 
  by code_simp+

lemma canonicalText_record:
  assumes "\<And>f. f \<in> set fs \<Longrightarrow> \<exists>t. canonicalJson E (snd f) = Inr t"
  shows "\<exists>t. canonicalText E (JObj fs) = Inr t"
proof -
  have *: "\<exists>ts. mapR (\<lambda>f. bindR (canonicalJson E (snd f)) (\<lambda>t. Inr (quote (fst f) @ [58] @ t))) gs = Inr ts"
    if "set gs \<subseteq> set fs" for gs
    using that assms by (induction gs) auto
  from *[of "sort_key fst fs"] obtain ts where
    "mapR (\<lambda>f. bindR (canonicalJson E (snd f)) (\<lambda>t. Inr (quote (fst f) @ [58] @ t)))
      (sort_key fst fs) = Inr ts" by auto
  then show ?thesis by (simp add: canonicalText_def)
qed

lemma identityRecord_text: "\<exists>t. canonicalText E (identityRecord E i) = Inr t"
  unfolding identityRecord_def by (rule canonicalText_record) (auto simp: is_finite_def)

definition sample_header_list :: "(jstring \<times> jstring) list" where
  "sample_header_list = [(js ''x-goog-hash'', js ''md5=AAAAAAAAAAAAAAAAAAAAAA==''), (js ''content-length'', js ''5''),
     (js ''last-modified'', js ''7''), (js ''x-generation'', js ''1''), (js ''etag'', js ''e'')]"

lemma sample_policy_get: 
    "k \<in> {''maxAgeMs'', ''maxFutureSkewMs'', ''expectedSha256'', ''expectedMd5'', ''expectedContentLength'',
       ''expectedGeneration'', ''expectedEtag''} \<Longrightarrow> getp sample_database_policy k = JUndef"
    by (auto simp: sample_database_policy_def getp_def)
lemma sample_fresh: "databaseFreshness sample_env sample_header_list sample_database_policy (MDate (Fin 100))
   = Inr (js ''e'', js ''1'', 7)"
  by (simp add: databaseFreshness_def sample_header_list_def requiredHeader_def map_filter_simps uniq_def requiredNonemptyString_def sample_trims
      sample_len sample_env_simps dateMilliseconds_def boundedDuration_def sample_policy_get MAX_DATABASE_AGE_MS_def MAX_FUTURE_SKEW_MS_def)

lemma sample_identity: "\<exists>i. databaseIdentity sample_env sample_database_policy (MDate (Fin 100)) sample_header_list
     (js ''npm'', js ''f'', replicate 64 48, replicate 32 48, 5) = Inr i"
proof -
  have "to_double 5 = Fin 5" using to_double_int[of 5] by simp
  moreover have "is_safe_integer (Fin 5)" by (simp add: is_safe_integer_def is_integral_def max_safe_def)
  ultimately have "bindR (requiredHeader sample_header_list [js ''contentlength'', js ''content-length'']) decimalHeader = Inr 5" 
   by (simp add: sample_header_list_def requiredHeader_def map_filter_simps uniq_def requiredNonemptyString_def sample_trims decimalHeader_def sample_len positiveInteger_def)
  then show ?thesis
    unfolding databaseIdentity_def sample_fresh sample_header_list_def[symmetric] sample_md5[folded sample_header_list_def] 
    by (simp add: sample_len Let_def validatePinnedDatabaseIdentity_def sample_policy_get del: bindR_eq_Inr)
qed

theorem osv_pass_is_sound_witness:
  "\<exists>threshold parsed results actual exps.
      vulnerabilityThreshold (default_policy (JObj [])) = Inr threshold \<and> 0 < threshold \<and> threshold \<le> 7
    \<and> parseDocument (DocText sample_osv) = Inr parsed \<and> getp parsed ''results'' = JArr results
    \<and> foldR scanSource [] results = Inr actual \<and> expectedInventory sample_expected = Inr exps
    \<and> same_inventory actual exps
    \<and> (\<forall>e \<in> set (concat (map snd actual)). entry_below threshold e)"
proof (rule osv_pass_is_sound)
  show "v_code (evaluateOsvVulnerabilities sample_env (DocText sample_osv) (JNum (Fin 0))
   sample_expected (JObj [])) = EXIT_PASS"
  by (simp add: evaluateOsvVulnerabilities_def sample_eval sample_trims sample_osv_text vulnerabilityThreshold_def default_policy_def
    vulnerabilityEntry_def validateVulnerabilityGroups_def)
qed

theorem license_pass_is_sound_witness:
  "\<exists>allowed parsed results actual exps.
      allowedSpdxSet sample_env (JObj [(js ''allowedSpdx'', JArr [JStr (js ''MIT'')])]) = Inr allowed
    \<and> parseDocument (DocText sample_osv) = Inr parsed \<and> getp parsed ''results'' = JArr results
    \<and> foldR scanSource [] results = Inr actual \<and> expectedInventory sample_expected = Inr exps
    \<and> same_inventory actual exps
    \<and> (\<forall>e \<in> set (concat (map snd actual)). licenses_allowed sample_env allowed e)"
proof (rule license_pass_is_sound)
  show "v_code (evaluateOsvLicenses sample_env (DocText sample_osv) (JNum (Fin 0))
     sample_expected (JObj [(js ''allowedSpdx'', JArr [JStr (js ''MIT'')])])) = EXIT_PASS"
    by (simp add: evaluateOsvLicenses_def sample_eval sample_trims sample_osv_text default_policy_def allowedSpdxSet_def licenseEntry_def licenseArray_def licenseFindings_def unknown_licenses_def sample_env_simps sample_case)
qed

theorem semgrep_pass_is_sound_witness:
  "\<exists>parsed scanned languages.
      Fin 0 = Fin 0 \<and> parseDocument (DocText sample_semgrep) = Inr parsed
    \<and> getp parsed ''errors'' = JArr [] \<and> getp parsed ''results'' = JArr []
    \<and> bindR (requiredArray (getp (getp parsed ''paths'') ''scanned'')) (mapR requiredNonemptyString) = Inr scanned
    \<and> languagePolicy sample_env
         (JObj [(js ''go'', JArr [JStr (js ''.go'')]), (js ''ts'', JArr [JStr (js ''.ts'')])]) = Inr languages
    \<and> js ''go'' \<in> fst ` set languages \<and> js ''javascript-typescript'' \<in> fst ` set languages
    \<and> (\<forall>l \<in> set languages. 0 < coverageCount sample_env scanned (snd l))"
proof (rule semgrep_pass_is_sound)
  show "v_code (evaluateSemgrep sample_env (DocText sample_semgrep) (JNum (Fin 0))
      (JObj [(js ''go'', JArr [JStr (js ''.go'')]), (js ''ts'', JArr [JStr (js ''.ts'')])])) = EXIT_PASS"
    by (simp add: evaluateSemgrep_def sample_eval sample_semgrep_doc_def sample_trims sample_semgrep_text sample_languages coverageCount_def sample_extname sample_env_simps sample_case)
qed

theorem database_pass_is_fresh_and_bound_witness:
  "\<exists>headers nowMs i.
      getp (v_evidence (validateDatabaseIdentity sample_env sample_metadata sample_database_policy (MDate (Fin 100)))) ''identity''
        = identityRecord sample_env i
    \<and> normalizeHeaders sample_env (getp sample_metadata ''headers'') = Inr headers
    \<and> gcsMd5Header sample_env headers = Inr (base64_encode (hex_decode (db_md5 i)))
    \<and> bindR (requiredHeader headers [js ''contentlength'', js ''content-length'']) decimalHeader
        = Inr (db_contentLength i)
    \<and> dateMilliseconds sample_env (MDate (Fin 100)) = Inr nowMs
    \<and> nowMs - of_int MAX_DATABASE_AGE_MS \<le> db_lastModified i
    \<and> db_lastModified i \<le> nowMs + of_int MAX_FUTURE_SKEW_MS
    \<and> validatePinnedDatabaseIdentity i sample_database_policy = Inr ()"
proof (rule database_pass_is_fresh_and_bound)
  show "v_code (validateDatabaseIdentity sample_env sample_metadata sample_database_policy (MDate (Fin 100))) = EXIT_PASS"
  proof -
    obtain i where "databaseIdentity sample_env sample_database_policy (MDate (Fin 100)) sample_header_list
       (js ''npm'', js ''f'', replicate 64 48, replicate 32 48, 5) = Inr i" using sample_identity by blast
    moreover obtain t where "canonicalText sample_env (identityRecord sample_env i) = Inr t" using identityRecord_text by blast
    ultimately show ?thesis
     by (simp add: validateDatabaseIdentity_def sample_fields sample_headers sample_header_list_def[symmetric] safelyEvaluate_def)
  qed
qed

end
