(* ===== verification/Verdict_Gate.thy ===== *)
theory Verdict_Gate
  imports Policy_Props
begin

text \<open>
  How \<^verbatim>\<open>src/scripts/supply-chain/run.mjs\<close> consumes a verdict and a raw scanner result:
  \<^verbatim>\<open>requireRawExit\<close> and \<^verbatim>\<open>requireVerdict\<close>.  The interface between the two is the locale
  \<open>policy_gate\<close>: what the caller may rely on is only that every verdict is well formed, and each
  of the four evaluators is shown to provide it.  The failure keeps its exit code and its stage;
  the text of the message is not kept.
\<close>

section \<open>The consumer\<close>

datatype gate_failure = GateFailure (gf_code: nat) (gf_stage: jstring)

definition requireRawExit :: "jsval \<Rightarrow> jsval list \<Rightarrow> gate_failure + jsval" where
  "requireRawExit r accepted =
     (case getp r ''exitCode'' of
        JNum x \<Rightarrow>
          if \<not> is_integer x \<or> JNum x \<notin> set accepted
          then Inl (GateFailure EXIT_INTERNAL (js ''scanner-exit-contract'')) else Inr r
      | _ \<Rightarrow> Inl (GateFailure EXIT_INTERNAL (js ''scanner-exit-contract'')))"

text \<open>The verdict of the evaluators always has an integer code, so the fallback to the internal
  code does not arise.\<close>

definition requireVerdict :: "verdict \<Rightarrow> gate_failure + verdict" where
  "requireVerdict v =
     (if v_code v = EXIT_PASS then Inr v else Inl (GateFailure (v_code v) (js ''policy-verdict'')))"

section \<open>The interface\<close>

locale policy_gate =
  fixes evaluate :: "'i \<Rightarrow> verdict"
  assumes well_formed: "verdict_ok (evaluate i)"
begin

lemma accepted:
  "requireVerdict (evaluate i) = Inr v \<Longrightarrow>
     v = evaluate i \<and> v_status v = js ''PASS'' \<and> v_findings v = [] \<and> v_errors v = []"
  using well_formed[of i]
  by (auto simp: requireVerdict_def verdict_ok_def status_of_def split: if_splits)

lemma refused:
  "requireVerdict (evaluate i) = Inl f \<Longrightarrow>
     gf_stage f = js ''policy-verdict'' \<and> gf_code f = v_code (evaluate i)
     \<and> \<not> (v_findings (evaluate i) = [] \<and> v_errors (evaluate i) = [])
     \<and> gf_code f \<in> {EXIT_FINDING, EXIT_CONTRACT, EXIT_INTERNAL, EXIT_ACQUISITION}
     \<and> (gf_code f = EXIT_FINDING \<longleftrightarrow> v_findings (evaluate i) \<noteq> [])"
  using well_formed[of i]
  by (auto simp: requireVerdict_def verdict_ok_def exit_defs split: if_splits)

lemma decided:
  "case requireVerdict (evaluate i) of
     Inr v \<Rightarrow> v = evaluate i \<and> v_status v = js ''PASS'' \<and> v_findings v = [] \<and> v_errors v = []
   | Inl f \<Rightarrow> gf_stage f = js ''policy-verdict'' \<and> gf_code f = v_code (evaluate i)
       \<and> \<not> (v_findings (evaluate i) = [] \<and> v_errors (evaluate i) = [])
       \<and> gf_code f \<in> {EXIT_FINDING, EXIT_CONTRACT, EXIT_INTERNAL, EXIT_ACQUISITION}
       \<and> (gf_code f = EXIT_FINDING \<longleftrightarrow> v_findings (evaluate i) \<noteq> [])"
  using accepted[of i] refused[of i] by (auto split: sum.split)

end

interpretation osv_gate: policy_gate "\<lambda>(E, d, r, x, p). evaluateOsvVulnerabilities E d r x p"
  by unfold_locales (auto simp: osv_vulnerabilities_ok)

interpretation license_gate: policy_gate "\<lambda>(E, d, r, x, p). evaluateOsvLicenses E d r x p"
  by unfold_locales (auto simp: osv_licenses_ok)

interpretation semgrep_gate: policy_gate "\<lambda>(E, d, r, l). evaluateSemgrep E d r l"
  by unfold_locales (auto simp: semgrep_ok)

interpretation database_gate: policy_gate "\<lambda>(E, m, p, n). validateDatabaseIdentity E m p n"
  by unfold_locales (auto simp: database_ok)

section \<open>Properties\<close>

text \<open>C8: every verdict of the four evaluators is well formed: its status names its exit code, a
  pass has no finding and no error, a finding verdict has findings and no error, and every other
  verdict has one of the three failure codes, an error and no finding.\<close>

theorem every_verdict_is_well_formed:
  "verdict_ok (evaluateOsvVulnerabilities E d r x p) \<and> verdict_ok (evaluateOsvLicenses E d r x p)
   \<and> verdict_ok (evaluateSemgrep E d r l) \<and> verdict_ok (validateDatabaseIdentity E m q n)"
  by (simp add: osv_vulnerabilities_ok osv_licenses_ok semgrep_ok database_ok)

text \<open>C9: the run goes on after a vulnerability scan exactly when the verdict has no finding and no
  error, and then with that verdict unchanged and its status \<^verbatim>\<open>PASS\<close>; otherwise it stops in the stage
  \<^verbatim>\<open>policy-verdict\<close> with the verdict's own code, one of the four failure codes, and with the finding code
  exactly when there are findings.\<close>

theorem vulnerability_gate_is_decisive:
  "case requireVerdict (evaluateOsvVulnerabilities E d r x p) of
     Inr v \<Rightarrow> v = evaluateOsvVulnerabilities E d r x p \<and> v_status v = js ''PASS''
       \<and> v_findings v = [] \<and> v_errors v = []
   | Inl f \<Rightarrow> gf_stage f = js ''policy-verdict'' \<and> gf_code f = v_code (evaluateOsvVulnerabilities E d r x p)
       \<and> \<not> (v_findings (evaluateOsvVulnerabilities E d r x p) = []
            \<and> v_errors (evaluateOsvVulnerabilities E d r x p) = [])
       \<and> gf_code f \<in> {EXIT_FINDING, EXIT_CONTRACT, EXIT_INTERNAL, EXIT_ACQUISITION}
       \<and> (gf_code f = EXIT_FINDING \<longleftrightarrow> v_findings (evaluateOsvVulnerabilities E d r x p) \<noteq> [])"
  using osv_gate.decided[of "(E, d, r, x, p)"] by (simp only: prod.case)

end
