(* ===== verification/Inventory.thy ===== *)
theory Inventory
  imports Strict_Json
begin

text \<open>
  The lockfile and OSV inventories of \<^verbatim>\<open>src/scripts/supply-chain/inventory.mjs\<close>: the pnpm lockfile
  reader (document splitting, top-level sections, the packages section, the importers section
  and the YAML subset of mapping entries), the package-key grammar and the parity check between
  expected sources and an OSV result.

  An \<^verbatim>\<open>InventoryContractError\<close> is its code; the detail text (which names the context and the line)
  is not kept, so the maps from a key to the line that declared it are lists of keys.  Loops with
  an index over a line array are folds over that part of the array.
\<close>

section \<open>Package keys\<close>

type_synonym inv_error = string

definition PACKAGE_PART_PATTERN :: "jstring \<Rightarrow> bool" where
  "PACKAGE_PART_PATTERN s \<longleftrightarrow>
     s \<noteq> [] \<and> list_all (\<lambda>c. is_alnum c \<or> c = 46 \<or> c = 95 \<or> c = 126 \<or> c = 45) s"

text \<open>\<^verbatim>\<open>[0-9A-Za-z.-]+\<close> up to the end of the text.\<close>

definition identifiers_ok :: "jstring \<Rightarrow> bool" where
  "identifiers_ok s \<longleftrightarrow> s \<noteq> [] \<and> list_all (\<lambda>c. is_alnum c \<or> c = 46 \<or> c = 45) s"

text \<open>\<^verbatim>\<open>[0-9]+\<close> followed by a literal dot; the rest behind the dot.\<close>

definition number_dot :: "jstring \<Rightarrow> jstring option" where
  "number_dot s =
     (if takeWhile is_digit s = [] then None
      else case dropWhile is_digit s of
        c # r \<Rightarrow> if c = 46 then Some r else None
      | [] \<Rightarrow> None)"

text \<open>The optional pre-release and build parts; the pre-release class does not contain the plus
  sign, so the longest match is the only one that can be extended.\<close>

definition suffix_ok :: "jstring \<Rightarrow> bool" where
  "suffix_ok s \<longleftrightarrow>
     (case s of
        [] \<Rightarrow> True
      | c # r \<Rightarrow>
          if c = 43 then identifiers_ok r
          else if c = 45 then
            (let p = takeWhile (\<lambda>x. x \<noteq> 43) r; q = dropWhile (\<lambda>x. x \<noteq> 43) r
             in identifiers_ok p \<and> (q = [] \<or> identifiers_ok (tl q)))
          else False)"

definition SEMVER_LIKE_PATTERN :: "jstring \<Rightarrow> bool" where
  "SEMVER_LIKE_PATTERN s \<longleftrightarrow>
     (case number_dot s of
        None \<Rightarrow> False
      | Some s1 \<Rightarrow>
          (case number_dot s1 of
             None \<Rightarrow> False
           | Some s2 \<Rightarrow> takeWhile is_digit s2 \<noteq> [] \<and> suffix_ok (dropWhile is_digit s2)))"

text \<open>\<^verbatim>\<open>s.indexOf(c, i)\<close>\<close>

definition index_from :: "nat \<Rightarrow> nat \<Rightarrow> jstring \<Rightarrow> nat option" where
  "index_from c i s = map_option (\<lambda>k. i + k) (index_of c (drop i s))"

definition packageDelimiterIndex :: "jstring \<Rightarrow> nat option" where
  "packageDelimiterIndex packageKey =
     (if \<not> starts_with packageKey [64] then index_of 64 packageKey
      else case index_of 47 packageKey of
        None \<Rightarrow> None
      | Some slashIndex \<Rightarrow> if slashIndex \<le> 1 then None else index_from 64 (slashIndex + 1) packageKey)"

definition validateNpmPackageName :: "jstring \<Rightarrow> inv_error + unit" where
  "validateNpmPackageName name =
     (if starts_with name [64] then
        (case index_of 47 name of
           None \<Rightarrow> Inl ''MALFORMED_PACKAGE_NAME''
         | Some slashIndex \<Rightarrow>
             if slashIndex \<le> 1 \<or> index_from 47 (slashIndex + 1) name \<noteq> None
                \<or> \<not> PACKAGE_PART_PATTERN (take (slashIndex - 1) (drop 1 name))
                \<or> \<not> PACKAGE_PART_PATTERN (drop (slashIndex + 1) name)
             then Inl ''MALFORMED_PACKAGE_NAME'' else Inr ())
      else if 64 \<in> set name \<or> 47 \<in> set name \<or> \<not> PACKAGE_PART_PATTERN name
      then Inl ''MALFORMED_PACKAGE_NAME'' else Inr ())"

definition validateVersion :: "jstring \<Rightarrow> inv_error + unit" where
  "validateVersion version =
     (if \<not> SEMVER_LIKE_PATTERN version then Inl ''MALFORMED_PACKAGE_VERSION'' else Inr ())"

text \<open>One character of the loop of \<^verbatim>\<open>validatePeerSuffix\<close>, on the depth and the content length of the
  group.  The source iterates over code points; a surrogate pair is one character there and two
  here, which only changes the content length, never whether it is zero.\<close>

definition peerCharacter :: "int \<times> nat \<Rightarrow> nat \<Rightarrow> inv_error + int \<times> nat" where
  "peerCharacter st character =
     (case st of (depth, groupContentLength) \<Rightarrow>
       if depth = 0 \<and> character \<noteq> 40 then Inl ''MALFORMED_PEER_SUFFIX''
       else if character = 40 then Inr (depth + 1, if depth + 1 = 1 then 0 else groupContentLength)
       else if character = 41 then
         (if depth - 1 < 0 \<or> (depth - 1 = 0 \<and> groupContentLength = 0)
          then Inl ''MALFORMED_PEER_SUFFIX'' else Inr (depth - 1, groupContentLength))
       else if is_ws character then Inl ''MALFORMED_PEER_SUFFIX''
       else Inr (depth, if depth > 0 then groupContentLength + 1 else groupContentLength))"

definition validatePeerSuffix :: "jstring \<Rightarrow> inv_error + unit" where
  "validatePeerSuffix peerSuffix =
     bindR (foldR peerCharacter (0, 0) peerSuffix) (\<lambda>(depth, _).
       if depth \<noteq> 0 then Inl ''MALFORMED_PEER_SUFFIX'' else Inr ())"

record package_key =
  pk_rawKey :: jstring
  pk_name :: jstring
  pk_version :: jstring
  pk_peerSuffix :: jstring
  pk_normalizedKey :: jstring

definition parsePnpmPackageKey :: "jsval \<Rightarrow> inv_error + package_key" where
  "parsePnpmPackageKey packageKey =
     (case packageKey of
        JStr k \<Rightarrow>
          if k = [] then Inl ''MALFORMED_PACKAGE_KEY''
          else (case packageDelimiterIndex k of
            None \<Rightarrow> Inl ''MALFORMED_PACKAGE_KEY''
          | Some delimiterIndex \<Rightarrow>
              if delimiterIndex = 0 \<or> delimiterIndex = length k - 1
              then Inl ''MALFORMED_PACKAGE_KEY''
              else (let name = take delimiterIndex k; versionWithPeers = drop (delimiterIndex + 1) k
                in bindR (validateNpmPackageName name) (\<lambda>_.
                   let version = (case index_of 40 versionWithPeers of
                         None \<Rightarrow> versionWithPeers | Some peerStart \<Rightarrow> take peerStart versionWithPeers);
                       peerSuffix = (case index_of 40 versionWithPeers of
                         None \<Rightarrow> [] | Some peerStart \<Rightarrow> drop peerStart versionWithPeers)
                   in bindR (validateVersion version) (\<lambda>_.
                      bindR (if peerSuffix \<noteq> [] then validatePeerSuffix peerSuffix else Inr ()) (\<lambda>_.
                        Inr \<lparr>pk_rawKey = k, pk_name = name, pk_version = version,
                             pk_peerSuffix = peerSuffix,
                             pk_normalizedKey = name @ [64] @ version\<rparr>)))))
      | _ \<Rightarrow> Inl ''MALFORMED_PACKAGE_KEY'')"

section \<open>Documents of a lockfile\<close>

record srcline =
  lineNumber :: nat
  ltext :: jstring

fun crlf_to_lf :: "jstring \<Rightarrow> jstring" where
  "crlf_to_lf [] = []"
| "crlf_to_lf [c] = [c]"
| "crlf_to_lf (c # d # s) = (if c = 13 \<and> d = 10 then 10 # crlf_to_lf s else c # crlf_to_lf (d # s))"

definition blank_line :: "srcline \<Rightarrow> bool" where
  "blank_line l \<longleftrightarrow> trim (ltext l) = []"

definition trimBlankLines :: "srcline list \<Rightarrow> srcline list" where
  "trimBlankLines ls = rev (dropWhile blank_line (rev (dropWhile blank_line ls)))"

definition document_body :: "srcline list \<Rightarrow> jstring" where
  "document_body ls = join [10] (map ltext ls)"

record split_state =
  sp_documents :: "srcline list list"
  sp_bodies :: "jstring list"
  sp_current :: "srcline list"
  sp_sawSeparator :: bool

definition finalizeDocument :: "split_state \<Rightarrow> inv_error + split_state" where
  "finalizeDocument st =
     (let trimmed = trimBlankLines (sp_current st) in
      if trimmed = [] then Inl ''EMPTY_DOCUMENT''
      else if document_body trimmed \<in> set (sp_bodies st) then Inl ''DUPLICATE_DOCUMENT''
      else Inr (st\<lparr>sp_documents := sp_documents st @ [trimmed],
                   sp_bodies := sp_bodies st @ [document_body trimmed]\<rparr>))"

definition splitLine :: "split_state \<Rightarrow> srcline \<Rightarrow> inv_error + split_state" where
  "splitLine st l =
     (if trim (ltext l) = js ''---'' \<and> ltext l \<noteq> js ''---'' then Inl ''MALFORMED_DOCUMENT_SEPARATOR''
      else if ltext l \<noteq> js ''---'' then Inr (st\<lparr>sp_current := sp_current st @ [l]\<rparr>)
      else if sp_documents st = [] \<and> \<not> sp_sawSeparator st \<and> sp_current st = []
      then Inr (st\<lparr>sp_sawSeparator := True\<rparr>)
      else bindR (finalizeDocument st) (\<lambda>st'.
        Inr (st'\<lparr>sp_current := [], sp_sawSeparator := True\<rparr>)))"

definition numbered :: "jstring list \<Rightarrow> srcline list" where
  "numbered ts = map (\<lambda>(i, t). \<lparr>lineNumber = i + 1, ltext = t\<rparr>) (enumerate 0 ts)"

definition splitYamlDocuments :: "jsval \<Rightarrow> inv_error + srcline list list" where
  "splitYamlDocuments lockText =
     (case lockText of
        JStr s \<Rightarrow>
          if s = [] \<or> trim s = [] then Inl ''EMPTY_LOCKFILE''
          else if 0 \<in> set s then Inl ''INVALID_LOCKFILE''
          else (let normalizedText = crlf_to_lf s in
            if 13 \<in> set normalizedText then Inl ''INVALID_NEWLINE''
            else bindR (foldR splitLine
                          \<lparr>sp_documents = [], sp_bodies = [], sp_current = [], sp_sawSeparator = False\<rparr>
                          (numbered (split_on 10 normalizedText))) (\<lambda>st.
                 bindR (finalizeDocument st) (\<lambda>st'. Inr (sp_documents st'))))
      | _ \<Rightarrow> Inl ''INVALID_LOCKFILE'')"

section \<open>Mapping entries\<close>

text \<open>From behind the opening quote: the key and the text behind the closing quote.\<close>

fun parseSingleQuotedKey :: "jstring \<Rightarrow> inv_error + jstring \<times> jstring" where
  "parseSingleQuotedKey [] = Inl ''MALFORMED_MAPPING''"
| "parseSingleQuotedKey (c # s) =
     (if c \<noteq> 39 then bindR (parseSingleQuotedKey s) (\<lambda>(k, r). Inr (c # k, r))
      else case s of
        [] \<Rightarrow> Inr ([], [])
      | d # s' \<Rightarrow> if d = 39 then bindR (parseSingleQuotedKey s') (\<lambda>(k, r). Inr (39 # k, r))
                   else Inr ([], s))"

text \<open>From behind the opening quote: the raw text up to the first unescaped quote and the rest.\<close>

fun double_quoted_body :: "jstring \<Rightarrow> (jstring \<times> jstring) option" where
  "double_quoted_body [] = None"
| "double_quoted_body (c # s) =
     (if c = 92 then
        (case s of
           [] \<Rightarrow> None
         | e # s' \<Rightarrow> map_option (\<lambda>(b, r). (c # e # b, r)) (double_quoted_body s'))
      else if c = 34 then Some ([], s)
      else map_option (\<lambda>(b, r). (c # b, r)) (double_quoted_body s))"

definition parseDoubleQuotedKey :: "jstring \<Rightarrow> inv_error + jstring \<times> jstring" where
  "parseDoubleQuotedKey s =
     (case double_quoted_body s of
        None \<Rightarrow> Inl ''MALFORMED_MAPPING''
      | Some (body, remainder) \<Rightarrow>
          (case unescape body of
             None \<Rightarrow> Inl ''MALFORMED_MAPPING''
           | Some key \<Rightarrow> Inr (key, remainder)))"

definition unsupported_key_char :: "nat \<Rightarrow> bool" where
  "unsupported_key_char c \<longleftrightarrow> is_ws c \<or> c \<in> {35, 91, 93, 123, 125, 44}"

definition parseMappingEntry :: "jstring \<Rightarrow> inv_error + jstring \<times> jstring" where
  "parseMappingEntry text =
     (if text = [] then Inl ''MALFORMED_MAPPING''
      else bindR
        (if starts_with text [39] then parseSingleQuotedKey (tl text)
         else if starts_with text [34] then parseDoubleQuotedKey (tl text)
         else (case index_of 58 text of
             None \<Rightarrow> Inl ''MALFORMED_MAPPING''
           | Some colonIndex \<Rightarrow>
               if colonIndex = 0 then Inl ''MALFORMED_MAPPING''
               else (let key = take colonIndex text in
                 if key \<noteq> trim key \<or> list_ex unsupported_key_char key
                 then Inl ''MALFORMED_MAPPING'' else Inr (key, drop colonIndex text))))
        (\<lambda>(key, remainder).
          if \<not> starts_with remainder [58] then Inl ''MALFORMED_MAPPING''
          else (let value = trim (tl remainder) in
            if starts_with value [35] then Inr (key, []) else Inr (key, value))))"

fun undouble_quotes :: "jstring \<Rightarrow> jstring" where
  "undouble_quotes [] = []"
| "undouble_quotes [c] = [c]"
| "undouble_quotes (c # d # s) =
     (if c = 39 \<and> d = 39 then 39 # undouble_quotes s else c # undouble_quotes (d # s))"

text \<open>A double-quoted scalar is the trimmed value of an entry, so \<^verbatim>\<open>JSON.parse\<close> of it succeeds exactly
  when it is one string literal, and then gives a string.\<close>

definition parseScalarString :: "jstring \<Rightarrow> inv_error + jstring" where
  "parseScalarString value =
     (if value = [] then Inl ''MALFORMED_SCALAR''
      else if starts_with value [39] then
        (if \<not> ends_with value [39] \<or> length value < 2 then Inl ''MALFORMED_SCALAR''
         else Inr (undouble_quotes (butlast (tl value))))
      else if starts_with value [34] then
        (if length value < 2 \<or> last value \<noteq> 34 then Inl ''MALFORMED_SCALAR''
         else case unescape (butlast (tl value)) of
           None \<Rightarrow> Inl ''MALFORMED_SCALAR'' | Some v \<Rightarrow> Inr v)
      else if list_ex (\<lambda>c. is_ws c \<or> c = 35) value then Inl ''MALFORMED_SCALAR''
      else Inr value)"

section \<open>Sections\<close>

definition isBlankOrComment :: "jstring \<Rightarrow> bool" where
  "isBlankOrComment t \<longleftrightarrow> trim t = [] \<or> starts_with (trim t) [35]"

definition leadingSpaces :: "jstring \<Rightarrow> nat" where
  "leadingSpaces t = length t - length (trim_start t)"

definition rejectTabIndentation :: "srcline \<Rightarrow> inv_error + unit" where
  "rejectTabIndentation l =
     (if starts_with (dropWhile (\<lambda>c. c = 32) (ltext l)) [9] then Inl ''MALFORMED_INDENTATION''
      else Inr ())"

record top_section =
  s_key :: jstring
  s_value :: jstring
  s_index :: nat
  s_lineNumber :: nat

definition sectionLine :: "top_section list \<Rightarrow> nat \<times> srcline \<Rightarrow> inv_error + top_section list" where
  "sectionLine sections il =
     (case il of (index, line) \<Rightarrow>
     bindR (rejectTabIndentation line) (\<lambda>_.
       if isBlankOrComment (ltext line) then Inr sections
       else if leadingSpaces (ltext line) mod 2 \<noteq> 0 then Inl ''MALFORMED_INDENTATION''
       else if leadingSpaces (ltext line) \<noteq> 0 then Inr sections
       else bindR (parseMappingEntry (ltext line)) (\<lambda>(key, value).
         if key \<in> s_key ` set sections then Inl ''DUPLICATE_TOP_LEVEL_KEY''
         else Inr (sections @ [\<lparr>s_key = key, s_value = value, s_index = index,
                                s_lineNumber = lineNumber line\<rparr>]))))"

definition parseTopLevelSections :: "srcline list \<Rightarrow> inv_error + top_section list" where
  "parseTopLevelSections lines = foldR sectionLine [] (enumerate 0 lines)"

definition find_section :: "string \<Rightarrow> top_section list \<Rightarrow> top_section option" where
  "find_section k sections = List.find (\<lambda>s. s_key s = js k) sections"

text \<open>The keys of the sections are distinct, so the key finds the position of a section.\<close>

definition nextSectionIndex :: "top_section list \<Rightarrow> top_section \<Rightarrow> nat \<Rightarrow> nat" where
  "nextSectionIndex sections section fallback =
     (case drop 1 (dropWhile (\<lambda>s. s_key s \<noteq> s_key section) sections) of
        [] \<Rightarrow> fallback | s # _ \<Rightarrow> s_index s)"

definition section_lines :: "srcline list \<Rightarrow> top_section list \<Rightarrow> top_section \<Rightarrow> srcline list" where
  "section_lines lines sections section =
     drop (s_index section + 1) (take (nextSectionIndex sections section (length lines)) lines)"

record lock_package =
  lp_source :: jstring
  lp_documentNumber :: nat
  lp_lineNumber :: nat
  lp_key :: package_key

definition packageLine ::
  "jstring \<Rightarrow> nat \<Rightarrow> lock_package list \<times> jstring list \<Rightarrow> srcline
   \<Rightarrow> inv_error + lock_package list \<times> jstring list" where
  "packageLine documentSource documentNumber st line =
     (case st of (packages, physicalKeys) \<Rightarrow>
     if isBlankOrComment (ltext line) then Inr st
     else let indent = leadingSpaces (ltext line) in
       if indent < 2 \<or> indent mod 2 \<noteq> 0 then Inl ''MALFORMED_PACKAGE_INDENTATION''
       else if indent > 2 then Inr st
       else bindR (parseMappingEntry (drop 2 (ltext line))) (\<lambda>(key, value).
         if value \<noteq> [] then Inl ''MALFORMED_PACKAGE_ENTRY''
         else if key \<in> set physicalKeys then Inl ''DUPLICATE_PACKAGE_ENTRY''
         else bindR (parsePnpmPackageKey (JStr key)) (\<lambda>parsed.
           Inr (packages @ [\<lparr>lp_source = documentSource, lp_documentNumber = documentNumber,
                             lp_lineNumber = lineNumber line, lp_key = parsed\<rparr>],
                physicalKeys @ [key]))))"

definition parsePackageSection ::
  "srcline list \<Rightarrow> top_section list \<Rightarrow> top_section \<Rightarrow> jstring \<Rightarrow> nat \<Rightarrow> inv_error + lock_package list" where
  "parsePackageSection lines sections section documentSource documentNumber =
     bindR (foldR (packageLine documentSource documentNumber) ([], [])
              (section_lines lines sections section)) (\<lambda>(packages, _).
       if packages = [] then Inl ''EMPTY_PACKAGES'' else Inr packages)"

section \<open>Importers\<close>

definition DIRECT_SCOPE_NAMES :: "jstring list" where
  "DIRECT_SCOPE_NAMES =
     [js ''dependencies'', js ''devDependencies'', js ''optionalDependencies'',
      js ''peerDependencies'', js ''configDependencies'', js ''packageManagerDependencies'']"

type_synonym scope_counts = "(jstring \<times> nat) list"

definition emptyScopeCounts :: scope_counts where
  "emptyScopeCounts = map (\<lambda>scope. (scope, 0)) (DIRECT_SCOPE_NAMES @ [js ''unknown''])"

text \<open>\<^verbatim>\<open>scopeCounts[scope] += count\<close> of a present key.\<close>

definition add_count :: "scope_counts \<Rightarrow> jstring \<Rightarrow> nat \<Rightarrow> scope_counts" where
  "add_count m scope n = map (\<lambda>(k, v). (k, if k = scope then v + n else v)) m"

record dependency =
  d_source :: jstring
  d_documentNumber :: nat
  d_lineNumber :: nat
  d_importer :: jstring
  d_section :: jstring
  d_scope :: jstring
  d_name :: jstring

record importer_state =
  im_directDependencies :: "dependency list"
  im_scopeCounts :: scope_counts
  im_seenImporters :: "jstring list"
  im_importer :: "jstring option"
  im_declaredSection :: "jstring option"
  im_scope :: "jstring option"
  im_seenSections :: "jstring list"
  im_seenDependencies :: "jstring list"
  im_importerAllowsChildren :: bool
  im_sectionAllowsChildren :: bool
  im_dependencyAllowsChildren :: bool
  im_currentDependency :: "jstring option"

definition importer_start :: importer_state where
  "importer_start =
     \<lparr>im_directDependencies = [], im_scopeCounts = emptyScopeCounts, im_seenImporters = [],
      im_importer = None, im_declaredSection = None, im_scope = None, im_seenSections = [],
      im_seenDependencies = [], im_importerAllowsChildren = False, im_sectionAllowsChildren = False,
      im_dependencyAllowsChildren = False, im_currentDependency = None\<rparr>"

text \<open>The empty string is as false as null in the guards.\<close>

definition unset :: "jstring option \<Rightarrow> bool" where
  "unset x \<longleftrightarrow> x = None \<or> x = Some []"

definition importerEntry :: "importer_state \<Rightarrow> srcline \<Rightarrow> inv_error + importer_state" where
  "importerEntry st line =
     bindR (parseMappingEntry (drop 2 (ltext line))) (\<lambda>(key, value).
       if value \<noteq> [] \<and> value \<noteq> js ''{}'' then Inl ''MALFORMED_IMPORTER''
       else if key \<in> set (im_seenImporters st) then Inl ''DUPLICATE_IMPORTER''
       else Inr (st\<lparr>im_seenImporters := im_seenImporters st @ [key], im_importer := Some key,
                    im_declaredSection := None, im_scope := None, im_seenSections := [],
                    im_seenDependencies := [], im_importerAllowsChildren := (value = []),
                    im_sectionAllowsChildren := False, im_dependencyAllowsChildren := False,
                    im_currentDependency := None\<rparr>))"

definition importerSectionEntry :: "importer_state \<Rightarrow> srcline \<Rightarrow> inv_error + importer_state" where
  "importerSectionEntry st line =
     bindR (parseMappingEntry (drop 4 (ltext line))) (\<lambda>(key, value).
       if value \<noteq> [] \<and> value \<noteq> js ''{}'' then Inl ''MALFORMED_IMPORTER_SCOPE''
       else if key \<in> set (im_seenSections st) then Inl ''DUPLICATE_IMPORTER_SCOPE''
       else Inr (st\<lparr>im_seenSections := im_seenSections st @ [key], im_declaredSection := Some key,
                    im_scope := Some (if key \<in> set DIRECT_SCOPE_NAMES then key else js ''unknown''),
                    im_sectionAllowsChildren := (value = []),
                    im_dependencyAllowsChildren := False, im_currentDependency := None\<rparr>))"

definition dependencyEntry ::
  "jstring \<Rightarrow> nat \<Rightarrow> importer_state \<Rightarrow> srcline \<Rightarrow> inv_error + importer_state" where
  "dependencyEntry documentSource documentNumber st line =
     (if unset (im_declaredSection st) \<or> unset (im_scope st) then Inl ''MALFORMED_IMPORTER_DEPENDENCY''
      else if \<not> im_sectionAllowsChildren st then Inl ''MALFORMED_IMPORTER_SCOPE''
      else bindR (parseMappingEntry (drop 6 (ltext line))) (\<lambda>(key, value).
        bindR (validateNpmPackageName key) (\<lambda>_.
          let duplicateKey = the (im_declaredSection st) @ [0] @ key in
          if duplicateKey \<in> set (im_seenDependencies st) then Inl ''DUPLICATE_IMPORTER_DEPENDENCY''
          else Inr (st\<lparr>im_seenDependencies := im_seenDependencies st @ [duplicateKey],
                       im_scopeCounts := add_count (im_scopeCounts st) (the (im_scope st)) 1,
                       im_directDependencies := im_directDependencies st @
                         [\<lparr>d_source = documentSource, d_documentNumber = documentNumber,
                           d_lineNumber = lineNumber line, d_importer = the (im_importer st),
                           d_section = the (im_declaredSection st), d_scope = the (im_scope st),
                           d_name = key\<rparr>],
                       im_currentDependency := Some key,
                       im_dependencyAllowsChildren := (value = [])\<rparr>))))"

definition importerLine ::
  "jstring \<Rightarrow> nat \<Rightarrow> importer_state \<Rightarrow> srcline \<Rightarrow> inv_error + importer_state" where
  "importerLine documentSource documentNumber st line =
     (if isBlankOrComment (ltext line) then Inr st
      else let indent = leadingSpaces (ltext line) in
        if indent < 2 \<or> indent mod 2 \<noteq> 0 then Inl ''MALFORMED_IMPORTER_INDENTATION''
        else if indent = 2 then importerEntry st line
        else if unset (im_importer st) then Inl ''MALFORMED_IMPORTERS''
        else if \<not> im_importerAllowsChildren st then Inl ''MALFORMED_IMPORTER''
        else if indent = 4 then importerSectionEntry st line
        else if indent = 6 then dependencyEntry documentSource documentNumber st line
        else if unset (im_currentDependency st) then Inl ''MALFORMED_IMPORTER_DEPENDENCY''
        else if \<not> im_dependencyAllowsChildren st then Inl ''MALFORMED_IMPORTER_DEPENDENCY''
        else Inr st)"

definition assertSectionHasNoContent ::
  "srcline list \<Rightarrow> top_section list \<Rightarrow> top_section \<Rightarrow> inv_error + unit" where
  "assertSectionHasNoContent lines sections section =
     (if list_all (\<lambda>l. isBlankOrComment (ltext l)) (section_lines lines sections section)
      then Inr () else Inl ''MALFORMED_IMPORTERS'')"

definition parseImporterSection ::
  "srcline list \<Rightarrow> top_section list \<Rightarrow> top_section \<Rightarrow> jstring \<Rightarrow> nat
   \<Rightarrow> inv_error + dependency list \<times> scope_counts" where
  "parseImporterSection lines sections section documentSource documentNumber =
     (if s_value section = js ''{}'' then
        bindR (assertSectionHasNoContent lines sections section) (\<lambda>_. Inr ([], emptyScopeCounts))
      else if s_value section \<noteq> [] then Inl ''MALFORMED_IMPORTERS''
      else bindR (foldR (importerLine documentSource documentNumber) importer_start
                    (section_lines lines sections section)) (\<lambda>st.
        Inr (im_directDependencies st, im_scopeCounts st)))"

section \<open>The lockfile inventory\<close>

record lock_document =
  ld_source :: jstring
  ld_documentNumber :: nat
  ld_text :: jstring
  ld_lockfileVersion :: jstring
  ld_packageCount :: nat
  ld_packages :: "lock_package list"
  ld_directDependencies :: "dependency list"
  ld_scopeCounts :: scope_counts

definition parseLockDocument ::
  "srcline list \<Rightarrow> jstring \<Rightarrow> nat \<Rightarrow> jstring \<Rightarrow> inv_error + lock_document" where
  "parseLockDocument lines source documentNumber expectedLockfileVersion =
     (let documentSource = source @ js ''#document-'' @ nat_text documentNumber;
          text = document_body lines @ [10]
      in bindR (parseTopLevelSections lines) (\<lambda>sections.
         case find_section ''lockfileVersion'' sections of
           None \<Rightarrow> Inl ''MISSING_LOCKFILE_VERSION''
         | Some versionEntry \<Rightarrow>
             bindR (parseScalarString (s_value versionEntry)) (\<lambda>lockfileVersion.
               if lockfileVersion \<noteq> expectedLockfileVersion then Inl ''LOCKFILE_VERSION_MISMATCH''
               else case find_section ''packages'' sections of
                 None \<Rightarrow> Inl ''MISSING_PACKAGES''
               | Some packageSection \<Rightarrow>
                   if s_value packageSection \<noteq> [] then Inl ''EMPTY_PACKAGES''
                   else bindR (parsePackageSection lines sections packageSection documentSource
                                 documentNumber) (\<lambda>packages.
                     bindR (case find_section ''importers'' sections of
                              None \<Rightarrow> Inr ([], emptyScopeCounts)
                            | Some importerSection \<Rightarrow>
                                parseImporterSection lines sections importerSection documentSource
                                  documentNumber) (\<lambda>(directDependencies, scopeCounts).
                       Inr \<lparr>ld_source = documentSource, ld_documentNumber = documentNumber,
                            ld_text = text, ld_lockfileVersion = lockfileVersion,
                            ld_packageCount = length packages, ld_packages = packages,
                            ld_directDependencies = directDependencies,
                            ld_scopeCounts = scopeCounts\<rparr>)))))"

record lock_inventory =
  li_source :: jstring
  li_expectedLockfileVersion :: jstring
  li_lockfileVersions :: "jstring list"
  li_documentCount :: nat
  li_documents :: "lock_document list"
  li_packages :: "lock_package list"
  li_packageCount :: nat
  li_directDependencies :: "dependency list"
  li_scopeCounts :: scope_counts

definition add_counts :: "scope_counts \<Rightarrow> scope_counts \<Rightarrow> scope_counts" where
  "add_counts m counts = foldl (\<lambda>acc (scope, n). add_count acc scope n) m counts"

definition parsePnpmLockInventory :: "jsval \<Rightarrow> jsval \<Rightarrow> inv_error + lock_inventory" where
  "parsePnpmLockInventory lockText options =
     (case coalesce (getp options ''source'') (JStr (js ''pnpm-lock.yaml'')) of
        JStr source \<Rightarrow>
          if source = [] then Inl ''INVALID_SOURCE''
          else (case coalesce (getp options ''expectedLockfileVersion'') (JStr (js ''9.0'')) of
            JStr expectedLockfileVersion \<Rightarrow>
              if expectedLockfileVersion = [] then Inl ''INVALID_LOCKFILE_VERSION_POLICY''
              else bindR (splitYamlDocuments lockText) (\<lambda>splitDocuments.
                bindR (mapR (\<lambda>(index, ls). parseLockDocument ls source (index + 1)
                              expectedLockfileVersion) (enumerate 0 splitDocuments)) (\<lambda>documents.
                  let packages = concat (map ld_packages documents) in
                  Inr \<lparr>li_source = source, li_expectedLockfileVersion = expectedLockfileVersion,
                       li_lockfileVersions = map ld_lockfileVersion documents,
                       li_documentCount = length documents, li_documents = documents,
                       li_packages = packages, li_packageCount = length packages,
                       li_directDependencies = concat (map ld_directDependencies documents),
                       li_scopeCounts =
                         foldl add_counts emptyScopeCounts (map ld_scopeCounts documents)\<rparr>))
          | _ \<Rightarrow> Inl ''INVALID_LOCKFILE_VERSION_POLICY'')
      | _ \<Rightarrow> Inl ''INVALID_SOURCE'')"

section \<open>Parity with an OSV result\<close>

type_synonym name_version = "jstring \<times> jstring"

definition normalizeInventoryPackage :: "jsval \<Rightarrow> inv_error + name_version" where
  "normalizeInventoryPackage pkg =
     (case (getp pkg ''name'', getp pkg ''version'') of
        (JStr name, JStr version) \<Rightarrow>
          bindR (validateNpmPackageName name) (\<lambda>_.
          bindR (parsePnpmPackageKey (JStr (name @ [64] @ version))) (\<lambda>normalized.
            Inr (pk_name normalized, pk_version normalized)))
      | _ \<Rightarrow> Inl ''INVALID_INVENTORY_PACKAGE'')"

type_synonym source_map = "(jstring \<times> name_version list) list"

definition expectedSource :: "source_map \<Rightarrow> jsval \<Rightarrow> inv_error + source_map" where
  "expectedSource normalized expected =
     (case getp expected ''source'' of
        JStr source \<Rightarrow>
          if source = [] then Inl ''INVALID_EXPECTED_SOURCE''
          else if source \<in> fst ` set normalized then Inl ''DUPLICATE_EXPECTED_SOURCE''
          else (case getp expected ''packages'' of
            JArr packages \<Rightarrow> bindR (mapR normalizeInventoryPackage packages) (\<lambda>ps.
              Inr (normalized @ [(source, ps)]))
          | _ \<Rightarrow> Inl ''INVALID_EXPECTED_SOURCE'')
      | _ \<Rightarrow> Inl ''INVALID_EXPECTED_SOURCE'')"

definition normalizeExpectedSources :: "jsval \<Rightarrow> inv_error + source_map" where
  "normalizeExpectedSources expectedSources =
     (case expectedSources of
        JArr xs \<Rightarrow> if xs = [] then Inl ''INVALID_EXPECTED_SOURCES'' else foldR expectedSource [] xs
      | _ \<Rightarrow> Inl ''INVALID_EXPECTED_SOURCES'')"

definition osvPackage :: "jsval \<Rightarrow> inv_error + name_version" where
  "osvPackage entry =
     (if getp (getp entry ''package'') ''ecosystem'' \<noteq> JStr (js ''npm'') then Inl ''INVALID_OSV_PACKAGE''
      else normalizeInventoryPackage (getp entry ''package''))"

definition osvSource :: "source_map \<Rightarrow> jsval \<Rightarrow> inv_error + source_map" where
  "osvSource normalized r =
     (case getp (getp r ''source'') ''path'' of
        JStr source \<Rightarrow>
          if source = [] then Inl ''INVALID_OSV_SOURCE''
          else if source \<in> fst ` set normalized then Inl ''DUPLICATE_OSV_SOURCE''
          else (case getp r ''packages'' of
            JArr packages \<Rightarrow> bindR (mapR osvPackage packages) (\<lambda>ps.
              Inr (normalized @ [(source, ps)]))
          | _ \<Rightarrow> Inl ''INVALID_OSV_SOURCE'')
      | _ \<Rightarrow> Inl ''INVALID_OSV_SOURCE'')"

definition normalizeOsvSources :: "jsval \<Rightarrow> inv_error + source_map" where
  "normalizeOsvSources osvResult =
     (case getp osvResult ''results'' of
        JArr xs \<Rightarrow> foldR osvSource [] xs
      | _ \<Rightarrow> Inl ''INVALID_OSV_RESULT'')"

text \<open>\<^verbatim>\<open>JSON.stringify([name, version])\<close>\<close>

definition package_pair_key :: "name_version \<Rightarrow> jstring" where
  "package_pair_key p = [91] @ quote (fst p) @ [44] @ quote (snd p) @ [93]"

definition toMultiset :: "name_version list \<Rightarrow> jstring counts" where
  "toMultiset packages = tally (map package_pair_key packages)"

text \<open>The keys with their excess count; the text built from them for the message is not kept.\<close>

definition multisetDifference :: "jstring counts \<Rightarrow> jstring counts \<Rightarrow> (jstring \<times> nat) list" where
  "multisetDifference left right =
     map (\<lambda>k. (k, get_count left k - get_count right k))
       (filter (\<lambda>k. get_count left k > get_count right k) (sort (map fst left)))"

definition sourceParity :: "source_map \<Rightarrow> source_map \<Rightarrow> unit \<Rightarrow> jstring \<Rightarrow> inv_error + unit" where
  "sourceParity expected actual u source =
     (let expectedInventory = toMultiset (the (map_of expected source));
          actualInventory = toMultiset (the (map_of actual source))
      in if multisetDifference expectedInventory actualInventory \<noteq> []
            \<or> multisetDifference actualInventory expectedInventory \<noteq> []
         then Inl ''OSV_INVENTORY_MISMATCH'' else Inr ())"

definition assertOsvSourceInventoryParity :: "jsval \<Rightarrow> jsval \<Rightarrow> inv_error + bool" where
  "assertOsvSourceInventoryParity expectedSources osvResult =
     bindR (normalizeExpectedSources expectedSources) (\<lambda>expected.
     bindR (normalizeOsvSources osvResult) (\<lambda>actual.
       let expectedNames = sort (map fst expected); actualNames = sort (map fst actual);
           missingSources = filter (\<lambda>s. s \<notin> fst ` set actual) expectedNames;
           extraSources = filter (\<lambda>s. s \<notin> fst ` set expected) actualNames
       in if missingSources \<noteq> [] \<or> extraSources \<noteq> [] then Inl ''OSV_SOURCE_MISMATCH''
          else bindR (foldR (sourceParity expected actual) () expectedNames) (\<lambda>_. Inr True)))"

end
