(* ===== verification/Inventory_Props.thy ===== *)
theory Inventory_Props
  imports Inventory
begin

text \<open>
  Correctness of the inventories: the grammar of package keys and its unambiguity, quoted mapping
  keys, lossless document splitting, the consistency of a parsed lockfile, and the refinement of
  the OSV parity check to equality of multisets of packages.
\<close>

section \<open>The package-key grammar\<close>

definition npm_name :: "jstring \<Rightarrow> bool" where
  "npm_name n \<longleftrightarrow> PACKAGE_PART_PATTERN n
     \<or> (\<exists>s p. n = 64 # s @ 47 # p \<and> PACKAGE_PART_PATTERN s \<and> PACKAGE_PART_PATTERN p)"

lemma part_chars:
  "PACKAGE_PART_PATTERN s \<Longrightarrow> s \<noteq> [] \<and> 64 \<notin> set s \<and> 47 \<notin> set s \<and> 40 \<notin> set s \<and> 34 \<notin> set s \<and> 92 \<notin> set s \<and> 0 \<notin> set s"
  by (auto simp: PACKAGE_PART_PATTERN_def list_all_iff char_class_defs)

lemma starts_with_Cons [simp]: "starts_with (c # s) [d] \<longleftrightarrow> c = d"
  by (auto simp: starts_with_def)

lemma starts_with_Nil [simp]: "\<not> starts_with [] [d]"
  by (simp add: starts_with_def)

lemma index_from_None_iff: "index_from c i s = None \<longleftrightarrow> c \<notin> set (drop i s)"
  by (simp add: index_from_def index_of_None_iff)

lemma validateNpmPackageName_iff [simp]: "validateNpmPackageName n = Inr () \<longleftrightarrow> npm_name n"
proof (cases "starts_with n [64]")
  case False
  then have "\<nexists>s p. n = 64 # s @ 47 # p" by auto
  with False show ?thesis by (auto simp: validateNpmPackageName_def npm_name_def dest: part_chars)
next
  case True
  then obtain m where n: "n = 64 # m" by (cases n) auto
  have nn: "npm_name n \<longleftrightarrow> (\<exists>s p. m = s @ 47 # p \<and> PACKAGE_PART_PATTERN s \<and> PACKAGE_PART_PATTERN p)"
    by (auto simp: npm_name_def n dest: part_chars)
  show ?thesis
  proof (cases "index_of 47 m")
    case None
    then have "47 \<notin> set m" by (simp add: index_of_None_iff)
    with None show ?thesis by (auto simp: nn[unfolded n] validateNpmPackageName_def n)
  next
    case (Some i)
    then have m: "m = take i m @ 47 # drop (Suc i) m" and i: "47 \<notin> set (take i m)"
      using index_of_split index_of_SomeD by blast+
    have "validateNpmPackageName n = Inr () \<longleftrightarrow> i \<noteq> 0 \<and> 47 \<notin> set (drop (Suc i) m)
        \<and> PACKAGE_PART_PATTERN (take i m) \<and> PACKAGE_PART_PATTERN (drop (Suc i) m)"
      using Some by (auto simp: validateNpmPackageName_def n index_from_None_iff)
    also have "\<dots> \<longleftrightarrow> PACKAGE_PART_PATTERN (take i m) \<and> PACKAGE_PART_PATTERN (drop (Suc i) m)"
      using part_chars by fastforce
    also have "\<dots> \<longleftrightarrow> npm_name n"
    proof
      show "npm_name n" if "PACKAGE_PART_PATTERN (take i m) \<and> PACKAGE_PART_PATTERN (drop (Suc i) m)"
        using that m nn by blast
      assume "npm_name n"
      then obtain s p where sp: "m = s @ 47 # p" "PACKAGE_PART_PATTERN s" "PACKAGE_PART_PATTERN p"
        using nn by blast
      then have "i = length s" using Some index_of_append_notin[of 47 s p] part_chars by auto
      with sp show "PACKAGE_PART_PATTERN (take i m) \<and> PACKAGE_PART_PATTERN (drop (Suc i) m)" by simp
    qed
    finally show ?thesis .
  qed
qed

lemma validateNpmPackageName_unit: "validateNpmPackageName n = Inr u \<longleftrightarrow> npm_name n"
  by (cases u) simp

lemma delimiter_of_name: "npm_name n \<Longrightarrow> packageDelimiterIndex (n @ 64 # w) = Some (length n)"
proof -
  assume "npm_name n"
  then consider (plain) "PACKAGE_PART_PATTERN n"
    | (scoped) s p where "n = 64 # s @ 47 # p" "PACKAGE_PART_PATTERN s" "PACKAGE_PART_PATTERN p"
    by (auto simp: npm_name_def)
  then show ?thesis
  proof cases
    case plain
    then obtain c m where "n = c # m" "c \<noteq> 64" using part_chars[of n] by (cases n) auto
    with plain show ?thesis
      using index_of_append_notin[of 64 n w] part_chars[OF plain] by (simp add: packageDelimiterIndex_def)
  next
    case scoped
    have "index_of 47 (s @ 47 # p @ 64 # w) = Some (length s)"
      using part_chars[OF scoped(2)] by (simp add: index_of_append_notin)
    moreover have "index_of 64 (p @ 64 # w) = Some (length p)"
      using part_chars[OF scoped(3)] by (simp add: index_of_append_notin)
    ultimately show ?thesis using part_chars[OF scoped(2)] scoped(1)
      by (simp add: packageDelimiterIndex_def index_from_def)
  qed
qed

lemma delimiter_split:
  "packageDelimiterIndex k = Some i \<Longrightarrow> k = take i k @ 64 # drop (Suc i) k"
proof -
  have *: "k = take i k @ 64 # drop (Suc i) k" if "index_from 64 j k = Some i" for j
  proof -
    from that obtain l where l: "index_of 64 (drop j k) = Some l" "i = j + l"
      by (auto simp: index_from_def)
    from index_of_SomeD[OF l(1)] l(2) have "i < length k" "k ! i = 64" by auto
    then show ?thesis by (metis id_take_nth_drop)
  qed
  assume "packageDelimiterIndex k = Some i"
  then show ?thesis using *
    by (auto simp: packageDelimiterIndex_def split: if_splits option.splits intro: index_of_split)
qed

lemma number_dot_chars: "number_dot s = Some r \<Longrightarrow> x \<in> set s \<Longrightarrow> is_digit x \<or> x = 46 \<or> x \<in> set r"
  by (auto simp: number_dot_def split: if_splits list.splits)
    (metis set_ConsD set_takeWhileD takeWhile_dropWhile_id Un_iff set_append)

lemma suffix_ok_chars: "suffix_ok s \<Longrightarrow> x \<in> set s \<Longrightarrow> is_alnum x \<or> x \<in> {43, 45, 46}"
proof (cases s)
  case (Cons c r)
  assume *: "suffix_ok s" "x \<in> set s"
  define p q where "p = takeWhile (\<lambda>x. x \<noteq> 43) r" and "q = dropWhile (\<lambda>x. x \<noteq> 43) r"
  then have r: "r = p @ q" and q: "q = [] \<or> hd q = 43"
    using hd_dropWhile[of "\<lambda>x. x \<noteq> 43" r] by auto
  have "c = 43 \<and> identifiers_ok r \<or> c = 45 \<and> identifiers_ok p \<and> (q = [] \<or> identifiers_ok (tl q))"
    using *(1) Cons by (simp add: suffix_ok_def p_def q_def Let_def split: if_splits)
  moreover have "x = c \<or> x \<in> set r" using * Cons by simp
  ultimately show ?thesis using r q
    by (cases q) (auto simp: identifiers_ok_def list_all_iff)
qed simp

lemma semver_chars: "SEMVER_LIKE_PATTERN v \<Longrightarrow> x \<in> set v \<Longrightarrow> is_alnum x \<or> x \<in> {43, 45, 46}"
proof -
  assume *: "SEMVER_LIKE_PATTERN v" "x \<in> set v"
  then obtain s1 s2 where s: "number_dot v = Some s1" "number_dot s1 = Some s2"
    "suffix_ok (dropWhile is_digit s2)"
    by (auto simp: SEMVER_LIKE_PATTERN_def split: option.splits)
  have "is_digit x \<or> x \<in> set (dropWhile is_digit s2)" if "x \<in> set s2"
    using that by (metis Un_iff set_append set_takeWhileD takeWhile_dropWhile_id)
  then show ?thesis
    using number_dot_chars[OF s(1) *(2)] number_dot_chars[OF s(2)] suffix_ok_chars[OF s(3)]
    by (auto simp: is_alnum_def)
qed

lemma semver_not_Nil: "SEMVER_LIKE_PATTERN v \<Longrightarrow> v \<noteq> []"
  by (auto simp: SEMVER_LIKE_PATTERN_def number_dot_def)

lemma semver_no_special: "SEMVER_LIKE_PATTERN v \<Longrightarrow> 40 \<notin> set v \<and> 64 \<notin> set v \<and> 34 \<notin> set v \<and> 92 \<notin> set v"
  using semver_chars[of v 40] semver_chars[of v 64] semver_chars[of v 34] semver_chars[of v 92]
  by (auto simp: char_class_defs)

section \<open>The peer-suffix grammar\<close>

text \<open>The language of a peer suffix: groups in parentheses, nested at will, without white space,
  where every outermost group contains a character that is not a parenthesis.\<close>

inductive peer_inner :: "jstring \<Rightarrow> bool" where
  "peer_inner []"
| "c \<notin> {40, 41} \<Longrightarrow> \<not> is_ws c \<Longrightarrow> peer_inner w \<Longrightarrow> peer_inner (c # w)"
| "peer_inner u \<Longrightarrow> peer_inner w \<Longrightarrow> peer_inner (40 # u @ 41 # w)"

inductive peer_groups :: "jstring \<Rightarrow> bool" where
  "peer_groups []"
| "peer_inner u \<Longrightarrow> \<not> set u \<subseteq> {40, 41} \<Longrightarrow> peer_groups w \<Longrightarrow> peer_groups (40 # u @ 41 # w)"

definition plain_count :: "jstring \<Rightarrow> nat" where
  "plain_count u = length (filter (\<lambda>c. c \<notin> {40, 41}) u)"

lemma plain_count_simps [simp]:
  "plain_count [] = 0" "plain_count (u @ w) = plain_count u + plain_count w"
  "plain_count (c # w) = (if c = 40 \<or> c = 41 then plain_count w else Suc (plain_count w))"
  by (simp_all add: plain_count_def)

lemma plain_count_0_iff: "plain_count u = 0 \<longleftrightarrow> set u \<subseteq> {40, 41}"
  by (auto simp: plain_count_def filter_empty_conv)

lemmas peerCharacter_app = peerCharacter_def[of "(d, g)" for d g, unfolded prod.case]

lemma peer_inner_run:
  "peer_inner w \<Longrightarrow> 1 \<le> d \<Longrightarrow>
     foldR peerCharacter (d, g) (w @ r) = foldR peerCharacter (d, g + plain_count w) r"
proof (induction w arbitrary: d g r rule: peer_inner.induct)
  case (2 c w)
  then show ?case by (simp add: peerCharacter_app)
next
  case (3 u w)
  have "foldR peerCharacter (d, g) ((40 # u @ 41 # w) @ r)
      = foldR peerCharacter (d + 1, g) (u @ (41 # w @ r))"
    using 3 by (simp add: peerCharacter_app)
  also have "\<dots> = foldR peerCharacter (d + 1, g + plain_count u) (41 # w @ r)"
    using 3 by simp
  also have "\<dots> = foldR peerCharacter (d, g + plain_count u) (w @ r)"
    using 3 by (simp add: peerCharacter_app)
  also have "\<dots> = foldR peerCharacter (d, g + plain_count u + plain_count w) r"
    using 3 by simp
  finally show ?case by (simp add: add.assoc)
qed simp

lemma peer_groups_run: "peer_groups s \<Longrightarrow> \<exists>g'. foldR peerCharacter (0, g) s = Inr (0, g')"
proof (induction s arbitrary: g rule: peer_groups.induct)
  case (2 u w)
  have "foldR peerCharacter (0, g) (40 # u @ 41 # w) = foldR peerCharacter (1, 0) (u @ 41 # w)"
    by (simp add: peerCharacter_app)
  also have "\<dots> = foldR peerCharacter (1, plain_count u) (41 # w)"
    using 2 peer_inner_run[of u 1 0] by simp
  also have "\<dots> = foldR peerCharacter (0, plain_count u) w"
    using 2 plain_count_0_iff[of u] by (simp add: peerCharacter_app)
  finally show ?case using 2 by simp
qed simp

text \<open>A run from inside a group reaches its closing parenthesis.\<close>

lemma peer_run_inner:
  "foldR peerCharacter (d, g) s = Inr (0, g') \<Longrightarrow> 1 \<le> d \<Longrightarrow>
     \<exists>u r. s = u @ 41 # r \<and> peer_inner u \<and> (d = 1 \<longrightarrow> 0 < g + plain_count u)
       \<and> foldR peerCharacter (d - 1, g + plain_count u) r = Inr (0, g')"
proof (induction s arbitrary: d g rule: length_induct)
  case (1 s)
  then obtain c s' where s: "s = c # s'" by (cases s) auto
  consider (lpar) "c = 40" | (rpar) "c = 41" | (plain) "c \<notin> {40, 41}" by auto
  then show ?case
  proof cases
    case lpar
    then have "foldR peerCharacter (d + 1, g) s' = Inr (0, g')"
      using 1(2,3) s by (simp add: peerCharacter_app)
    then obtain u r where u: "s' = u @ 41 # r" "peer_inner u"
      "foldR peerCharacter (d, g + plain_count u) r = Inr (0, g')"
      using 1(1)[rule_format, of s' "d + 1" g] 1(3) s by auto
    obtain u2 r2 where u2: "r = u2 @ 41 # r2" "peer_inner u2"
      "d = 1 \<longrightarrow> 0 < g + plain_count u + plain_count u2"
      "foldR peerCharacter (d - 1, g + plain_count u + plain_count u2) r2 = Inr (0, g')"
      using 1(1)[rule_format, of r d "g + plain_count u"] u 1(3) s by auto
    have "peer_inner (40 # u @ 41 # u2)" using u u2 by (auto intro: peer_inner.intros)
    moreover have "s = (40 # u @ 41 # u2) @ 41 # r2" using s lpar u u2 by simp
    ultimately show ?thesis using u2
      by (intro exI[of _ "40 # u @ 41 # u2"] exI[of _ r2]) (auto simp: add.assoc)
  next
    case rpar
    with 1(2,3) s show ?thesis
      by (intro exI[of _ "[]"] exI[of _ s'])
        (auto simp: peerCharacter_app intro: peer_inner.intros split: if_splits)
  next
    case plain
    then have "\<not> is_ws c" "foldR peerCharacter (d, g + 1) s' = Inr (0, g')"
      using 1(2,3) s by (auto simp: peerCharacter_app split: if_splits)
    moreover from this(2) obtain u r where u: "s' = u @ 41 # r" "peer_inner u"
      "d = 1 \<longrightarrow> 0 < g + 1 + plain_count u"
      "foldR peerCharacter (d - 1, g + 1 + plain_count u) r = Inr (0, g')"
      using 1(1)[rule_format, of s' d "g + 1"] 1(3) s by auto
    ultimately show ?thesis using plain s
      by (intro exI[of _ "c # u"] exI[of _ r]) (auto intro: peer_inner.intros)
  qed
qed

lemma peer_run_groups: "foldR peerCharacter (0, g) s = Inr (0, g') \<Longrightarrow> peer_groups s"
proof (induction s arbitrary: g rule: length_induct)
  case (1 s)
  show ?case
  proof (cases s)
    case (Cons c s')
    then have c: "c = 40" "foldR peerCharacter (1, 0) s' = Inr (0, g')"
      using 1(2) by (auto simp: peerCharacter_app split: if_splits)
    from peer_run_inner[OF c(2)] obtain u r where u: "s' = u @ 41 # r" "peer_inner u" "0 < plain_count u"
      "foldR peerCharacter (0, plain_count u) r = Inr (0, g')" by auto
    then have "peer_groups r" using 1(1)[rule_format, of r "plain_count u"] Cons by simp
    with u c Cons plain_count_0_iff[of u] show ?thesis by (auto intro: peer_groups.intros)
  qed (simp add: peer_groups.intros)
qed

lemma validatePeerSuffix_iff [simp]: "validatePeerSuffix p = Inr u \<longleftrightarrow> peer_groups p"
proof -
  have "validatePeerSuffix p = Inr u \<longleftrightarrow> (\<exists>g. foldR peerCharacter (0, 0) p = Inr (0, g))"
    by (auto simp: validatePeerSuffix_def split: prod.splits if_splits)
  then show ?thesis using peer_groups_run[of p 0] peer_run_groups[of 0 p] by auto
qed

lemma peer_groups_head: "peer_groups p \<Longrightarrow> p = [] \<or> hd p = 40"
  by (cases rule: peer_groups.cases) auto

section \<open>Keys\<close>

lemma parsePnpmPackageKey_iff:
  "parsePnpmPackageKey (JStr k) = Inr pk \<longleftrightarrow>
     (\<exists>n v p. k = n @ [64] @ v @ p \<and> npm_name n \<and> SEMVER_LIKE_PATTERN v \<and> peer_groups p
        \<and> pk = \<lparr>pk_rawKey = k, pk_name = n, pk_version = v, pk_peerSuffix = p,
                pk_normalizedKey = n @ [64] @ v\<rparr>)" (is "?L \<longleftrightarrow> ?R")
proof
  assume ?L
  then obtain i where i: "packageDelimiterIndex k = Some i" and
    name: "npm_name (take i k)" and
    p: "(let w = drop (i + 1) k;
         v = (case index_of 40 w of None \<Rightarrow> w | Some s \<Rightarrow> take s w);
         p = (case index_of 40 w of None \<Rightarrow> [] | Some s \<Rightarrow> drop s w)
     in SEMVER_LIKE_PATTERN v \<and> peer_groups p
        \<and> pk = \<lparr>pk_rawKey = k, pk_name = take i k, pk_version = v, pk_peerSuffix = p,
                pk_normalizedKey = take i k @ [64] @ v\<rparr>)"
    by (auto simp: parsePnpmPackageKey_def validateVersion_def Let_def validateNpmPackageName_unit
        peer_groups.intros split: option.splits if_splits)
  have k: "k = take i k @ [64] @ drop (i + 1) k" using delimiter_split[OF i] by simp
  show ?R
  proof (cases "index_of 40 (drop (i + 1) k)")
    case None
    with k name p show ?thesis
      by (intro exI[of _ "take i k"] exI[of _ "drop (i + 1) k"] exI[of _ "[]"]) (simp add: Let_def)
  next
    case (Some s)
    with k name p show ?thesis
      by (intro exI[of _ "take i k"] exI[of _ "take s (drop (i + 1) k)"]
          exI[of _ "drop s (drop (i + 1) k)"]) (simp only: Let_def option.case append_take_drop_id simp_thms)
  qed
next
  assume ?R
  then obtain n v p where k: "k = n @ 64 # v @ p" and ok: "npm_name n" "SEMVER_LIKE_PATTERN v" "peer_groups p"
    and pk: "pk = \<lparr>pk_rawKey = k, pk_name = n, pk_version = v, pk_peerSuffix = p,
                pk_normalizedKey = n @ [64] @ v\<rparr>" by auto
  have n: "n \<noteq> []" using ok(1) part_chars by (auto simp: npm_name_def)
  have v: "40 \<notin> set v" "v \<noteq> []" using semver_no_special semver_not_Nil ok(2) by auto
  have i: "index_of 40 (v @ p) = (if p = [] then None else Some (length v))"
    using v peer_groups_head[OF ok(3)] index_of_append_notin[of 40 v "tl p"]
    by (cases p) (auto simp: index_of_None_iff)
  show ?L
    using n v ok delimiter_of_name[OF ok(1), of "v @ p"] i pk k
    by (auto simp: parsePnpmPackageKey_def validateVersion_def Let_def split: if_splits)
qed
text \<open>C10: the reader of package keys accepts exactly the language of the grammar
  name, at sign, version, peer suffix, and splits a key into exactly these parts.\<close>

theorem package_key_grammar:
  "parsePnpmPackageKey (JStr k) = Inr pk \<longleftrightarrow>
     (\<exists>n v p. k = n @ [64] @ v @ p \<and> npm_name n \<and> SEMVER_LIKE_PATTERN v \<and> peer_groups p
        \<and> pk = \<lparr>pk_rawKey = k, pk_name = n, pk_version = v, pk_peerSuffix = p,
                pk_normalizedKey = n @ [64] @ v\<rparr>)"
  by (rule parsePnpmPackageKey_iff)

lemma name_at_inject:
  "npm_name n \<Longrightarrow> npm_name n' \<Longrightarrow> n @ 64 # v = n' @ 64 # v' \<longleftrightarrow> n = n' \<and> v = v'"
  using delimiter_of_name[of n v] delimiter_of_name[of n' v'] by auto

text \<open>within the inventory the normalised key is unambiguous: two keys with the same
  normalised key have the same name and the same version.\<close>

theorem normalized_key_unambiguous:
  assumes "parsePnpmPackageKey (JStr k) = Inr pk" "parsePnpmPackageKey (JStr k') = Inr pk'"
    and "pk_normalizedKey pk = pk_normalizedKey pk'"
  shows "pk_name pk = pk_name pk' \<and> pk_version pk = pk_version pk'"
  using assms by (auto simp: parsePnpmPackageKey_iff name_at_inject)

lemma sample_keys:
  "parsePnpmPackageKey (JStr (js ''a@1.0.0(b@2)'')) =
     Inr \<lparr>pk_rawKey = js ''a@1.0.0(b@2)'', pk_name = js ''a'', pk_version = js ''1.0.0'',
          pk_peerSuffix = js ''(b@2)'', pk_normalizedKey = js ''a@1.0.0''\<rparr>"
  "parsePnpmPackageKey (JStr (js ''a@1.0.0'')) =
     Inr \<lparr>pk_rawKey = js ''a@1.0.0'', pk_name = js ''a'', pk_version = js ''1.0.0'',
          pk_peerSuffix = [], pk_normalizedKey = js ''a@1.0.0''\<rparr>"
  by (simp_all add: parsePnpmPackageKey_def js_def packageDelimiterIndex_def starts_with_def
      validateNpmPackageName_def PACKAGE_PART_PATTERN_def char_class_defs validateVersion_def
      SEMVER_LIKE_PATTERN_def number_dot_def suffix_ok_def validatePeerSuffix_def peerCharacter_app Let_def
      del: validateNpmPackageName_iff validatePeerSuffix_iff)

theorem normalized_key_unambiguous_witness:
  "pk_name \<lparr>pk_rawKey = js ''a@1.0.0(b@2)'', pk_name = js ''a'', pk_version = js ''1.0.0'',
          pk_peerSuffix = js ''(b@2)'', pk_normalizedKey = js ''a@1.0.0''\<rparr> = js ''a''
   \<and> pk_version \<lparr>pk_rawKey = js ''a@1.0.0'', pk_name = js ''a'', pk_version = js ''1.0.0'',
          pk_peerSuffix = [], pk_normalizedKey = js ''a@1.0.0''\<rparr> = js ''1.0.0''"
  using normalized_key_unambiguous[OF sample_keys] by simp

section \<open>Mapping entries\<close>

definition single_quoted :: "jstring \<Rightarrow> jstring" where
  "single_quoted k = 39 # concat (map (\<lambda>c. if c = 39 then [39, 39] else [c]) k) @ [39]"

lemma parseSingleQuotedKey_quoted:
  "\<not> starts_with r [39] \<Longrightarrow>
     parseSingleQuotedKey (concat (map (\<lambda>c. if c = 39 then [39, 39] else [c]) k) @ 39 # r) = Inr (k, r)"
proof (induction k)
  case Nil
  then show ?case by (cases r) auto
qed simp

lemma double_quoted_body_scan: "scanString s = Inr (b, r) \<Longrightarrow> double_quoted_body s = Some (b, r)"
proof (induction s arbitrary: b r rule: scanString.induct)
  case (2 c s)
  show ?case
  proof (cases "c = 92")
    case True
    with 2(4) obtain e s' where s: "s = e # s'"
      by (cases s) (auto split: if_splits)
    show ?thesis
    proof (cases "e = 117")
      case e: True
      with 2(4) True s obtain b' where
        *: "scanString (drop 4 s') = Inr (b', r)" "b = 92 # 117 # take 4 s' @ b'"
          "length (take 4 s') = 4" "list_all is_hex (take 4 s')"
        by (auto split: if_splits prod.splits)
      have d: "double_quoted_body (drop 4 s') = Some (b', r)"
        using 2(2) * True s e by auto
      obtain h1 h2 h3 h4 t where s': "s' = h1 # h2 # h3 # h4 # t"
        using *(3) by (cases s' rule: remdups_adj.cases; cases "tl (tl s')" rule: remdups_adj.cases) auto
      have "is_hex h \<Longrightarrow> h \<noteq> 34 \<and> h \<noteq> 92" for h by (auto simp: char_class_defs)
      with * d s' True s e show ?thesis by auto
    next
      case False
      with 2(4) True s obtain b' where
        "scanString s' = Inr (b', r)" "b = 92 # e # b'" "e \<in> {34, 92, 47, 98, 102, 110, 114, 116}"
        by (auto split: if_splits prod.splits)
      with 2(1) True s show ?thesis by auto
    qed
  next
    case False
    with 2 show ?thesis by (auto split: if_splits prod.splits)
  qed
qed simp

lemma parseDoubleQuotedKey_quoted:
  "parseDoubleQuotedKey (quote_body k @ 34 # r) = Inr (k, r)"
  using double_quoted_body_scan[OF scan_quote_body[of k r]]
  by (simp add: parseDoubleQuotedKey_def unescape_quote_body)

text \<open>C11: every key, whatever characters it contains, is read back from its single-quoted and
  from its double-quoted form, and the value is the trimmed rest of the line without a comment.\<close>

theorem mapping_entry_round_trip:
  "parseMappingEntry (single_quoted k @ [58] @ v)
           = Inr (k, if starts_with (trim v) [35] then [] else trim v)
       \<and> parseMappingEntry (quote k @ [58] @ v)
           = Inr (k, if starts_with (trim v) [35] then [] else trim v)"
  using parseSingleQuotedKey_quoted[of "58 # v" k] parseDoubleQuotedKey_quoted[of k "58 # v"]
  by (simp add: parseMappingEntry_def single_quoted_def quote_def Let_def)

section \<open>Document splitting\<close>

definition content_line :: "srcline \<Rightarrow> bool" where
  "content_line l \<longleftrightarrow> \<not> blank_line l \<and> ltext l \<noteq> js ''---''"

lemma separator_not_blank: "ltext l = js ''---'' \<Longrightarrow> \<not> blank_line l"
  by (simp add: blank_line_def) (rule trim_not_Nil, simp_all add: js_def is_ws_def)

lemma filter_dropWhile_blank: "(\<And>x. P x \<Longrightarrow> \<not> Q x) \<Longrightarrow> filter P (dropWhile Q xs) = filter P xs"
  by (induction xs) auto

lemma filter_trimBlankLines: "filter content_line (trimBlankLines ls) = filter content_line ls"
proof -
  have "filter content_line (dropWhile blank_line xs) = filter content_line xs" for xs
    by (rule filter_dropWhile_blank) (simp add: content_line_def)
  then show ?thesis by (simp add: trimBlankLines_def flip: rev_filter)
qed

lemma trimBlankLines_ends:
  "trimBlankLines ls = [] \<or> (\<not> blank_line (hd (trimBlankLines ls)) \<and> \<not> blank_line (last (trimBlankLines ls)))"
proof -
  let ?m = "dropWhile blank_line ls"
  obtain w where w: "?m = trimBlankLines ls @ w"
    unfolding trimBlankLines_def by (metis rev_append rev_rev_ident takeWhile_dropWhile_id)
  have "\<not> blank_line (last (trimBlankLines ls))" if "trimBlankLines ls \<noteq> []"
    using that unfolding trimBlankLines_def by (metis hd_dropWhile hd_rev rev_is_Nil_conv rev_rev_ident)
  moreover have "\<not> blank_line (hd (trimBlankLines ls))" if "trimBlankLines ls \<noteq> []"
  proof -
    have "hd (trimBlankLines ls) = hd ?m" "?m \<noteq> []" using that w by (metis hd_append2, auto)
    then show ?thesis by (metis hd_dropWhile)
  qed
  ultimately show ?thesis by blast
qed

lemma trimBlankLines_set: "set (trimBlankLines ls) \<subseteq> set ls"
  unfolding trimBlankLines_def using set_dropWhileD by (metis set_rev subsetI)

definition split_inv :: "split_state \<Rightarrow> srcline list \<Rightarrow> bool" where
  "split_inv st ls \<longleftrightarrow>
     sp_bodies st = map document_body (sp_documents st) \<and> distinct (sp_bodies st)
     \<and> (\<forall>d \<in> set (sp_documents st). d \<noteq> [] \<and> \<not> blank_line (hd d) \<and> \<not> blank_line (last d)
           \<and> (\<forall>l \<in> set d. ltext l \<noteq> js ''---''))
     \<and> (\<forall>l \<in> set (sp_current st). ltext l \<noteq> js ''---'')
     \<and> filter content_line (concat (sp_documents st) @ sp_current st) = filter content_line ls"

lemma split_inv_finalize:
  assumes "finalizeDocument st = Inr st'" "split_inv st ls"
  shows "split_inv (st'\<lparr>sp_current := [], sp_sawSeparator := b\<rparr>) ls" "sp_documents st' \<noteq> []"
proof -
  let ?t = "trimBlankLines (sp_current st)"
  have t: "?t \<noteq> []" "document_body ?t \<notin> set (sp_bodies st)"
    and st': "st' = st\<lparr>sp_documents := sp_documents st @ [?t], sp_bodies := sp_bodies st @ [document_body ?t]\<rparr>"
    using assms(1) by (auto simp: finalizeDocument_def Let_def split: if_splits)
  have "\<forall>l \<in> set ?t. ltext l \<noteq> js ''---''"
    using assms(2) trimBlankLines_set[of "sp_current st"] by (auto simp: split_inv_def)
  then show "split_inv (st'\<lparr>sp_current := [], sp_sawSeparator := b\<rparr>) ls"
    using assms(2) t st' trimBlankLines_ends[of "sp_current st"]
    by (auto simp: split_inv_def filter_trimBlankLines)
  show "sp_documents st' \<noteq> []" using st' by simp
qed

lemma split_inv_line:
  assumes "split_inv st ls" "splitLine st l = Inr st'"
  shows "split_inv st' (ls @ [l])"
proof (cases "ltext l = js ''---''")
  case False
  then have "st' = st\<lparr>sp_current := sp_current st @ [l]\<rparr>"
    using assms(2) by (auto simp: splitLine_def split: if_splits)
  with False assms(1) show ?thesis by (auto simp: split_inv_def)
next
  case sep: True
  have c: "\<not> content_line l" using sep by (simp add: content_line_def)
  show ?thesis
  proof (cases "sp_documents st = [] \<and> \<not> sp_sawSeparator st \<and> sp_current st = []")
    case True
    with sep have "st' = st\<lparr>sp_sawSeparator := True\<rparr>"
      using assms(2) by (auto simp: splitLine_def split: if_splits)
    with assms(1) c show ?thesis by (auto simp: split_inv_def)
  next
    case False
    with sep obtain s1 where s1: "finalizeDocument st = Inr s1"
      "st' = s1\<lparr>sp_current := [], sp_sawSeparator := True\<rparr>"
      using assms(2) by (auto simp: splitLine_def split: if_splits)
    from split_inv_finalize(1)[OF s1(1) assms(1), of True] s1(2) c show ?thesis
      by (auto simp: split_inv_def)
  qed
qed

lemma splitYamlDocuments_Inr:
  assumes "splitYamlDocuments (JStr s) = Inr docs"
  shows "docs \<noteq> [] \<and> distinct (map document_body docs)
    \<and> (\<forall>d \<in> set docs. d \<noteq> [] \<and> \<not> blank_line (hd d) \<and> \<not> blank_line (last d)
         \<and> (\<forall>l \<in> set d. ltext l \<noteq> js ''---''))
    \<and> filter content_line (concat docs)
        = filter content_line (numbered (split_on 10 (crlf_to_lf s)))"
proof -
  let ?ls = "numbered (split_on 10 (crlf_to_lf s))"
  obtain st st' where st: "foldR splitLine \<lparr>sp_documents = [], sp_bodies = [], sp_current = [],
      sp_sawSeparator = False\<rparr> ?ls = Inr st" "finalizeDocument st = Inr st'" "docs = sp_documents st'"
    using assms by (auto simp: splitYamlDocuments_def Let_def split: if_splits)
  have "split_inv st ([] @ ?ls)"
    by (rule foldR_prefix[OF st(1)]) (simp add: split_inv_def, rule split_inv_line)
  then have "split_inv (st'\<lparr>sp_current := [], sp_sawSeparator := True\<rparr>) ?ls"
    by (intro split_inv_finalize(1)[OF st(2)]) simp
  moreover have "docs \<noteq> []"
    using split_inv_finalize(2)[OF st(2) \<open>split_inv st ([] @ ?ls)\<close>] st(3) by simp
  ultimately show ?thesis using st(3) by (auto simp: split_inv_def)
qed

text \<open>splitting a lockfile loses nothing and invents nothing: the documents are nonempty,
  pairwise different, free of separators, and their lines that are not blank are, in order, all
  the lines of the text that are neither blank nor separators.\<close>

theorem document_split_is_lossless:
  assumes "splitYamlDocuments (JStr s) = Inr docs"
  shows "docs \<noteq> [] \<and> distinct (map document_body docs)
    \<and> (\<forall>d \<in> set docs. d \<noteq> [] \<and> \<not> blank_line (hd d) \<and> \<not> blank_line (last d)
         \<and> (\<forall>l \<in> set d. ltext l \<noteq> js ''---''))
    \<and> filter content_line (concat docs)
        = filter content_line (numbered (split_on 10 (crlf_to_lf s)))"
  using assms by (rule splitYamlDocuments_Inr)

section \<open>Scope counts\<close>

definition scope_names :: "jstring list" where
  "scope_names = DIRECT_SCOPE_NAMES @ [js ''unknown'']"

definition count_scopes :: "dependency list \<Rightarrow> scope_counts" where
  "count_scopes deps = map (\<lambda>s. (s, length (filter (\<lambda>d. d_scope d = s) deps))) scope_names"

definition scope_of :: "jstring \<Rightarrow> jstring" where
  "scope_of section = (if section \<in> set DIRECT_SCOPE_NAMES then section else js ''unknown'')"

lemma distinct_scope_names: "distinct scope_names"
  by (simp add: scope_names_def DIRECT_SCOPE_NAMES_def)

lemma count_scopes_Nil: "emptyScopeCounts = count_scopes []"
  by (simp add: emptyScopeCounts_def count_scopes_def scope_names_def)

lemma count_scopes_snoc: "add_count (count_scopes ds) (d_scope d) 1 = count_scopes (ds @ [d])"
  by (auto simp: add_count_def count_scopes_def)

lemma add_counts_eq:
  "distinct (map fst c) \<Longrightarrow>
     add_counts m c = map (\<lambda>(k, v). (k, v + (case map_of c k of Some n \<Rightarrow> n | None \<Rightarrow> 0))) m"
proof (induction c arbitrary: m)
  case Nil
  show ?case by (simp add: add_counts_def case_prod_beta)
next
  case (Cons x c)
  obtain s n where x: "x = (s, n)" by (cases x)
  with Cons.prems have "map_of c s = None" by (simp add: map_of_eq_None_iff)
  moreover have "add_counts m (x # c) = add_counts (add_count m s n) c"
    by (simp add: add_counts_def x)
  ultimately show ?case using Cons by (auto simp: x add_count_def)
qed

lemma add_counts_scopes: "add_counts (count_scopes a) (count_scopes b) = count_scopes (a @ b)"
proof -
  have d: "distinct (map fst (count_scopes b))"
    by (simp add: count_scopes_def comp_def distinct_scope_names)
  have m: "map_of (count_scopes b) s = Some (length (filter (\<lambda>d. d_scope d = s) b))"
    if "s \<in> set scope_names" for s
    using that by (simp add: count_scopes_def map_of_map_restrict)
  show ?thesis unfolding add_counts_eq[OF d] by (simp add: count_scopes_def m[unfolded count_scopes_def])
qed

lemma add_counts_fold:
  "foldl add_counts (count_scopes a) (map count_scopes bs) = count_scopes (a @ concat bs)"
  by (induction bs arbitrary: a) (auto simp: add_counts_scopes)

section \<open>Importers\<close>

text \<open>What a list of direct dependencies promises: valid names, the scope determined by the
  section, and no dependency declared twice in a section of an importer.\<close>

definition deps_ok :: "dependency list \<Rightarrow> bool" where
  "deps_ok deps \<longleftrightarrow>
     distinct (map (\<lambda>d. (d_importer d, d_section d, d_name d)) deps)
     \<and> (\<forall>d \<in> set deps. npm_name (d_name d) \<and> d_importer d \<noteq> [] \<and> d_section d \<noteq> []
          \<and> d_scope d = scope_of (d_section d))"

definition importer_inv :: "importer_state \<Rightarrow> bool" where
  "importer_inv st \<longleftrightarrow>
     deps_ok (im_directDependencies st)
     \<and> im_scopeCounts st = count_scopes (im_directDependencies st)
     \<and> (\<forall>d \<in> set (im_directDependencies st). d_importer d \<in> set (im_seenImporters st))
     \<and> (\<forall>i. im_importer st = Some i \<longrightarrow> i \<in> set (im_seenImporters st)
          \<and> (\<forall>d \<in> set (im_directDependencies st). d_importer d = i \<longrightarrow>
               d_section d @ [0] @ d_name d \<in> set (im_seenDependencies st)))
     \<and> (\<forall>sc. im_scope st = Some sc \<longrightarrow>
          (\<exists>sec. im_declaredSection st = Some sec \<and> sc = scope_of sec))"

lemma importer_inv_start: "importer_inv importer_start"
  by (simp add: importer_inv_def importer_start_def deps_ok_def count_scopes_Nil)

lemma importer_inv_entry: "importerEntry st l = Inr st' \<Longrightarrow> importer_inv st \<Longrightarrow> importer_inv st'"
  by (auto simp: importerEntry_def importer_inv_def split: if_splits prod.splits)

lemma importer_inv_section:
  assumes "importerSectionEntry st l = Inr st'" "importer_inv st"
  shows "importer_inv st'"
proof -
  obtain key v where k: "parseMappingEntry (drop 4 (ltext l)) = Inr (key, v)"
    using assms(1) by (cases "parseMappingEntry (drop 4 (ltext l))") (auto simp: importerSectionEntry_def)
  have "st' = st\<lparr>im_seenSections := im_seenSections st @ [key], im_declaredSection := Some key,
      im_scope := Some (scope_of key), im_sectionAllowsChildren := (v = []),
      im_dependencyAllowsChildren := False, im_currentDependency := None\<rparr>"
    using assms(1) by (simp add: importerSectionEntry_def k scope_of_def split: if_splits)
  with assms(2) show ?thesis by (simp add: importer_inv_def)
qed

lemma importer_inv_dependency:
  assumes "dependencyEntry src n st l = Inr st'" "importer_inv st" "\<not> unset (im_importer st)"
  shows "importer_inv st'"
proof -
  obtain i where i: "im_importer st = Some i" "i \<noteq> []" using assms(3) by (auto simp: unset_def)
  have "\<not> unset (im_declaredSection st)" "\<not> unset (im_scope st)"
    using assms(1) by (auto simp: dependencyEntry_def split: if_splits)
  then obtain sec sc where sec0: "im_declaredSection st = Some sec" "sec \<noteq> []" "im_scope st = Some sc"
    by (auto simp: unset_def)
  with assms(2) have "sc = scope_of sec" by (auto simp: importer_inv_def)
  with sec0 have sec: "im_declaredSection st = Some sec" "sec \<noteq> []" "im_scope st = Some (scope_of sec)"
    by simp_all
  let ?d = "\<lambda>k. \<lparr>d_source = src, d_documentNumber = n, d_lineNumber = lineNumber l, d_importer = i,
      d_section = sec, d_scope = scope_of sec, d_name = k\<rparr>"
  obtain key b where key: "npm_name key" "sec @ [0] @ key \<notin> set (im_seenDependencies st)"
    and st': "st' = st\<lparr>im_seenDependencies := im_seenDependencies st @ [sec @ [0] @ key],
       im_scopeCounts := add_count (im_scopeCounts st) (d_scope (?d key)) 1,
       im_directDependencies := im_directDependencies st @ [?d key],
       im_currentDependency := Some key, im_dependencyAllowsChildren := b\<rparr>"
    using assms(1) i sec
    by (auto simp: dependencyEntry_def Let_def validateNpmPackageName_unit split: if_splits prod.splits)
  have "(i, sec, key) \<notin> set (map (\<lambda>d. (d_importer d, d_section d, d_name d)) (im_directDependencies st))"
    using assms(2) key(2) i(1) by (auto simp: importer_inv_def)
  then have "deps_ok (im_directDependencies st @ [?d key])"
    using assms(2) key i(2) sec(2) by (auto simp: importer_inv_def deps_ok_def)
  moreover have "im_scopeCounts st' = count_scopes (im_directDependencies st @ [?d key])"
    using assms(2) unfolding importer_inv_def st' by (simp add: count_scopes_snoc[of _ "?d key", simplified])
  ultimately show ?thesis using assms(2) i sec by (auto simp: importer_inv_def st')
qed

lemma importer_inv_line: "importerLine src n st l = Inr st' \<Longrightarrow> importer_inv st \<Longrightarrow> importer_inv st'"
  by (auto simp: importerLine_def Let_def split: if_splits
      intro: importer_inv_entry importer_inv_section importer_inv_dependency)

lemma parseImporterSection_Inr:
  assumes "parseImporterSection ls ss s src n = Inr (deps, counts)"
  shows "deps_ok deps \<and> counts = count_scopes deps"
proof (cases "s_value s = js ''{}''")
  case True
  with assms show ?thesis by (auto simp: parseImporterSection_def deps_ok_def count_scopes_Nil)
next
  case False
  with assms obtain st where st: "foldR (importerLine src n) importer_start (section_lines ls ss s) = Inr st"
    "deps = im_directDependencies st" "counts = im_scopeCounts st"
    by (auto simp: parseImporterSection_def split: if_splits)
  have "importer_inv st"
    by (rule foldR_invariant[where I = importer_inv, OF st(1) importer_inv_start]) (rule importer_inv_line)
  with st show ?thesis by (simp add: importer_inv_def)
qed

section \<open>Documents and the inventory\<close>

definition packages_ok :: "lock_package list \<Rightarrow> bool" where
  "packages_ok ps \<longleftrightarrow> distinct (map (pk_rawKey \<circ> lp_key) ps)
     \<and> (\<forall>p \<in> set ps. parsePnpmPackageKey (JStr (pk_rawKey (lp_key p))) = Inr (lp_key p))"

lemma packageLine_inv:
  assumes "packageLine src n (ps, ks) l = Inr (ps', ks')"
    and "packages_ok ps" "ks = map (pk_rawKey \<circ> lp_key) ps"
  shows "packages_ok ps' \<and> ks' = map (pk_rawKey \<circ> lp_key) ps'"
proof -
  consider (skip) "ps' = ps" "ks' = ks"
    | (add) k pk where "k \<notin> set ks" "parsePnpmPackageKey (JStr k) = Inr pk" "ks' = ks @ [k]"
      "ps' = ps @ [\<lparr>lp_source = src, lp_documentNumber = n, lp_lineNumber = lineNumber l, lp_key = pk\<rparr>]"
  proof (cases "isBlankOrComment (ltext l) \<or> leadingSpaces (ltext l) > 2")
    case True
    with assms(1) have "ps' = ps" "ks' = ks" by (auto simp: packageLine_def Let_def split: if_splits)
    then show thesis by (rule skip)
  next
    case False
    obtain k v where k: "parseMappingEntry (drop 2 (ltext l)) = Inr (k, v)"
      using assms(1) False by (cases "parseMappingEntry (drop 2 (ltext l))")
        (auto simp: packageLine_def Let_def split: if_splits)
    obtain pk where pk: "parsePnpmPackageKey (JStr k) = Inr pk"
      using assms(1) False k by (cases "parsePnpmPackageKey (JStr k)")
        (auto simp: packageLine_def Let_def split: if_splits)
    have "k \<notin> set ks" "ks' = ks @ [k]"
      "ps' = ps @ [\<lparr>lp_source = src, lp_documentNumber = n, lp_lineNumber = lineNumber l, lp_key = pk\<rparr>]"
      using assms(1) False k pk by (auto simp: packageLine_def Let_def split: if_splits)
    with pk show thesis by (intro add)
  qed
  then show ?thesis
  proof cases
    case (add k pk)
    then have "pk_rawKey pk = k" by (auto simp: parsePnpmPackageKey_iff)
    with add assms(2,3) show ?thesis by (auto simp: packages_ok_def)
  qed (use assms in simp)
qed

lemma parsePackageSection_Inr:
  assumes "parsePackageSection ls ss s src n = Inr ps"
  shows "ps \<noteq> [] \<and> packages_ok ps"
proof -
  obtain ks where f: "foldR (packageLine src n) ([], []) (section_lines ls ss s) = Inr (ps, ks)" "ps \<noteq> []"
    using assms by (auto simp: parsePackageSection_def split: if_splits)
  have "case (ps, ks) of (ps, ks) \<Rightarrow> packages_ok ps \<and> ks = map (pk_rawKey \<circ> lp_key) ps"
    by (rule foldR_invariant[OF f(1)]) (auto simp: packages_ok_def dest: packageLine_inv)
  with f(2) show ?thesis by simp
qed

text \<open>What a parsed document promises.\<close>

definition document_ok :: "jstring \<Rightarrow> lock_document \<Rightarrow> bool" where
  "document_ok expectedVersion d \<longleftrightarrow>
     ld_lockfileVersion d = expectedVersion
     \<and> ld_packages d \<noteq> [] \<and> ld_packageCount d = length (ld_packages d) \<and> packages_ok (ld_packages d)
     \<and> deps_ok (ld_directDependencies d)
     \<and> ld_scopeCounts d = count_scopes (ld_directDependencies d)"

lemma parseLockDocument_Inr:
  assumes "parseLockDocument ls src n ver = Inr d"
  shows "document_ok ver d \<and> ld_text d = document_body ls @ [10]"
proof -
  obtain sections where s: "parseTopLevelSections ls = Inr sections"
    using assms by (auto simp: parseLockDocument_def Let_def)
  obtain entry where e: "find_section ''lockfileVersion'' sections = Some entry"
    using assms s by (cases "find_section ''lockfileVersion'' sections") (auto simp: parseLockDocument_def)
  have v: "parseScalarString (s_value entry) = Inr ver"
    using assms s e by (auto simp: parseLockDocument_def Let_def split: if_splits)
  obtain sec where sec: "find_section ''packages'' sections = Some sec"
    using assms s e v by (cases "find_section ''packages'' sections") (auto simp: parseLockDocument_def)
  obtain ps deps counts where *:
    "parsePackageSection ls sections sec (src @ js ''#document-'' @ nat_text n) n = Inr ps"
    "(case find_section ''importers'' sections of None \<Rightarrow> Inr ([], emptyScopeCounts)
      | Some s \<Rightarrow> parseImporterSection ls sections s (src @ js ''#document-'' @ nat_text n) n)
       = Inr (deps, counts)"
    "d = \<lparr>ld_source = src @ js ''#document-'' @ nat_text n, ld_documentNumber = n,
          ld_text = document_body ls @ [10], ld_lockfileVersion = ver,
          ld_packageCount = length ps, ld_packages = ps, ld_directDependencies = deps,
          ld_scopeCounts = counts\<rparr>"
    using assms by (auto simp: parseLockDocument_def Let_def s e v sec split: if_splits)
  have "deps_ok deps \<and> counts = count_scopes deps"
    using *(2) parseImporterSection_Inr by (auto simp: deps_ok_def count_scopes_Nil split: option.splits)
  with parsePackageSection_Inr[OF *(1)] *(3) show ?thesis by (simp add: document_ok_def)
qed

text \<open>C12: an accepted lockfile has at least one document; the documents have different texts and
  the expected version; in each of them the packages are nonempty, listed once per key and
  parsed from that key; direct dependencies have valid names, the scope of their section, and are
  not repeated; and the totals of the inventory are those of its documents, the scope counts
  being the number of direct dependencies of each scope.\<close>

theorem lock_inventory_is_consistent:
  assumes "parsePnpmLockInventory lockText options = Inr iv"
  shows "li_documents iv \<noteq> [] \<and> distinct (map ld_text (li_documents iv))
    \<and> (\<forall>d \<in> set (li_documents iv). document_ok (li_expectedLockfileVersion iv) d)
    \<and> li_documentCount iv = length (li_documents iv)
    \<and> li_packages iv = concat (map ld_packages (li_documents iv))
    \<and> li_packageCount iv = length (li_packages iv)
    \<and> li_directDependencies iv = concat (map ld_directDependencies (li_documents iv))
    \<and> li_scopeCounts iv = count_scopes (li_directDependencies iv)"
proof -
  obtain s where s: "lockText = JStr s"
    using assms by (cases lockText)
      (auto simp: parsePnpmLockInventory_def splitYamlDocuments_def split: jsval.splits if_splits)
  obtain src ver splits docs where *: "splitYamlDocuments (JStr s) = Inr splits"
    "mapR (\<lambda>(index, ls). parseLockDocument ls src (index + 1) ver) (enumerate 0 splits) = Inr docs"
    "li_documents iv = docs" "li_expectedLockfileVersion iv = ver" "li_documentCount iv = length docs"
    "li_packages iv = concat (map ld_packages docs)" "li_packageCount iv = length (li_packages iv)"
    "li_directDependencies iv = concat (map ld_directDependencies docs)"
    "li_scopeCounts iv = foldl add_counts emptyScopeCounts (map ld_scopeCounts docs)"
    using assms s by (auto simp: parsePnpmLockInventory_def Let_def split: jsval.splits if_splits)
  have all: "list_all2 (\<lambda>(i, ls) d. parseLockDocument ls src (i + 1) ver = Inr d) (enumerate 0 splits) docs"
    by (rule list_all2_mono[OF *(2)[unfolded mapR_Inr_iff]]) auto
  then have "list_all2 (\<lambda>x d. ld_text d = document_body (snd x) @ [10] \<and> document_ok ver d)
      (enumerate 0 splits) docs"
    by (rule list_all2_mono) (auto dest: parseLockDocument_Inr)
  then have ok: "\<forall>d \<in> set docs. document_ok ver d"
    and "map ld_text docs = map (\<lambda>x. document_body (snd x) @ [10]) (enumerate 0 splits)"
    by (induction rule: list_all2_induct) auto
  then have tx: "map ld_text docs = map (\<lambda>b. b @ [10]) (map document_body (map snd (enumerate 0 splits)))"
    by (simp only: list.map_comp comp_def)
  have len: "length docs = length splits" using list_all2_lengthD[OF all] by simp
  from splitYamlDocuments_Inr[OF *(1)] have "splits \<noteq> []" "distinct (map document_body splits)" by auto
  then have "distinct (map ld_text docs)" unfolding tx by (subst distinct_map) (simp add: inj_on_def)
  moreover have "docs \<noteq> []" using len \<open>splits \<noteq> []\<close> by auto
  moreover have "map ld_scopeCounts docs = map count_scopes (map ld_directDependencies docs)"
    using ok by (auto simp: document_ok_def)
  then have "li_scopeCounts iv = count_scopes (li_directDependencies iv)"
    unfolding *(8,9) count_scopes_Nil by (simp only: add_counts_fold append_Nil)
  ultimately show ?thesis using * ok by simp
qed

section \<open>Parity with an OSV result\<close>

definition pair_ok :: "name_version \<Rightarrow> bool" where
  "pair_ok p \<longleftrightarrow> npm_name (fst p) \<and> SEMVER_LIKE_PATTERN (snd p)"

definition plain :: "nat \<Rightarrow> bool" where
  "plain c \<longleftrightarrow> 32 \<le> c \<and> c < 127 \<and> c \<noteq> 34 \<and> c \<noteq> 92"

lemma quote_body_plain: "\<forall>c \<in> set s. plain c \<Longrightarrow> quote_body s = s"
  by (induction s rule: quote_body.induct) (auto simp: plain_def short_escape_def is_high_def is_low_def)

lemma part_plain: "PACKAGE_PART_PATTERN s \<Longrightarrow> c \<in> set s \<Longrightarrow> plain c"
  by (force simp: plain_def PACKAGE_PART_PATTERN_def list_all_iff char_class_defs)

lemma npm_name_plain: "npm_name n \<Longrightarrow> \<forall>c \<in> set n. plain c"
  by (auto simp: npm_name_def part_plain) (simp_all add: plain_def)

lemma semver_plain: "SEMVER_LIKE_PATTERN v \<Longrightarrow> \<forall>c \<in> set v. plain c"
  using semver_chars[of v] by (force simp: plain_def char_class_defs)

lemma package_pair_key_inj: "inj_on package_pair_key {p. pair_ok p}"
proof (rule inj_onI, unfold mem_Collect_eq)
  fix p q assume ok: "pair_ok p" "pair_ok q" and eq: "package_pair_key p = package_pair_key q"
  have "fst p @ 34 # 44 # 34 # snd p @ [34, 93] = fst q @ 34 # 44 # 34 # snd q @ [34, 93]"
    using eq ok by (auto simp: package_pair_key_def quote_def pair_ok_def quote_body_plain[OF npm_name_plain]
        quote_body_plain[OF semver_plain])
  moreover have "34 \<notin> set (fst p)" "34 \<notin> set (fst q)"
    using ok npm_name_plain[of "fst p"] npm_name_plain[of "fst q"] by (auto simp: pair_ok_def plain_def)
  ultimately show "p = q" by (simp add: notin_append_inject prod_eq_iff)
qed

lemma normalizeInventoryPackage_ok: "normalizeInventoryPackage p = Inr x \<Longrightarrow> pair_ok x"
  by (auto simp: normalizeInventoryPackage_def parsePnpmPackageKey_iff pair_ok_def split: jsval.splits)

lemma osvPackage_ok: "osvPackage e = Inr x \<Longrightarrow> pair_ok x"
  by (auto simp: osvPackage_def normalizeInventoryPackage_ok split: if_splits)

definition sources_ok :: "source_map \<Rightarrow> bool" where
  "sources_ok m \<longleftrightarrow> distinct (map fst m) \<and> (\<forall>e \<in> set m. \<forall>p \<in> set (snd e). pair_ok p)"

lemma sources_ok_snoc:
  "sources_ok m \<Longrightarrow> s \<notin> fst ` set m \<Longrightarrow> (\<And>p. p \<in> set ps \<Longrightarrow> pair_ok p) \<Longrightarrow> sources_ok (m @ [(s, ps)])"
  by (auto simp: sources_ok_def)

lemma expectedSource_ok:
  assumes "expectedSource m x = Inr m'" "sources_ok m"
  shows "sources_ok m'"
proof -
  obtain s xs ps where *: "s \<notin> fst ` set m" "mapR normalizeInventoryPackage xs = Inr ps" "m' = m @ [(s, ps)]"
    using assms(1) by (auto simp: expectedSource_def split: jsval.splits if_splits)
  have "pair_ok p" if "p \<in> set ps" for p
    using mapR_Inr_set[OF *(2) that] normalizeInventoryPackage_ok by blast
  with * assms(2) show ?thesis by (simp add: sources_ok_snoc)
qed

lemma osvSource_ok:
  assumes "osvSource m x = Inr m'" "sources_ok m"
  shows "sources_ok m'"
proof -
  obtain s xs ps where *: "s \<notin> fst ` set m" "mapR osvPackage xs = Inr ps" "m' = m @ [(s, ps)]"
    using assms(1) by (auto simp: osvSource_def split: jsval.splits if_splits)
  have "pair_ok p" if "p \<in> set ps" for p
    using mapR_Inr_set[OF *(2) that] osvPackage_ok by blast
  with * assms(2) show ?thesis by (simp add: sources_ok_snoc)
qed

lemma normalizeExpectedSources_ok: "normalizeExpectedSources x = Inr m \<Longrightarrow> sources_ok m"
  unfolding normalizeExpectedSources_def
  by (auto split: jsval.splits if_splits intro: expectedSource_ok
      elim!: foldR_invariant[where I = sources_ok]) (simp add: sources_ok_def)

lemma normalizeOsvSources_ok: "normalizeOsvSources x = Inr m \<Longrightarrow> sources_ok m"
  unfolding normalizeOsvSources_def
  by (auto split: jsval.splits if_splits intro: osvSource_ok
      elim!: foldR_invariant[where I = sources_ok]) (simp add: sources_ok_def)

lemma sources_ok_lookup: "sources_ok m \<Longrightarrow> map_of m s = Some ps \<Longrightarrow> set ps \<subseteq> {p. pair_ok p}"
  by (auto simp: sources_ok_def dest: map_of_SomeD)

lemma multisetDifference_Nil_iff:
  "multisetDifference (tally xs) (tally ys) = [] \<longleftrightarrow> mset xs \<subseteq># mset ys"
proof -
  have "multisetDifference (tally xs) (tally ys) = [] \<longleftrightarrow>
      (\<forall>k \<in> set xs. count (mset xs) k \<le> count (mset ys) k)"
    by (auto simp: multisetDifference_def filter_empty_conv not_less)
  also have "\<dots> \<longleftrightarrow> mset xs \<subseteq># mset ys"
    unfolding subseteq_mset_def by (metis count_mset_0_iff zero_le)
  finally show ?thesis .
qed

lemma sourceParity_iff:
  assumes "sources_ok expected" "sources_ok actual"
    and "map_of expected s = Some e" "map_of actual s = Some a"
  shows "sourceParity expected actual u s = Inr v \<longleftrightarrow> mset e = mset a"
proof -
  have "sourceParity expected actual u s = Inr v \<longleftrightarrow>
      mset (map package_pair_key e) = mset (map package_pair_key a)"
    using assms(3,4)
    by (auto simp: sourceParity_def toMultiset_def multisetDifference_Nil_iff Let_def simp del: mset_map)
  also have "\<dots> \<longleftrightarrow> mset e = mset a"
    by (rule mset_map_inj_on[OF package_pair_key_inj])
      (use assms in \<open>auto dest: sources_ok_lookup\<close>)
  finally show ?thesis .
qed

text \<open>The contract of the comparison: the same sources, and for each of them the same packages with
  the same multiplicities.\<close>

definition same_packages :: "source_map \<Rightarrow> source_map \<Rightarrow> bool" where
  "same_packages expected actual \<longleftrightarrow>
     fst ` set expected = fst ` set actual
     \<and> (\<forall>s \<in> fst ` set expected. \<exists>e a. map_of expected s = Some e \<and> map_of actual s = Some a
          \<and> mset e = mset a)"

lemma parity_loop:
  assumes ok: "sources_ok expected" "sources_ok actual"
  shows "filter (\<lambda>s. s \<notin> fst ` set actual) (sort (map fst expected)) = []
       \<and> filter (\<lambda>s. s \<notin> fst ` set expected) (sort (map fst actual)) = []
       \<and> foldR (sourceParity expected actual) () (sort (map fst expected)) = Inr ()
     \<longleftrightarrow> same_packages expected actual" (is "?F \<longleftrightarrow> _")
proof -
  have "?F \<longleftrightarrow> fst ` set expected = fst ` set actual
      \<and> (\<forall>s \<in> fst ` set expected. sourceParity expected actual () s = Inr ())"
    by (auto simp: filter_empty_conv foldR_unit)
  also have "\<dots> \<longleftrightarrow> same_packages expected actual"
    unfolding same_packages_def
  proof (intro conj_cong refl ball_cong)
    fix s assume "fst ` set expected = fst ` set actual" "s \<in> fst ` set expected"
    then obtain e a where "map_of expected s = Some e" "map_of actual s = Some a"
      by (metis key_iff_map_of)
    with sourceParity_iff[OF ok this] show "(sourceParity expected actual () s = Inr ()) =
        (\<exists>e a. map_of expected s = Some e \<and> map_of actual s = Some a \<and> mset e = mset a)"
      by auto
  qed
  finally show ?thesis .
qed

text \<open>C13: the OSV parity check accepts exactly when both inputs are well formed, name the same
  sources, and list for every source the same packages with the same multiplicities; the textual
  keys it counts by lose nothing.\<close>

theorem osv_parity_is_multiset_equality:
  "assertOsvSourceInventoryParity expectedSources osvResult = Inr b \<longleftrightarrow>
     b \<and> (\<exists>expected actual. normalizeExpectedSources expectedSources = Inr expected
            \<and> normalizeOsvSources osvResult = Inr actual \<and> same_packages expected actual)"
proof (cases "normalizeExpectedSources expectedSources")
  case e: (Inr expected)
  show ?thesis
  proof (cases "normalizeOsvSources osvResult")
    case (Inr actual)
    have "same_packages expected actual \<longleftrightarrow>
        filter (\<lambda>s. s \<notin> fst ` set actual) (sort (map fst expected)) = []
       \<and> filter (\<lambda>s. s \<notin> fst ` set expected) (sort (map fst actual)) = []
       \<and> foldR (sourceParity expected actual) () (sort (map fst expected)) = Inr ()"
      using parity_loop[OF normalizeExpectedSources_ok[OF e] normalizeOsvSources_ok[OF Inr]] by simp
    with e Inr show ?thesis by (auto simp: assertOsvSourceInventoryParity_def Let_def)
  qed (simp add: assertOsvSourceInventoryParity_def e)
qed (simp add: assertOsvSourceInventoryParity_def)

section \<open>Concrete runs\<close>

definition sample_lock :: jstring where
  "sample_lock = js ''lockfileVersion: '9.0'
importers:
  .:
    dependencies:
      a:
        version: 1
packages:
  a@1.0.0:
''"

lemma sample_lock_accepted:
  "case parsePnpmLockInventory (JStr sample_lock) (JObj []) of
     Inr iv \<Rightarrow> li_packageCount iv = 1 | Inl _ \<Rightarrow> False"
  by code_simp

lemma sample_split:
  "splitYamlDocuments (JStr (js ''a: 1
---
b: 2'')) = Inr [[\<lparr>lineNumber = 1, ltext = js ''a: 1''\<rparr>], [\<lparr>lineNumber = 3, ltext = js ''b: 2''\<rparr>]]"
  by code_simp

theorem document_split_is_lossless_witness:
  "\<exists>docs. length docs = 2 \<and> filter content_line (concat docs)
     = filter content_line (numbered (split_on 10 (crlf_to_lf (js ''a: 1
---
b: 2''))))"
  using document_split_is_lossless[OF sample_split]
  by (intro exI[of _ "[[\<lparr>lineNumber = 1, ltext = js ''a: 1''\<rparr>], [\<lparr>lineNumber = 3, ltext = js ''b: 2''\<rparr>]]"])
    simp

theorem lock_inventory_is_consistent_witness:
  "\<exists>iv. parsePnpmLockInventory (JStr sample_lock) (JObj []) = Inr iv \<and> li_packageCount iv = 1
     \<and> li_documents iv \<noteq> [] \<and> (\<forall>d \<in> set (li_documents iv). document_ok (li_expectedLockfileVersion iv) d)
     \<and> li_scopeCounts iv = count_scopes (li_directDependencies iv)"
proof -
  obtain iv where iv: "parsePnpmLockInventory (JStr sample_lock) (JObj []) = Inr iv" "li_packageCount iv = 1"
    using sample_lock_accepted by (auto split: sum.splits)
  from lock_inventory_is_consistent[OF iv(1)] iv show ?thesis by blast
qed

end
