(* ===== verification/Js_Objects.thy ===== *)
theory Js_Objects
  imports Strict_Json
begin

text \<open>
  More of the language, for the scripts that work on untyped documents: \<^verbatim>\<open>JSON.parse\<close> and
  \<^verbatim>\<open>JSON.stringify\<close>, conversions to text and number, the equalities, iteration, and computations
  that collect findings and may stop with a \<^verbatim>\<open>TypeError\<close>.
\<close>

section \<open>JSON.parse\<close>

text \<open>The host reader has the grammar of the strict one, but a repeated key replaces the value of
  the earlier one and a number too large for a double is an infinity.  \<open>None\<close> is a
  \<^verbatim>\<open>SyntaxError\<close>.  The fuel is the one of the strict reader.\<close>

fun json_members ::
  "(jstring \<Rightarrow> (jsval \<times> jstring) option) \<Rightarrow> nat \<Rightarrow> (jstring \<times> jsval) list \<Rightarrow> jstring
   \<Rightarrow> (jsval \<times> jstring) option" where
  "json_members pv 0 fs u = None"
| "json_members pv (Suc n) fs u =
     (if u = [] \<or> hd u \<noteq> 34 then None
      else case parseString u of
        Inl _ \<Rightarrow> None
      | Inr (k, r) \<Rightarrow>
          (let r1 = skipWhitespace r in
           if \<not> starts_with r1 [58] then None
           else case pv (skipWhitespace (tl r1)) of
             None \<Rightarrow> None
           | Some (v, r2) \<Rightarrow>
               (let r3 = skipWhitespace r2; fs' = put fs k v in
                if starts_with r3 [125] then Some (JObj fs', tl r3)
                else if \<not> starts_with r3 [44] then None
                else json_members pv n fs' (skipWhitespace (tl r3)))))"

fun json_elements ::
  "(jstring \<Rightarrow> (jsval \<times> jstring) option) \<Rightarrow> nat \<Rightarrow> jsval list \<Rightarrow> jstring
   \<Rightarrow> (jsval \<times> jstring) option" where
  "json_elements pv 0 xs u = None"
| "json_elements pv (Suc n) xs u =
     (case pv u of
        None \<Rightarrow> None
      | Some (v, r) \<Rightarrow>
          (let r1 = skipWhitespace r; xs' = xs @ [v] in
           if starts_with r1 [93] then Some (JArr xs', tl r1)
           else if \<not> starts_with r1 [44] then None
           else json_elements pv n xs' (skipWhitespace (tl r1))))"

definition json_number :: "jstring \<Rightarrow> (jsval \<times> jstring) option" where
  "json_number s = map_option (\<lambda>(t, r). (JNum (to_double (token_value t)), r)) (scan_number s)"

definition json_literal :: "jstring \<Rightarrow> jsval \<Rightarrow> jstring \<Rightarrow> (jsval \<times> jstring) option" where
  "json_literal l v s = (if starts_with s l then Some (v, drop (length l) s) else None)"

primrec json_value :: "nat \<Rightarrow> jstring \<Rightarrow> (jsval \<times> jstring) option" where
  "json_value 0 s = None"
| "json_value (Suc n) s =
     (if s = [] then None
      else if hd s = 123 then
        (let u = skipWhitespace (tl s) in
         if starts_with u [125] then Some (JObj [], tl u)
         else json_members (json_value n) (length u + 1) [] u)
      else if hd s = 91 then
        (let u = skipWhitespace (tl s) in
         if starts_with u [93] then Some (JArr [], tl u)
         else json_elements (json_value n) (length u + 1) [] u)
      else if hd s = 34 then
        (case parseString s of Inl _ \<Rightarrow> None | Inr (v, r) \<Rightarrow> Some (JStr v, r))
      else if hd s = 116 then json_literal (js ''true'') (JBool True) s
      else if hd s = 102 then json_literal (js ''false'') (JBool False) s
      else if hd s = 110 then json_literal (js ''null'') JNull s
      else if hd s = 45 \<or> is_digit (hd s) then json_number s
      else None)"

definition json_parse :: "jstring \<Rightarrow> jsval option" where
  "json_parse s =
     (let s1 = skipWhitespace s in
      case json_value (length s1 + 1) s1 of
        None \<Rightarrow> None
      | Some (v, r) \<Rightarrow> if skipWhitespace r \<noteq> [] then None else Some v)"

text \<open>The interface of the two readers: what the strict one accepts, the host reads alike.\<close>

locale reader_agreement =
  fixes strict :: "jstring \<Rightarrow> json_fail + jsval \<times> jstring"
    and host :: "jstring \<Rightarrow> (jsval \<times> jstring) option"
  assumes agree: "strict s = Inr (v, r) \<Longrightarrow> host s = Some (v, r)"
begin

lemma members: "parseMembers strict n fs u = Inr (v, r) \<Longrightarrow> json_members host n fs u = Some (v, r)"
proof (induction n arbitrary: fs u)
  case (Suc n)
  from Suc.prems obtain k r0 v1 r2 where
    k: "parseString u = Inr (k, r0)" "k \<notin> fst ` set fs" "u \<noteq> []" "hd u = 34"
    and c: "starts_with (skipWhitespace r0) [58]"
    and v1: "strict (skipWhitespace (tl (skipWhitespace r0))) = Inr (v1, r2)"
    and rest: "(if starts_with (skipWhitespace r2) [125]
        then Inr (JObj (fs @ [(k, v1)]), tl (skipWhitespace r2))
        else if \<not> starts_with (skipWhitespace r2) [44] then Inl UnterminatedObject
        else parseMembers strict n (fs @ [(k, v1)]) (skipWhitespace (tl (skipWhitespace r2))))
        = Inr (v, r)"
    by (auto simp: Let_def split: if_splits prod.splits)
  have "put fs k v1 = fs @ [(k, v1)]" using k(2) by (simp add: put_def)
  with k c agree[OF v1] rest Suc.IH[of "fs @ [(k, v1)]" "skipWhitespace (tl (skipWhitespace r2))"]
  show ?case by (auto simp: Let_def split: if_splits)
qed simp

lemma elements: "parseElements strict n xs u = Inr (v, r) \<Longrightarrow> json_elements host n xs u = Some (v, r)"
proof (induction n arbitrary: xs u)
  case (Suc n)
  from Suc.prems obtain v1 r1 where
    v1: "strict u = Inr (v1, r1)"
    and rest: "(if starts_with (skipWhitespace r1) [93]
        then Inr (JArr (xs @ [v1]), tl (skipWhitespace r1))
        else if \<not> starts_with (skipWhitespace r1) [44] then Inl UnterminatedArray
        else parseElements strict n (xs @ [v1]) (skipWhitespace (tl (skipWhitespace r1))))
        = Inr (v, r)"
    by (auto simp: Let_def split: if_splits prod.splits)
  with agree[OF v1] Suc.IH[of "xs @ [v1]" "skipWhitespace (tl (skipWhitespace r1))"]
  show ?case by (auto simp: Let_def split: if_splits)
qed simp

end

lemma reader_agreement_value: "reader_agreement (parseValue n) (json_value n)"
proof (induction n)
  case 0
  show ?case by unfold_locales simp
next
  case (Suc n)
  show ?case
    by unfold_locales
      (auto simp: parseObject_def parseArray_def parseLiteral_def parseNumber_def json_literal_def
        json_number_def starts_with_def Let_def reader_agreement.members[OF Suc]
        reader_agreement.elements[OF Suc]
        simp del: parseMembers.simps parseElements.simps json_members.simps json_elements.simps
        split: if_splits prod.splits option.splits)
qed

interpretation json_readers: reader_agreement "parseValue n" "json_value n" for n
  by (rule reader_agreement_value)

lemma json_parse_strict: "parse_text s = Inr v \<Longrightarrow> json_parse s = Some v"
  by (auto simp: parse_text_def json_parse_def Let_def simp del: parseValue.simps json_value.simps
      split: if_splits dest!: json_readers.agree)

section \<open>JSON.stringify\<close>

text \<open>\<open>None\<close> is undefined.  A key whose value is undefined is left out, in an array it is null.\<close>

fun stringify :: "jsenv \<Rightarrow> jsval \<Rightarrow> jstring option" where
  "stringify E JUndef = None"
| "stringify E JNull = Some (js ''null'')"
| "stringify E (JBool b) = Some (if b then js ''true'' else js ''false'')"
| "stringify E (JNum x) = Some (if is_finite x then js_num_text E x else js ''null'')"
| "stringify E (JStr s) = Some (quote s)"
| "stringify E (JArr xs) =
     Some ([91] @ join [44] (map (\<lambda>x. case stringify E x of None \<Rightarrow> js ''null'' | Some t \<Rightarrow> t) xs) @ [93])"
| "stringify E (JObj fs) =
     Some ([123] @ join [44] (concat (map (\<lambda>f. case stringify E (snd f) of
          None \<Rightarrow> [] | Some t \<Rightarrow> [quote (fst f) @ [58] @ t]) fs)) @ [125])"

text \<open>The host reads back what it wrote, and so does the strict reader.\<close>

lemma writable_stringify: "writable E v \<Longrightarrow> \<exists>t. stringify E v = Some t"
  by (cases v) auto

lemma reads_stringify:
  "stringify E v = Some t \<Longrightarrow> writable E v \<Longrightarrow> reads (parseValue n) n t v"
proof (induction E v arbitrary: t n rule: stringify.induct)
  case (3 E b)
  then show ?case using reads_literal by (cases b) auto
next
  case (4 E x)
  then show ?case using reads_number by auto
next
  case (6 E xs)
  define ts where "ts = map (\<lambda>x. case stringify E x of None \<Rightarrow> js ''null'' | Some t \<Rightarrow> t) xs"
  have "list_all2 (reads (parseValue m) m) ts xs" for m
    unfolding ts_def list_all2_map1 using 6 writable_stringify
    by (intro list_all2_same[THEN iffD2]) (fastforce simp: list_all_iff)
  from reads_array[OF this] show ?case using 6(2) by (simp add: ts_def)
next
  case (7 E fs)
  define ts where "ts = map (\<lambda>f. quote (fst f) @ [58] @ the (stringify E (snd f))) fs"
  have w: "f \<in> set fs \<Longrightarrow> writable E (snd f)" for f using 7(3) by (auto simp: list_all_iff)
  have c: "concat (map (\<lambda>f. case stringify E (snd f) of None \<Rightarrow> [] | Some t \<Rightarrow> [quote (fst f) @ [58] @ t]) gs)
      = map (\<lambda>f. quote (fst f) @ [58] @ the (stringify E (snd f))) gs" if "set gs \<subseteq> set fs" for gs
    using that w writable_stringify by (induction gs) fastforce+
  have "list_all2 (\<lambda>t f. \<exists>u. t = member_text (fst f) u \<and> reads (parseValue m) m u (snd f)) ts fs" for m
    unfolding ts_def list_all2_map1 using 7 w writable_stringify
    by (intro list_all2_same[THEN iffD2]) (fastforce simp: member_text_def)
  from reads_object[OF this] show ?case using 7(2,3) c[of fs] by (simp add: ts_def)
qed (auto simp: reads_literal reads_string)

lemma stringify_reads:
  assumes "stringify E v = Some t" "writable E v" "delimited r" "skipWhitespace r = []"
  shows "json_parse (t @ r) = Some v"
  using assms by (intro json_parse_strict reads_text reads_stringify)

section \<open>Conversions\<close>

text \<open>\<^verbatim>\<open>String(v)\<close>, as template literals and \<^verbatim>\<open>RegExp.test\<close> apply it.\<close>

fun to_text :: "jsenv \<Rightarrow> jsval \<Rightarrow> jstring" where
  "to_text E JUndef = js ''undefined''"
| "to_text E JNull = js ''null''"
| "to_text E (JBool b) = (if b then js ''true'' else js ''false'')"
| "to_text E (JNum x) = js_num_text E x"
| "to_text E (JStr s) = s"
| "to_text E (JArr xs) = join [44] (map (\<lambda>x. if nullish x then [] else to_text E x) xs)"
| "to_text E (JObj fs) = js ''[object Object]''"

text \<open>\<^verbatim>\<open>Number(s)\<close> of a string.\<close>

definition radix_value :: "nat \<Rightarrow> jstring \<Rightarrow> jnum" where
  "radix_value b ds =
     (if ds = [] \<or> \<not> list_all (\<lambda>c. is_hex c \<and> hex_value c < b) ds then NaN
      else to_double (of_nat (foldl (\<lambda>a c. b * a + hex_value c) 0 ds)))"

definition decimal_literal :: "bool \<Rightarrow> jstring \<Rightarrow> jnum" where
  "decimal_literal neg s =
     (let i = takeWhile is_digit s; r = dropWhile is_digit s;
          f = (if starts_with r [46] then takeWhile is_digit (tl r) else []);
          r1 = (if starts_with r [46] then dropWhile is_digit (tl r) else r);
          (e, r2) = scan_exponent r1
      in if (i = [] \<and> f = []) \<or> r2 \<noteq> [] then NaN
         else to_double (token_value \<lparr>tok_neg = neg, tok_int = i, tok_frac = f, tok_exp = e\<rparr>))"

definition string_to_number :: "jstring \<Rightarrow> jnum" where
  "string_to_number s0 =
     (let s = trim s0;
          neg = starts_with s [45]; u = (if neg \<or> starts_with s [43] then tl s else s)
      in if s = [] then Fin 0
         else if take 2 s = js ''0x'' \<or> take 2 s = js ''0X'' then radix_value 16 (drop 2 s)
         else if take 2 s = js ''0o'' \<or> take 2 s = js ''0O'' then radix_value 8 (drop 2 s)
         else if take 2 s = js ''0b'' \<or> take 2 s = js ''0B'' then radix_value 2 (drop 2 s)
         else if u = js ''Infinity'' then Infinity neg
         else decimal_literal neg u)"

definition to_number :: "jsenv \<Rightarrow> jsval \<Rightarrow> jnum" where
  "to_number E v =
     (case v of JUndef \<Rightarrow> NaN | JNull \<Rightarrow> Fin 0 | JBool b \<Rightarrow> Fin (if b then 1 else 0) | JNum x \<Rightarrow> x
      | _ \<Rightarrow> string_to_number (to_text E v))"

section \<open>Equalities\<close>

text \<open>\<^verbatim>\<open>===\<close>.  Two objects or arrays of the model come from different documents, so they are never
  the same reference.  \<^verbatim>\<open>SameValueZero\<close>, of \<^verbatim>\<open>includes\<close>, \<^verbatim>\<open>Set\<close> and \<^verbatim>\<open>Map\<close>, differs at NaN only.\<close>

definition strict_eq :: "jsval \<Rightarrow> jsval \<Rightarrow> bool" where
  "strict_eq v w \<longleftrightarrow> (case v of JArr _ \<Rightarrow> False | JObj _ \<Rightarrow> False | JNum NaN \<Rightarrow> False | _ \<Rightarrow> v = w)"

definition same_value :: "jsval \<Rightarrow> jsval \<Rightarrow> bool" where
  "same_value v w \<longleftrightarrow> strict_eq v w \<or> (v = JNum NaN \<and> w = JNum NaN)"

fun set_of_values :: "jsval list \<Rightarrow> jsval list" where
  "set_of_values [] = []"
| "set_of_values (x # xs) = x # filter (\<lambda>y. \<not> same_value x y) (set_of_values xs)"

lemma strict_eqD: "strict_eq v w \<Longrightarrow> v = w"
  by (auto simp: strict_eq_def split: jsval.splits jnum.splits)

lemma strict_eq_simps [simp]:
  "strict_eq v (JStr s) \<longleftrightarrow> v = JStr s" "strict_eq (JStr s) v \<longleftrightarrow> v = JStr s"
  "strict_eq v (JBool b) \<longleftrightarrow> v = JBool b" "strict_eq v (JNum (Fin r)) \<longleftrightarrow> v = JNum (Fin r)"
  "strict_eq v JUndef \<longleftrightarrow> v = JUndef" "strict_eq v JNull \<longleftrightarrow> v = JNull"
  by (auto simp: strict_eq_def split: jsval.splits jnum.splits)

lemma same_value_simps [simp]:
  "same_value v (JStr s) \<longleftrightarrow> v = JStr s" "same_value (JStr s) v \<longleftrightarrow> v = JStr s"
  "same_value v (JNum (Fin r)) \<longleftrightarrow> v = JNum (Fin r)"
  by (auto simp: same_value_def)

section \<open>Arrays\<close>

text \<open>\<^verbatim>\<open>xs.sort()\<close>: by the texts of the elements, undefined last.\<close>

definition js_sort :: "jsenv \<Rightarrow> jsval list \<Rightarrow> jsval list" where
  "js_sort E xs = sort_by (\<lambda>a b. to_text E a \<le> to_text E b) (filter (\<lambda>x. x \<noteq> JUndef) xs)
                  @ filter (\<lambda>x. x = JUndef) xs"

lemma mset_js_sort [simp]: "mset (js_sort E xs) = mset xs"
  by (simp add: js_sort_def multiset_partition[of "mset xs" "\<lambda>x. x \<noteq> JUndef", symmetric])

text \<open>The code points of a string, each as a string.\<close>

fun code_points :: "jstring \<Rightarrow> jstring list" where
  "code_points [] = []"
| "code_points [c] = [[c]]"
| "code_points (c # d # s) =
     (if is_high c \<and> is_low d then [c, d] # code_points s else [c] # code_points (d # s))"

text \<open>\<^verbatim>\<open>for (const x of v)\<close> and \<^verbatim>\<open>[...v]\<close>; \<open>None\<close> is a \<^verbatim>\<open>TypeError\<close>.\<close>

definition iterate :: "jsval \<Rightarrow> jsval list option" where
  "iterate v = (case v of JArr xs \<Rightarrow> Some xs | JStr s \<Rightarrow> Some (map JStr (code_points s)) | _ \<Rightarrow> None)"

section \<open>Access that may throw\<close>

text \<open>\<^verbatim>\<open>v.k\<close> throws on null and undefined.  A condition is a \<open>bool option\<close>, \<open>None\<close> a \<^verbatim>\<open>TypeError\<close>;
  \<open>any_of\<close> and \<open>all_of\<close> are \<^verbatim>\<open>||\<close> and \<^verbatim>\<open>&&\<close> from left to right, \<open>some_of\<close> is \<^verbatim>\<open>xs.some(f)\<close>.\<close>

definition acc :: "jsval \<Rightarrow> string \<Rightarrow> jsval option" where
  "acc v k = (if nullish v then None else Some (getp v k))"

fun any_of :: "bool option list \<Rightarrow> bool option" where
  "any_of [] = Some False"
| "any_of (c # cs) = (case c of None \<Rightarrow> None | Some True \<Rightarrow> Some True | Some False \<Rightarrow> any_of cs)"

fun all_of :: "bool option list \<Rightarrow> bool option" where
  "all_of [] = Some True"
| "all_of (c # cs) = (case c of None \<Rightarrow> None | Some False \<Rightarrow> Some False | Some True \<Rightarrow> all_of cs)"

definition some_of :: "('a \<Rightarrow> bool option) \<Rightarrow> 'a list \<Rightarrow> bool option" where
  "some_of f xs = any_of (map f xs)"

lemma any_of_False [simp]: "any_of cs = Some False \<longleftrightarrow> (\<forall>c \<in> set cs. c = Some False)"
  by (induction cs rule: any_of.induct) (auto split: option.splits bool.splits)

lemma all_of_True [simp]: "all_of cs = Some True \<longleftrightarrow> (\<forall>c \<in> set cs. c = Some True)"
  by (induction cs rule: all_of.induct) (auto split: option.splits bool.splits)

lemma any_of_True: "any_of cs = Some True \<Longrightarrow> \<exists>c \<in> set cs. c = Some True"
  by (induction cs rule: any_of.induct) (auto split: option.splits bool.splits)

lemma some_of_True: "some_of f xs = Some True \<Longrightarrow> \<exists>x \<in> set xs. f x = Some True"
  using any_of_True by (fastforce simp: some_of_def)

lemma acc_Some [simp]: "acc v k = Some x \<longleftrightarrow> \<not> nullish v \<and> x = getp v k"
  by (auto simp: acc_def)

end
