(* ===== verification/Image_Policy.thy ===== *)
theory Image_Policy
  imports Js_Objects
begin

text \<open>
  The image-admission policy of \<^verbatim>\<open>src/scripts/postgres-image/policy.mjs\<close>: scanner and database
  identity, APK catalogue coverage, Grype reports, PostgreSQL source coverage, the APK canary and
  the composition \<^verbatim>\<open>evaluateImageAdmission\<close>.  Evidence and trusted expectations are untyped
  documents, so an access on null or undefined is a \<^verbatim>\<open>TypeError\<close>, which \<^verbatim>\<open>check\<close> turns into the
  finding \<^verbatim>\<open>EVIDENCE_SCHEMA\<close>.  A finding keeps its code and its path; the detail text is fixed by
  the place in the code and is not kept.
\<close>

section \<open>Checks that collect findings\<close>

datatype issue = Issue (i_code: string) (i_path: jstring)

text \<open>The findings issued so far and the result, or \<open>None\<close> after a thrown error.\<close>

type_synonym 'a checked = "issue list \<times> 'a option"

definition retC :: "'a \<Rightarrow> 'a checked" where
  "retC x = ([], Some x)"

definition throwC :: "'a checked" where
  "throwC = ([], None)"

definition bindC :: "'a checked \<Rightarrow> ('a \<Rightarrow> 'b checked) \<Rightarrow> 'b checked" where
  "bindC m f = (case m of (is, None) \<Rightarrow> (is, None)
     | (is, Some x) \<Rightarrow> (case f x of (is', r) \<Rightarrow> (is @ is', r)))"

definition liftC :: "'a option \<Rightarrow> 'a checked" where
  "liftC x = (case x of None \<Rightarrow> throwC | Some y \<Rightarrow> retC y)"

definition issueC :: "string \<Rightarrow> jstring \<Rightarrow> unit checked" where
  "issueC code path = ([Issue code path], Some ())"

definition issue_if :: "string \<Rightarrow> jstring \<Rightarrow> bool option \<Rightarrow> unit checked" where
  "issue_if code path c =
     (case c of None \<Rightarrow> throwC | Some b \<Rightarrow> if b then issueC code path else retC ())"

fun seqC :: "unit checked list \<Rightarrow> unit checked" where
  "seqC [] = retC ()"
| "seqC (m # ms) = bindC m (\<lambda>_. seqC ms)"

fun mapC :: "('a \<Rightarrow> 'b checked) \<Rightarrow> 'a list \<Rightarrow> 'b list checked" where
  "mapC f [] = retC []"
| "mapC f (x # xs) = bindC (f x) (\<lambda>y. bindC (mapC f xs) (\<lambda>ys. retC (y # ys)))"

fun foldC :: "('s \<Rightarrow> 'a \<Rightarrow> 's checked) \<Rightarrow> 's \<Rightarrow> 'a list \<Rightarrow> 's checked" where
  "foldC f s [] = retC s"
| "foldC f s (x # xs) = bindC (f s x) (\<lambda>s'. foldC f s' xs)"

record report =
  r_status :: string
  r_findings :: "issue list"

definition check :: "unit checked \<Rightarrow> report" where
  "check body =
     (let findings = fst body @ (if snd body = None then [Issue ''EVIDENCE_SCHEMA'' (js ''$'')] else [])
      in \<lparr>r_status = (if findings \<noteq> [] then ''FAIL'' else ''PASS''), r_findings = findings\<rparr>)"

text \<open>Findings of a part, with the path below a prefix.\<close>

definition merge_under :: "jstring \<Rightarrow> issue list \<Rightarrow> unit checked" where
  "merge_under prefix fs = (map (\<lambda>f. Issue (i_code f) (prefix @ js ''.'' @ i_path f)) fs, Some ())"

section \<open>Helpers\<close>

text \<open>\<^verbatim>\<open>v?.a?.b\<close>, a property with a computed name, and \<^verbatim>\<open>v.k !== w\<close>.\<close>

fun gets :: "jsval \<Rightarrow> string list \<Rightarrow> jsval" where
  "gets v [] = v"
| "gets v (k # ks) = gets (getp v k) ks"

definition getj :: "jsval \<Rightarrow> jstring \<Rightarrow> jsval" where
  "getj v k = (case v of JObj fs \<Rightarrow> (case map_of fs k of Some x \<Rightarrow> x | None \<Rightarrow> JUndef) | _ \<Rightarrow> JUndef)"

definition differs :: "jsval \<Rightarrow> string \<Rightarrow> jsval \<Rightarrow> bool option" where
  "differs v k w = map_option (\<lambda>x. \<not> strict_eq x w) (acc v k)"

definition is_text :: "jsval \<Rightarrow> bool" where
  "is_text v \<longleftrightarrow> (case v of JStr s \<Rightarrow> s \<noteq> [] | _ \<Rightarrow> False)"

definition is_array :: "jsval \<Rightarrow> bool" where
  "is_array v \<longleftrightarrow> (case v of JArr _ \<Rightarrow> True | _ \<Rightarrow> False)"

definition elements :: "jsval \<Rightarrow> jsval list" where
  "elements v = (case v of JArr xs \<Rightarrow> xs | _ \<Rightarrow> [])"

definition is_one_of :: "jsval \<Rightarrow> string list \<Rightarrow> bool" where
  "is_one_of v ss \<longleftrightarrow> v \<in> set (map (\<lambda>s. JStr (js s)) ss)"

definition empty_value :: "jsval \<Rightarrow> bool" where
  "empty_value v \<longleftrightarrow> nullish v \<or> v = JArr []"

definition omittedOrEmptyArray :: "jsval \<Rightarrow> bool" where
  "omittedOrEmptyArray v \<longleftrightarrow> v = JUndef \<or> v = JArr []"

definition hash_text :: "jstring \<Rightarrow> bool" where
  "hash_text s \<longleftrightarrow> length s = 64 \<and> list_all is_lower_hex s"

definition HASH :: "jsenv \<Rightarrow> jsval \<Rightarrow> bool" where
  "HASH E v \<longleftrightarrow> hash_text (to_text E v)"

definition DIGEST :: "jsenv \<Rightarrow> jsval \<Rightarrow> bool" where
  "DIGEST E v \<longleftrightarrow> take 7 (to_text E v) = js ''sha256:'' \<and> hash_text (drop 7 (to_text E v))"

fun sortKeys :: "jsenv \<Rightarrow> jsval \<Rightarrow> jsval" where
  "sortKeys E (JArr xs) = JArr (map (sortKeys E) xs)"
| "sortKeys E (JObj fs) =
     JObj (sort_by (\<lambda>a b. js_locale_le E (fst a) (fst b)) (map (\<lambda>f. (fst f, sortKeys E (snd f))) fs))"
| "sortKeys E v = v"

definition canonical :: "jsenv \<Rightarrow> jsval \<Rightarrow> jstring option" where
  "canonical E v = stringify E (sortKeys E v)"

definition sha256 :: "jsenv \<Rightarrow> jstring \<Rightarrow> jstring" where
  "sha256 E t = js_hash E (js ''sha256'') (utf8_encode t)"

definition parseC :: "jsval \<Rightarrow> jstring \<Rightarrow> jsval checked" where
  "parseC value path =
     (case (case value of JStr s \<Rightarrow> if length s > 64 * 1024 * 1024 then None else json_parse s
            | _ \<Rightarrow> None) of
        Some (JObj fs) \<Rightarrow> retC (JObj fs)
      | _ \<Rightarrow> bindC (issueC ''JSON_PARSE'' path) (\<lambda>_. retC (JObj [])))"

definition suppression :: "jsval \<Rightarrow> jstring \<Rightarrow> unit checked" where
  "suppression config path =
     seqC (map (\<lambda>key. issue_if ''SCAN_SUPPRESSION'' (path @ js ''.'' @ js key)
                        (Some (\<not> empty_value (getp config key))))
       [''ignore'', ''exclude'', ''vex-documents'', ''vex-add''])"

definition validDbStatus :: "jsval \<Rightarrow> jsval \<Rightarrow> bool option" where
  "validDbStatus s expected =
     all_of [Some (strict_eq (getp s ''valid'') (JBool True)),
             Some (nullish (getp s ''error'')),
             map_option (strict_eq (getp s ''schemaVersion'')) (acc expected ''schemaVersion''),
             Some (strict_eq (getp s ''built'') (getp expected ''built'')),
             Some (is_text (getp s ''path''))]"

section \<open>Scanner and database identity\<close>

definition evaluateScannerIdentity ::
  "jsenv \<Rightarrow> string \<Rightarrow> jsval \<Rightarrow> jsval \<Rightarrow> jsval \<Rightarrow> report" where
  "evaluateScannerIdentity E name evidence lock runId = check
     (bindC (liftC (acc lock name)) (\<lambda>pin.
      let platform = getj (getp pin ''platforms'') (to_text E (getp evidence ''platform''));
          before = getp evidence ''executableSha256Before''
      in seqC
        [issue_if ''RUN_ID'' (js name)
           (Some (\<not> is_text runId \<or> \<not> strict_eq (getp evidence ''runId'') runId)),
         issue_if ''TOOL_IDENTITY'' (js name) (any_of
           [Some (\<not> truthy platform),
            Some (\<not> HASH E (getp platform ''sha256'')),
            Some (\<not> HASH E before),
            differs evidence ''archiveSha256'' (getp platform ''sha256''),
            Some (\<not> strict_eq before (getp evidence ''executableSha256After'')),
            Some (\<not> HASH E (getp platform ''executableSha256'')),
            Some (\<not> strict_eq before (getp platform ''executableSha256'')),
            Some (\<not> strict_eq (gets evidence [''version'', ''application'']) (JStr (js name))),
            Some (\<not> strict_eq (gets evidence [''version'', ''version'']) (getp pin ''version'')),
            Some (\<not> strict_eq (gets evidence [''version'', ''gitCommit'']) (getp pin ''commit'')),
            Some (\<not> strict_eq (gets evidence [''version'', ''platform'']) (getp evidence ''platform'')),
            Some (\<not> strict_eq (getp evidence ''archiveMemberSha256'') before)])]))"

text \<open>\<^verbatim>\<open>Date.parse(a) - Date.parse(b)\<close>.  Time values are integers of at most 8.64e15 in magnitude; a
  difference beyond the exact range of doubles is far from the two limits it is compared with.\<close>

definition date_difference :: "jsenv \<Rightarrow> jsval \<Rightarrow> jsval \<Rightarrow> jnum" where
  "date_difference E a b =
     (case (js_date_parse E (to_text E a), js_date_parse E (to_text E b)) of
        (Fin x, Fin y) \<Rightarrow> Fin (x - y) | _ \<Rightarrow> NaN)"

definition stale_or_future :: "jnum \<Rightarrow> bool" where
  "stale_or_future age =
     (case age of Fin a \<Rightarrow> a > 48 * 3600000 \<or> a < - 10 * 60000 | _ \<Rightarrow> True)"

definition evaluateDatabase :: "jsenv \<Rightarrow> jsval \<Rightarrow> jsval \<Rightarrow> jsval \<Rightarrow> jsval \<Rightarrow> report" where
  "evaluateDatabase E evidence lock now runId = check
     (bindC (issue_if ''RUN_ID'' (js ''database'')
         (Some (\<not> is_text runId \<or> \<not> strict_eq (getp evidence ''runId'') runId))) (\<lambda>_.
      bindC (liftC (acc lock ''database'')) (\<lambda>pin. seqC
        [issue_if ''DB_IDENTITY'' (js ''database'') (any_of
           [map_option (\<lambda>x. \<not> strict_eq (getp evidence ''archiveSha256'') x) (acc pin ''sha256''),
            differs evidence ''archiveSize'' (getp pin ''size''),
            Some (\<not> strict_eq (getp evidence ''extractedSha256'') (getp pin ''extractedSha256'')),
            Some (\<not> HASH E (getp evidence ''databaseSha256Before'')),
            Some (\<not> strict_eq (getp evidence ''databaseSha256Before'') (getp evidence ''databaseSha256After'')),
            map_option Not (validDbStatus (getp evidence ''status'') pin),
            Some (\<not> strict_eq (getp evidence ''importRawExit'') (JNum (Fin 0)))]),
         issue_if ''DB_FRESHNESS'' (js ''database.built'')
           (Some (stale_or_future (date_difference E now (gets evidence [''status'', ''built'']))))])))"

section \<open>APK catalogue coverage\<close>

text \<open>\<^verbatim>\<open>encodeURIComponent\<close>: the unreserved characters stand for themselves, every other byte of the
  UTF-8 form is escaped.\<close>

definition uri_unreserved :: "nat \<Rightarrow> bool" where
  "uri_unreserved c \<longleftrightarrow> is_alnum c \<or> c \<in> {45, 95, 46, 33, 126, 42, 39, 40, 41}"

definition upper_hex_digit :: "nat \<Rightarrow> nat" where
  "upper_hex_digit n = (if n < 10 then 48 + n else 55 + n)"

definition encodeURIComponent :: "jstring \<Rightarrow> jstring" where
  "encodeURIComponent s = concat (map (\<lambda>b. if uri_unreserved b then [b]
     else [37, upper_hex_digit (b div 16), upper_hex_digit (b mod 16)]) (utf8_encode s))"

text \<open>\<^verbatim>\<open>/^[a-zA-Z0-9][a-zA-Z0-9+._~-]*$/\<close> and \<^verbatim>\<open>/^3\.\d+\.\d+$/\<close>\<close>

definition apk_field :: "jstring \<Rightarrow> bool" where
  "apk_field s \<longleftrightarrow> s \<noteq> [] \<and> is_alnum (hd s)
     \<and> list_all (\<lambda>c. is_alnum c \<or> c \<in> {43, 46, 95, 126, 45}) s"

definition all_digits :: "jstring \<Rightarrow> bool" where
  "all_digits s \<longleftrightarrow> s \<noteq> [] \<and> list_all is_digit s"

definition alpine_release :: "jstring \<Rightarrow> bool" where
  "alpine_release s \<longleftrightarrow>
     (case split_on 46 s of
        [a, b, c] \<Rightarrow> a = js ''3'' \<and> all_digits b \<and> all_digits c | _ \<Rightarrow> False)"

definition canonicalApkPurl :: "jsenv \<Rightarrow> jsval \<Rightarrow> jsval \<Rightarrow> jstring option" where
  "canonicalApkPurl E p distroVersion =
     (case (getp p ''name'', getp p ''version'', getp p ''architecture'', getp p ''origin'') of
        (JStr name, JStr version, JStr architecture, JStr origin) \<Rightarrow>
          if \<not> list_all apk_field [name, version, architecture, origin]
             \<or> \<not> alpine_release (to_text E distroVersion) then None
          else Some (js ''pkg:apk/alpine/'' @ encodeURIComponent name @ js ''@''
                 @ encodeURIComponent version @ js ''?arch='' @ encodeURIComponent architecture
                 @ js ''&distro=alpine-'' @ to_text E distroVersion
                 @ (if origin = name then [] else js ''&upstream='' @ encodeURIComponent origin))
      | _ \<Rightarrow> None)"

text \<open>\<^verbatim>\<open>/^(?:[a-z0-9._-]|\\\+)+$/\<close>\<close>

fun cpe_chars :: "jstring \<Rightarrow> bool" where
  "cpe_chars [] = True"
| "cpe_chars (c # s) =
     (if is_lower c \<or> is_digit c \<or> c \<in> {46, 95, 45} then cpe_chars s
      else if c = 92 then (case s of d # s' \<Rightarrow> d = 43 \<and> cpe_chars s' | [] \<Rightarrow> False)
      else False)"

definition cpe_literal :: "jstring \<Rightarrow> bool" where
  "cpe_literal s \<longleftrightarrow> s \<noteq> [] \<and> cpe_chars s"

definition validCpe :: "jsval \<Rightarrow> jsval \<Rightarrow> bool" where
  "validCpe cpe version \<longleftrightarrow>
     (case cpe of
        JStr s \<Rightarrow> (let parts = split_on 58 s in
          length parts = 13 \<and> parts ! 0 = js ''cpe'' \<and> parts ! 1 = js ''2.3'' \<and> parts ! 2 = js ''a''
          \<and> cpe_literal (parts ! 3) \<and> cpe_literal (parts ! 4) \<and> JStr (parts ! 5) = version
          \<and> list_all (\<lambda>p. p = js ''*'') (drop 6 parts))
      | _ \<Rightarrow> False)"

definition validCpeSet :: "jsval \<Rightarrow> jsval \<Rightarrow> bool" where
  "validCpeSet cpes version \<longleftrightarrow>
     (case cpes of
        JArr xs \<Rightarrow> xs \<noteq> [] \<and> length xs \<le> 32 \<and> length (set_of_values xs) = length xs
                   \<and> list_all (\<lambda>c. validCpe c version) xs
      | _ \<Rightarrow> False)"

definition apkKey :: "jsenv \<Rightarrow> jsval list \<Rightarrow> jstring" where
  "apkKey E vs = the (canonical E (JArr vs))"

text \<open>\<^verbatim>\<open>new Map(...)\<close> of pairs: the last entry of a key counts.\<close>

definition map_get :: "(jsval \<times> jsval) list \<Rightarrow> jsval \<Rightarrow> jsval" where
  "map_get m k = (case List.find (\<lambda>e. same_value (fst e) k) (rev m) of
     Some e \<Rightarrow> snd e | None \<Rightarrow> JUndef)"

definition inventoryPackage :: "jsenv \<Rightarrow> jsval \<Rightarrow> jsval \<Rightarrow> jstring checked" where
  "inventoryPackage E expectedDistro p =
     bindC (liftC (acc p ''name'')) (\<lambda>name.
     bindC (issue_if ''INVENTORY_SCHEMA'' (js ''inventory'')
       (Some (\<not> list_all is_text [name, getp p ''version'', getp p ''architecture'', getp p ''license''])))
       (\<lambda>_.
     let validPurl = (case canonicalApkPurl E p (getp expectedDistro ''versionID'') of
           None \<Rightarrow> False | Some t \<Rightarrow> strict_eq (getp p ''purl'') (JStr t))
     in bindC (issue_if ''APK_TRUSTED_MAPPING'' (js ''inventory.'' @ to_text E name)
          (Some (\<not> is_text (getp p ''origin'') \<or> \<not> validPurl
                 \<or> \<not> validCpeSet (getp p ''cpes'') (getp p ''version'')))) (\<lambda>_.
        retC (apkKey E [name, getp p ''version'', getp p ''architecture'', getp p ''license'']))))"

text \<open>\<^verbatim>\<open>v?.slice().sort()\<close>\<close>

definition slice_sort :: "jsenv \<Rightarrow> jsval \<Rightarrow> jsval option" where
  "slice_sort E v =
     (if nullish v then Some JUndef
      else case v of JArr xs \<Rightarrow> Some (JArr (js_sort E xs)) | _ \<Rightarrow> None)"

definition first_element :: "jsval \<Rightarrow> jsval" where
  "first_element v = (case v of JArr (x # _) \<Rightarrow> x | JObj _ \<Rightarrow> getp v ''0'' | _ \<Rightarrow> JUndef)"

definition catalogArtifact ::
  "jsenv \<Rightarrow> (jsval \<times> jsval) list \<Rightarrow> jsval list \<times> jsval list \<times> jstring list \<Rightarrow> jsval
   \<Rightarrow> (jsval list \<times> jsval list \<times> jstring list) checked" where
  "catalogArtifact E trustedPackages st p =
     (case st of (ids, names, keys) \<Rightarrow>
     bindC (liftC (acc p ''name'')) (\<lambda>name.
     let expectedPackage = map_get trustedPackages name;
         purl = getp p ''purl''; version = getp p ''version''; metadata = getp p ''metadata'';
         licenses = getp p ''licenses'';
         cpes = (case getp p ''cpes'' of JArr cs \<Rightarrow> JArr (map (\<lambda>c. getp c ''cpe'') cs) | _ \<Rightarrow> JUndef);
         place = js ''syft.artifacts.'' @ to_text E name
     in bindC (seqC
       [issue_if ''APK_DUPLICATE'' (js ''syft.artifacts'')
          (Some (list_ex (same_value (getp p ''id'')) ids \<or> list_ex (same_value name) names)),
        issue_if ''APK_UNEXPECTED'' (js ''syft.artifacts'')
          (Some (\<not> strict_eq (getp p ''type'') (JStr (js ''apk'')))),
        issue_if ''APK_COVERAGE'' (js ''syft.artifacts'')
          (Some (\<not> is_text (getp p ''id'')
             \<or> \<not> strict_eq (getp p ''foundBy'') (JStr (js ''apk-db-cataloger''))
             \<or> \<not> strict_eq (getp p ''metadataType'') (JStr (js ''apk-db-entry''))
             \<or> \<not> strict_eq (getp metadata ''package'') name
             \<or> \<not> strict_eq (getp metadata ''version'') version
             \<or> (case purl of JStr t \<Rightarrow> t = [] \<or> \<not> starts_with t (js ''pkg:apk/alpine/'') | _ \<Rightarrow> True)
             \<or> \<not> is_array licenses \<or> length (elements licenses) \<noteq> 1)),
        issue_if ''APK_ORIGIN'' place
          (Some (\<not> is_text (getp metadata ''originPackage'')
             \<or> \<not> strict_eq (getp metadata ''originPackage'') (getp expectedPackage ''origin''))),
        issue_if ''APK_PURL'' place
          (Some (\<not> is_text purl \<or> \<not> strict_eq purl (getp expectedPackage ''purl''))),
        issue_if ''APK_CPE_COVERAGE'' place (any_of
          [Some (\<not> validCpeSet cpes version),
           some_of (\<lambda>c. differs c ''source'' (JStr (js ''syft-generated''))) (elements (getp p ''cpes'')),
           (case (slice_sort E cpes, slice_sort E (getp expectedPackage ''cpes'')) of
              (Some a, Some b) \<Rightarrow> Some (canonical E a \<noteq> canonical E b) | _ \<Rightarrow> None)])]) (\<lambda>_.
       retC (ids @ [getp p ''id''], names @ [name], keys @
         [apkKey E [name, version, getp metadata ''architecture'',
                    getp (first_element licenses) ''value'']]))))"

definition evaluateApkCoverage ::
  "jsenv \<Rightarrow> jsval \<Rightarrow> jsval \<Rightarrow> jsval \<Rightarrow> jsval \<Rightarrow> jsval \<Rightarrow> report" where
  "evaluateApkCoverage E sbomText inventory expectedSource expectedDistro lock = check
     (bindC (parseC sbomText (js ''syft'')) (\<lambda>sbom.
      bindC (liftC (acc lock ''syft'')) (\<lambda>syft.
      bindC (seqC
        [issue_if ''SBOM_SCHEMA'' (js ''syft'') (any_of
           [map_option (\<lambda>x. \<not> strict_eq (gets sbom [''schema'', ''version'']) x) (acc syft ''schemaVersion''),
            Some (\<not> strict_eq (gets sbom [''descriptor'', ''name'']) (JStr (js ''syft''))),
            Some (\<not> strict_eq (gets sbom [''descriptor'', ''version'']) (getp syft ''version''))]),
         issue_if ''SBOM_SOURCE'' (js ''syft.source'')
           (Some (\<not> truthy expectedSource
              \<or> canonical E (getp sbom ''source'') \<noteq> canonical E expectedSource)),
         issue_if ''SBOM_DISTRO'' (js ''syft.distro'')
           (Some (\<not> strict_eq (getp expectedDistro ''id'') (JStr (js ''alpine''))
              \<or> \<not> is_text (getp expectedDistro ''versionID'')
              \<or> \<not> strict_eq (gets sbom [''distro'', ''id'']) (getp expectedDistro ''id'')
              \<or> \<not> strict_eq (gets sbom [''distro'', ''versionID'']) (getp expectedDistro ''versionID''))),
         suppression (gets sbom [''descriptor'', ''configuration'']) (js ''syft.configuration''),
         issue_if ''SBOM_CONFIG'' (js ''syft.configuration'')
           (Some (\<not> strict_eq (getp syft ''generateCpes'') (JBool True)
              \<or> \<not> strict_eq (gets sbom [''descriptor'', ''configuration'', ''data-generation'', ''generate-cpes''])
                    (JBool True)))]) (\<lambda>_.
      if \<not> is_array inventory \<or> elements inventory = [] \<or> \<not> is_array (getp sbom ''artifacts'')
      then issueC ''APK_COVERAGE'' (js ''syft.artifacts'')
      else bindC (liftC (if list_ex nullish (elements inventory) then None
             else Some (map (\<lambda>p. (getp p ''name'', p)) (elements inventory)))) (\<lambda>trustedPackages.
        bindC (mapC (inventoryPackage E expectedDistro) (elements inventory)) (\<lambda>expected.
        bindC (issue_if ''INVENTORY_DUPLICATE'' (js ''inventory'')
          (Some (length (set_of_values (map (\<lambda>p. getp p ''name'') (elements inventory)))
                 \<noteq> length (elements inventory)))) (\<lambda>_.
        bindC (foldC (catalogArtifact E trustedPackages) ([], [], []) (elements (getp sbom ''artifacts'')))
          (\<lambda>(_, _, actual).
        issue_if ''APK_COVERAGE'' (js ''syft.artifacts'')
          (Some (canonical E (JArr (map JStr (sort actual)))
                 \<noteq> canonical E (JArr (map JStr (sort expected)))))))))))))"

section \<open>Grype reports\<close>

text \<open>\<^verbatim>\<open>/^(?:\[\d+\]\s+)?ERROR discovered ... threshold\r?\n?$/\<close>: an optional counter in brackets, the
  notice, an optional line end.\<close>

definition skip_counter :: "jstring \<Rightarrow> jstring" where
  "skip_counter s =
     (let d = dropWhile is_digit (tl s); w = drop 1 d
      in if starts_with s [91] \<and> takeWhile is_digit (tl s) \<noteq> [] \<and> starts_with d [93]
            \<and> takeWhile is_ws w \<noteq> []
         then dropWhile is_ws w else s)"

definition threshold_notice :: "jstring" where
  "threshold_notice = js ''ERROR discovered vulnerabilities at or above the severity threshold''"

definition is_threshold_notice :: "jstring \<Rightarrow> bool" where
  "is_threshold_notice s \<longleftrightarrow>
     (let t = skip_counter s in
      starts_with t threshold_notice
      \<and> drop (length threshold_notice) t \<in> {[], [13], [10], [13, 10]})"

definition known_severity :: "jsval \<Rightarrow> bool" where
  "known_severity v \<longleftrightarrow> is_one_of v [''Negligible'', ''Low'', ''Medium'', ''High'', ''Critical'']"

definition blocking_severity :: "jsval \<Rightarrow> bool" where
  "blocking_severity v \<longleftrightarrow> is_one_of v [''High'', ''Critical'']"

text \<open>One CVSS entry, with the flag \<^verbatim>\<open>high\<close>.\<close>

definition cvssEntry :: "jstring \<Rightarrow> bool \<Rightarrow> jsval \<Rightarrow> bool checked" where
  "cvssEntry path high cvss =
     (case gets cvss [''metrics'', ''baseScore''] of
        JNum (Fin score) \<Rightarrow>
          if score < 0 \<or> score > 10
          then bindC (issueC ''VULNERABILITY_CVSS'' path) (\<lambda>_. retC high)
          else retC (high \<or> score \<ge> 7)
      | _ \<Rightarrow> bindC (issueC ''VULNERABILITY_CVSS'' path) (\<lambda>_. retC high))"

definition vulnerabilityC :: "jstring \<Rightarrow> jsval \<Rightarrow> unit checked" where
  "vulnerabilityC path v =
     (let severity = getp v ''severity''; cvss = getp v ''cvss'' in
      bindC (issue_if ''VULNERABILITY_UNKNOWN'' path
               (Some (\<not> is_text (getp v ''id'') \<or> \<not> known_severity severity))) (\<lambda>_.
      bindC (issue_if ''VULNERABILITY_CVSS'' path (Some (\<not> is_array cvss))) (\<lambda>_.
      bindC (liftC (iterate (coalesce cvss (JArr [])))) (\<lambda>entries.
      bindC (foldC (cvssEntry path) (blocking_severity severity) entries) (\<lambda>high.
        issue_if ''VULNERABILITY_THRESHOLD'' path (Some high))))))"

text \<open>One match, with the expected exit code as the state.\<close>

definition matchC :: "nat \<Rightarrow> nat \<times> jsval \<Rightarrow> nat checked" where
  "matchC expectedExit im =
     (case im of (index, match) \<Rightarrow>
     let path = js ''grype.matches['' @ nat_text index @ js '']'' in
     bindC (liftC (acc match ''artifact'')) (\<lambda>artifact.
     bindC (issue_if ''SCAN_SCHEMA'' path
       (Some (\<not> is_text (getp artifact ''id'') \<or> \<not> is_text (getp artifact ''name'')
              \<or> \<not> is_text (getp artifact ''version'')))) (\<lambda>_.
     bindC (issue_if ''SCAN_SCHEMA'' path (Some (\<not> is_array (getp match ''relatedVulnerabilities'')))) (\<lambda>_.
     bindC (liftC (iterate (coalesce (getp match ''relatedVulnerabilities'') (JArr [])))) (\<lambda>related.
     bindC (seqC (map (vulnerabilityC path) (getp match ''vulnerability'' # related))) (\<lambda>_.
       retC (if blocking_severity (gets match [''vulnerability'', ''severity'']) then 2
             else expectedExit)))))))"

definition alpine_family :: "jsval \<Rightarrow> jsval \<Rightarrow> bool option" where
  "alpine_family versionID reported =
     (case versionID of
        JStr s \<Rightarrow> Some (reported = JStr s \<or> reported = JStr (join [46] (take 2 (split_on 46 s))))
      | _ \<Rightarrow> if nullish versionID then Some (same_value versionID reported \<or> reported = JUndef) else None)"

definition scan_config_differs :: "jsval \<Rightarrow> bool" where
  "scan_config_differs c \<longleftrightarrow>
     \<not> strict_eq (getp c ''fail-on-severity'') (JStr (js ''high''))
     \<or> \<not> strict_eq (getp c ''match-upstream-kernel-headers'') (JBool True)
     \<or> \<not> strict_eq (gets c [''match'', ''stock'', ''using-cpes'']) (JBool True)
     \<or> \<not> strict_eq (gets c [''alerts'', ''enable-eol-distro-warnings'']) (JBool True)
     \<or> \<not> strict_eq (gets c [''db'', ''auto-update'']) (JBool False)
     \<or> \<not> strict_eq (gets c [''db'', ''validate-age'']) (JBool True)
     \<or> \<not> strict_eq (gets c [''db'', ''validate-by-hash-on-start'']) (JBool True)
     \<or> gets c [''db'', ''max-allowed-built-age'']
          \<notin> {JNum (Fin 172800000000000), JStr (js ''48h''), JStr (js ''48h0m0s'')}"

definition reportHeader ::
  "jsenv \<Rightarrow> jsval \<Rightarrow> jsval \<Rightarrow> jsval \<Rightarrow> jsval \<Rightarrow> jsval \<Rightarrow> jsval \<Rightarrow> jsval \<Rightarrow> unit checked" where
  "reportHeader E report rawExit stderr expectedSource expectedDistro database lock =
     seqC
      [issue_if ''SCAN_PROCESS'' (js ''grype'')
         (Some ((rawExit \<noteq> JNum (Fin 0) \<and> rawExit \<noteq> JNum (Fin 2))
            \<or> (stderr \<noteq> JStr [] \<and>
               \<not> (rawExit = JNum (Fin 2) \<and>
                  (case stderr of JStr s \<Rightarrow> is_threshold_notice s | _ \<Rightarrow> False))))),
       issue_if ''SCAN_SCHEMA'' (js ''grype'') (any_of
         [Some (\<not> strict_eq (gets report [''descriptor'', ''name'']) (JStr (js ''grype''))),
          Option.bind (acc lock ''grype'') (\<lambda>g. map_option
            (\<lambda>x. \<not> strict_eq (gets report [''descriptor'', ''version'']) x) (acc g ''version'')),
          Some (\<not> is_array (getp report ''matches''))]),
       issue_if ''SCAN_SOURCE'' (js ''grype.source'')
         (Some (\<not> truthy expectedSource
            \<or> canonical E (getp report ''source'') \<noteq> canonical E expectedSource)),
       issue_if ''SCAN_DISTRO'' (js ''grype.distro'') (all_of
         [Some (truthy expectedDistro), any_of
           [Some (\<not> strict_eq (getp expectedDistro ''id'') (JStr (js ''alpine''))),
            Some (\<not> strict_eq (gets report [''distro'', ''name'']) (JStr (js ''alpine''))),
            map_option Not (alpine_family (getp expectedDistro ''versionID'')
                              (gets report [''distro'', ''version'']))]]),
       issue_if ''DB_REPORT'' (js ''grype.descriptor.db'')
         (Option.bind (acc database ''status'') (\<lambda>status. any_of
           [map_option Not (validDbStatus (gets report [''descriptor'', ''db'', ''status'']) status),
            map_option (\<lambda>x. \<not> strict_eq (gets report [''descriptor'', ''db'', ''status'', ''path'']) x)
              (acc status ''path'')])),
       seqC (map (\<lambda>name. let p = gets report [''descriptor'', ''db'', ''providers'', name] in
           issue_if ''DB_COVERAGE'' (js ''grype.descriptor.db.providers.'' @ js name)
             (Some (\<not> is_text (getp p ''input'')
                \<or> \<not> is_finite (js_date_parse E (to_text E (getp p ''captured''))))))
         [''alpine'', ''nvd'', ''eol'']),
       issue_if ''SCAN_SUPPRESSION'' (js ''grype.ignoredMatches'')
         (Some (\<not> omittedOrEmptyArray (getp report ''ignoredMatches''))),
       issue_if ''SCAN_ALERT'' (js ''grype'')
         (Some (\<not> omittedOrEmptyArray (getp report ''alertsByPackage'')
            \<or> \<not> omittedOrEmptyArray (getp report ''errors''))),
       suppression (gets report [''descriptor'', ''configuration'']) (js ''grype.configuration''),
       (let c = gets report [''descriptor'', ''configuration''] in seqC
         [issue_if ''SCAN_SUPPRESSION'' (js ''grype.configuration'')
            (Some (\<not> strict_eq (getp c ''only-fixed'') (JBool False)
               \<or> \<not> strict_eq (getp c ''only-notfixed'') (JBool False)
               \<or> \<not> strict_eq (getp c ''ignore-wontfix'') (JStr []))),
          issue_if ''SCAN_CONFIG'' (js ''grype.configuration'') (Some (scan_config_differs c))])]"

text \<open>\<^verbatim>\<open>(report.matches ?? []).entries()\<close>: only an array has entries.\<close>

definition array_or_absent :: "jsval \<Rightarrow> jsval list option" where
  "array_or_absent v = (if nullish v then Some [] else case v of JArr xs \<Rightarrow> Some xs | _ \<Rightarrow> None)"

definition evaluateGrypeReport ::
  "jsenv \<Rightarrow> jsval \<Rightarrow> jsval \<Rightarrow> jsval \<Rightarrow> jsval \<Rightarrow> jsval \<Rightarrow> jsval \<Rightarrow> jsval \<Rightarrow> report" where
  "evaluateGrypeReport E reportText rawExit stderr expectedSource expectedDistro database lock = check
     (bindC (parseC reportText (js ''grype'')) (\<lambda>report.
      bindC (reportHeader E report rawExit stderr expectedSource expectedDistro database lock) (\<lambda>_.
      bindC (liftC (array_or_absent (getp report ''matches''))) (\<lambda>matches.
      bindC (foldC matchC 0 (enumerate 0 matches)) (\<lambda>expectedExit.
        issue_if ''SCAN_EXIT_MISMATCH'' (js ''grype.rawExit'')
          (Some ((rawExit = JNum (Fin 0) \<or> rawExit = JNum (Fin 2))
                 \<and> rawExit \<noteq> JNum (Fin (of_nat expectedExit)))))))))"

section \<open>PostgreSQL source coverage\<close>

definition postgresComponent :: "jsenv \<Rightarrow> jsval \<Rightarrow> (jstring \<times> jsval) list" where
  "postgresComponent E version =
     [(js ''type'', JStr (js ''application'')), (js ''bom-ref'', JStr (js ''postgresql-source'')),
      (js ''name'', JStr (js ''postgresql'')), (js ''version'', version),
      (js ''purl'', JStr (js ''pkg:generic/postgresql@'' @ to_text E version)),
      (js ''cpe'', JStr (js ''cpe:2.3:a:postgresql:postgresql:'' @ to_text E version @ js '':*:*:*:*:*:*:*''))]"

definition postgres_17 :: "jstring \<Rightarrow> bool" where
  "postgres_17 s \<longleftrightarrow> take 3 s = js ''17.'' \<and> all_digits (drop 3 s)"

definition postgresSbomValue :: "jsenv \<Rightarrow> jsval \<Rightarrow> jsval \<Rightarrow> jsval \<Rightarrow> jsval \<Rightarrow> jsval" where
  "postgresSbomValue E version sourceSha256 binarySha256 imageDigest =
     JObj [(js ''bomFormat'', JStr (js ''CycloneDX'')), (js ''specVersion'', JStr (js ''1.6'')),
       (js ''version'', JNum (Fin 1)),
       (js ''components'', JArr [JObj (postgresComponent E version @
         [(js ''hashes'', JArr [JObj [(js ''alg'', JStr (js ''SHA-256'')), (js ''content'', binarySha256)]]),
          (js ''properties'', JArr
            [JObj [(js ''name'', JStr (js ''hedefora:source-sha256'')), (js ''value'', sourceSha256)],
             JObj [(js ''name'', JStr (js ''hedefora:image-digest'')), (js ''value'', imageDigest)]])])])]"

text \<open>The document with the four inputs; \<open>None\<close> is the thrown error.\<close>

definition makePostgresSbom :: "jsenv \<Rightarrow> jsval \<Rightarrow> jsval \<Rightarrow> jsval \<Rightarrow> jsval \<Rightarrow> jstring option" where
  "makePostgresSbom E version sourceSha256 binarySha256 imageDigest =
     (if \<not> postgres_17 (to_text E version) \<or> \<not> HASH E sourceSha256 \<or> \<not> HASH E binarySha256
         \<or> \<not> DIGEST E imageDigest then None
      else map_option (\<lambda>t. t @ [10])
        (stringify E (postgresSbomValue E version sourceSha256 binarySha256 imageDigest)))"

text \<open>\<^verbatim>\<open>expected\<close>, built by the caller from the lock and the target.\<close>

record source_expectation =
  x_version :: jsval
  x_sourceSha256 :: jsval
  x_binarySha256 :: jsval
  x_imageDigest :: jsval

definition evaluateSourceCoverage :: "jsenv \<Rightarrow> jsval \<Rightarrow> source_expectation \<Rightarrow> report" where
  "evaluateSourceCoverage E sbomText expected = check
     (bindC (parseC sbomText (js ''source.sbom'')) (\<lambda>sbom.
      bindC (liftC (Option.bind (makePostgresSbom E (x_version expected) (x_sourceSha256 expected)
                     (x_binarySha256 expected) (x_imageDigest expected)) json_parse)) (\<lambda>reference.
        issue_if ''SOURCE_COVERAGE'' (js ''source.sbom'')
          (Some (canonical E sbom \<noteq> canonical E reference)))))"

definition envelope :: "jsenv \<Rightarrow> jsval \<Rightarrow> jsval \<Rightarrow> jsval \<Rightarrow> jstring \<Rightarrow> unit checked" where
  "envelope E e runId inputSha256 path = seqC
     [issue_if ''RUN_ID'' path (Some (\<not> truthy e \<or> \<not> strict_eq (getp e ''runId'') runId)),
      issue_if ''ARTIFACT_BINDING'' path
        (Some (case getp e ''text'' of
             JStr t \<Rightarrow> getp e ''sha256'' \<noteq> JStr (sha256 E t)
                        \<or> \<not> strict_eq (getp e ''inputSha256'') inputSha256
           | _ \<Rightarrow> True))]"

section \<open>The APK canary\<close>

definition drop_revision :: "jstring \<Rightarrow> jstring" where
  "drop_revision s =
     (let r = rev s; d = takeWhile is_digit r; q = dropWhile is_digit r
      in if d \<noteq> [] \<and> take 2 q = [114, 45] then rev (drop 2 q) else s)"

text \<open>\<^verbatim>\<open>parts[5] = x\<close> on an array that may be shorter; holes join as empty texts.\<close>

definition set_fifth :: "jstring list \<Rightarrow> jstring \<Rightarrow> jstring list" where
  "set_fifth parts x = take 5 (parts @ replicate 5 []) @ [x] @ drop 6 parts"

definition search_cpe :: "jsval \<Rightarrow> jstring" where
  "search_cpe r =
     join [58] (set_fifth (case getp r ''cpe'' of JStr s \<Rightarrow> split_on 58 s | _ \<Rightarrow> [])
                          (case getp r ''version'' of JStr v \<Rightarrow> drop_revision v | _ \<Rightarrow> []))"

definition is_infix :: "jstring \<Rightarrow> jstring \<Rightarrow> bool" where
  "is_infix s t \<longleftrightarrow> list_ex (\<lambda>i. take (length s) (drop i t) = s) [0..<length t + 1]"

text \<open>\<^verbatim>\<open>v?.includes(x)\<close>: membership in an array, a substring of a string; undefined, which is false,
  on null and undefined.\<close>

definition includes_value :: "jsenv \<Rightarrow> jsval \<Rightarrow> jsval \<Rightarrow> bool option" where
  "includes_value E v x =
     (if nullish v then Some False
      else case v of
        JArr xs \<Rightarrow> Some (list_ex (\<lambda>y. same_value y x) xs)
      | JStr s \<Rightarrow> Some (is_infix (to_text E x) s)
      | _ \<Rightarrow> None)"

text \<open>\<^verbatim>\<open>v?.some(f)\<close> and \<^verbatim>\<open>v?.find(f)\<close>, whose result is undefined when there is none.\<close>

definition some_in :: "(jsval \<Rightarrow> bool option) \<Rightarrow> jsval \<Rightarrow> bool option" where
  "some_in f v =
     (if nullish v then Some False
      else case v of JArr xs \<Rightarrow> some_of f xs | _ \<Rightarrow> None)"

fun first_match :: "(jsval \<Rightarrow> bool option) \<Rightarrow> jsval list \<Rightarrow> jsval option" where
  "first_match f [] = Some JUndef"
| "first_match f (x # xs) =
     (case f x of None \<Rightarrow> None | Some True \<Rightarrow> Some x | Some False \<Rightarrow> first_match f xs)"

definition find_in :: "(jsval \<Rightarrow> bool option) \<Rightarrow> jsval \<Rightarrow> jsval option" where
  "find_in f v =
     (if nullish v then Some JUndef
      else case v of JArr xs \<Rightarrow> first_match f xs | _ \<Rightarrow> None)"

text \<open>\<^verbatim>\<open>v.k === w\<close> where the access may throw.\<close>

definition same :: "jsval \<Rightarrow> string \<Rightarrow> jsval \<Rightarrow> bool option" where
  "same v k w = map_option (\<lambda>x. strict_eq x w) (acc v k)"

definition projection :: "jsenv \<Rightarrow> jsval \<Rightarrow> jsval \<Rightarrow> jsval \<Rightarrow> jsval \<Rightarrow> jsval \<Rightarrow> jstring" where
  "projection E name version purl vulnerabilityId severity =
     apkKey E [name, version, purl, vulnerabilityId, severity]"

definition cpeDetail :: "jsenv \<Rightarrow> jsval \<Rightarrow> jsval \<Rightarrow> bool option" where
  "cpeDetail E r d = all_of
     [same d ''type'' (JStr (js ''cpe-match'')),
      Some (strict_eq (getp d ''matcher'') (JStr (js ''apk-matcher''))),
      Some (strict_eq (gets d [''searchedBy'', ''namespace'']) (JStr (js ''nvd:cpe''))),
      Some (strict_eq (gets d [''searchedBy'', ''package'', ''name'']) (getp r ''name'')),
      Some (strict_eq (gets d [''searchedBy'', ''package'', ''version'']) (getp r ''version'')),
      includes_value E (gets d [''searchedBy'', ''cpes'']) (JStr (search_cpe r)),
      Some (strict_eq (gets d [''found'', ''vulnerabilityID'']) (getp r ''vulnerabilityId''))]"

definition detects :: "jsenv \<Rightarrow> jsval \<Rightarrow> jsval \<Rightarrow> bool option" where
  "detects E r m = all_of
     [map_option (\<lambda>v. strict_eq (getp v ''id'') (getp r ''vulnerabilityId'')) (acc m ''vulnerability''),
      same (getp m ''vulnerability'') ''severity'' (getp r ''severity''),
      Some (strict_eq (gets m [''vulnerability'', ''namespace'']) (JStr (js ''nvd:cpe''))),
      Some (strict_eq (gets m [''artifact'', ''type'']) (JStr (js ''apk''))),
      Some (strict_eq (gets m [''artifact'', ''name'']) (getp r ''name'')),
      Some (strict_eq (gets m [''artifact'', ''version'']) (getp r ''version'')),
      Some (strict_eq (gets m [''artifact'', ''purl'']) (getp r ''purl'')),
      includes_value E (gets m [''artifact'', ''cpes'']) (getp r ''cpe''),
      some_in (cpeDetail E r) (getp m ''matchDetails'')]"

definition requiredMatch :: "jsenv \<Rightarrow> jsval \<Rightarrow> jsval \<Rightarrow> jsval \<Rightarrow> unit checked" where
  "requiredMatch E expected report r =
     bindC (liftC (find_in (\<lambda>p. all_of
              [same p ''name'' (getp r ''name''),
               Some (strict_eq (getp p ''version'') (getp r ''version'')),
               Some (strict_eq (getp p ''purl'') (getp r ''purl''))]) (getp expected ''inventory''))) (\<lambda>pkg.
     seqC
       [issue_if ''APK_CANARY_EXPECTATIONS'' (js ''apkCanary'') (any_of
          [Some (\<not> is_text (getp r ''vulnerabilityId'')),
           Some (\<not> blocking_severity (getp r ''severity'')),
           map_option Not (includes_value E (getp pkg ''cpes'') (getp r ''cpe''))]),
        issue_if ''APK_CANARY_DETECTION'' (js ''apkCanary'')
          (map_option Not (some_in (detects E r) (getp report ''matches'')))])"

text \<open>\<^verbatim>\<open>x >= 7\<close> with the conversion to a number.\<close>

definition at_least_7 :: "jsenv \<Rightarrow> jsval \<Rightarrow> bool" where
  "at_least_7 E v = (case to_number E v of Fin r \<Rightarrow> r \<ge> 7 | Infinity neg \<Rightarrow> \<not> neg | NaN \<Rightarrow> False)"

definition blockingVulnerability :: "jsenv \<Rightarrow> jsval \<Rightarrow> bool option" where
  "blockingVulnerability E v = any_of
     [Some (blocking_severity (getp v ''severity'')),
      some_in (\<lambda>c. Some (at_least_7 E (gets c [''metrics'', ''baseScore'']))) (getp v ''cvss'')]"

definition blockingMatch :: "jsenv \<Rightarrow> jsval \<Rightarrow> bool option" where
  "blockingMatch E m =
     Option.bind (acc m ''vulnerability'') (\<lambda>v.
     Option.bind (iterate (coalesce (getp m ''relatedVulnerabilities'') (JArr []))) (\<lambda>related.
       some_of (blockingVulnerability E) (v # related)))"

fun filter_opt :: "('a \<Rightarrow> bool option) \<Rightarrow> 'a list \<Rightarrow> 'a list option" where
  "filter_opt f [] = Some []"
| "filter_opt f (x # xs) =
     (case f x of None \<Rightarrow> None
      | Some b \<Rightarrow> map_option (\<lambda>ys. if b then x # ys else ys) (filter_opt f xs))"

definition projectionOfMatch :: "jsenv \<Rightarrow> jsval \<Rightarrow> jstring" where
  "projectionOfMatch E m =
     projection E (gets m [''artifact'', ''name'']) (gets m [''artifact'', ''version''])
       (gets m [''artifact'', ''purl'']) (gets m [''vulnerability'', ''id''])
       (gets m [''vulnerability'', ''severity''])"

definition projectionOfRequired :: "jsenv \<Rightarrow> jsval \<Rightarrow> jstring" where
  "projectionOfRequired E r =
     projection E (getp r ''name'') (getp r ''version'') (getp r ''purl'')
       (getp r ''vulnerabilityId'') (getp r ''severity'')"

definition canaryFindings :: "jsenv \<Rightarrow> jsval \<Rightarrow> jsval \<Rightarrow> jsval \<Rightarrow> unit checked" where
  "canaryFindings E evidence expected report =
     (let required = getp expected ''requiredMatches'' in
      if \<not> is_array required \<or> elements required = [] \<or> length (elements required) > 64
      then issueC ''APK_CANARY_EXPECTATIONS'' (js ''apkCanary'')
      else bindC (liftC (if list_ex nullish (elements required) then None
             else Some (map (projectionOfRequired E) (elements required)))) (\<lambda>expectedFindings.
        bindC (issue_if ''APK_CANARY_EXPECTATIONS'' (js ''apkCanary'')
          (Some (length (remdups expectedFindings) \<noteq> length (elements required)))) (\<lambda>_.
        bindC (seqC (map (requiredMatch E expected report) (elements required))) (\<lambda>_.
        bindC (liftC (Option.bind (array_or_absent (getp report ''matches''))
                        (filter_opt (blockingMatch E)))) (\<lambda>blocking.
        issue_if ''APK_CANARY_DETECTION'' (js ''apkCanary'')
          (Some (\<not> strict_eq (gets evidence [''grype'', ''rawExit'']) (JNum (Fin 2))
             \<or> canonical E (JArr (map JStr (sort (map (projectionOfMatch E) blocking))))
                \<noteq> canonical E (JArr (map JStr (sort expectedFindings))))))))))"

definition evaluateApkCanary :: "jsenv \<Rightarrow> jsval \<Rightarrow> jsval \<Rightarrow> jsval \<Rightarrow> jsval \<Rightarrow> jsval \<Rightarrow> report" where
  "evaluateApkCanary E evidence expected runId database lock = check
     (bindC (seqC
       [issue_if ''APK_CANARY_BINDING'' (js ''apkCanary'')
          (Some (\<not> truthy expected \<or> \<not> DIGEST E (getp expected ''imageDigest'')
             \<or> \<not> HASH E (getp expected ''rootfsSha256'')
             \<or> \<not> strict_eq (getp evidence ''imageDigest'') (getp expected ''imageDigest'')
             \<or> \<not> strict_eq (getp evidence ''rootfsSha256'') (getp expected ''rootfsSha256''))),
        issue_if ''EXTRACTION'' (js ''apkCanary'')
          (Some (\<not> strict_eq (getp evidence ''runId'') runId
             \<or> \<not> strict_eq (gets evidence [''extraction'', ''rawExit'']) (JNum (Fin 0))
             \<or> gets evidence [''extraction'', ''errors''] \<noteq> JArr [])),
        envelope E (getp evidence ''syft'') runId (getp expected ''rootfsSha256'') (js ''apkCanary.syft''),
        issue_if ''SCAN_PROCESS'' (js ''apkCanary.syft'')
          (Some (\<not> strict_eq (gets evidence [''syft'', ''rawExit'']) (JNum (Fin 0))
             \<or> \<not> strict_eq (gets evidence [''syft'', ''stderr'']) (JStr []))),
        merge_under (js ''apkCanary'') (r_findings (evaluateApkCoverage E (gets evidence [''syft'', ''text''])
          (getp expected ''inventory'') (getp expected ''syftSource'') (getp expected ''distro'') lock))]) (\<lambda>_.
      bindC (parseC (gets evidence [''syft'', ''text'']) (js ''apkCanary.syft'')) (\<lambda>sbom.
      bindC (seqC
       [issue_if ''APK_CANARY_BINDING'' (js ''apkCanary.syft'')
          (Some (\<not> strict_eq (gets sbom [''source'', ''type'']) (JStr (js ''image''))
             \<or> \<not> strict_eq (gets sbom [''source'', ''metadata'', ''manifestDigest''])
                   (getp expected ''imageDigest''))),
        envelope E (getp evidence ''grype'') runId (gets evidence [''syft'', ''sha256'']) (js ''apkCanary.grype''),
        merge_under (js ''apkCanary'') (filter (\<lambda>f. i_code f \<noteq> ''VULNERABILITY_THRESHOLD'')
          (r_findings (evaluateGrypeReport E (gets evidence [''grype'', ''text''])
            (gets evidence [''grype'', ''rawExit'']) (gets evidence [''grype'', ''stderr''])
            (getp expected ''grypeSource'') (getp expected ''distro'') database lock)))]) (\<lambda>_.
      bindC (parseC (gets evidence [''grype'', ''text'']) (js ''apkCanary.grype'')) (\<lambda>report.
        canaryFindings E evidence expected report)))))"

section \<open>Image admission\<close>

text \<open>\<^verbatim>\<open>Object.keys\<close>\<close>

definition object_keys :: "jsval \<Rightarrow> jstring list" where
  "object_keys v = (case v of JObj fs \<Rightarrow> map fst fs | JArr xs \<Rightarrow> map nat_text [0..<length xs]
     | JStr s \<Rightarrow> map nat_text [0..<length s] | _ \<Rightarrow> [])"

definition stageEvidence ::
  "jsenv \<Rightarrow> jsval \<Rightarrow> jsval \<Rightarrow> jsval \<Rightarrow> jsval \<Rightarrow> string \<Rightarrow> unit checked" where
  "stageEvidence E evidence lock runId targets name =
     (let stage = gets evidence [''stages'', name]; target = getp targets name in
      bindC (seqC
       [issue_if ''IMAGE_BINDING'' (js name) (any_of
          [Some (\<not> truthy target \<or> \<not> DIGEST E (getp target ''imageDigest'')
             \<or> \<not> HASH E (getp target ''rootfsSha256'')
             \<or> \<not> strict_eq (getp stage ''imageDigest'') (getp target ''imageDigest'')),
           differs stage ''rootfsSha256'' (getp target ''rootfsSha256'')]),
        issue_if ''EXTRACTION'' (js name)
          (Some (\<not> strict_eq (getp stage ''runId'') runId
             \<or> \<not> strict_eq (gets stage [''extraction'', ''rawExit'']) (JNum (Fin 0))
             \<or> gets stage [''extraction'', ''errors''] \<noteq> JArr [])),
        envelope E (getp stage ''syft'') runId (getp target ''rootfsSha256'') (js name @ js ''.syft''),
        issue_if ''SCAN_PROCESS'' (js name @ js ''.syft'')
          (Some (\<not> strict_eq (gets stage [''syft'', ''rawExit'']) (JNum (Fin 0))
             \<or> \<not> strict_eq (gets stage [''syft'', ''stderr'']) (JStr []))),
        merge_under (js name) (r_findings (evaluateApkCoverage E (gets stage [''syft'', ''text''])
          (getp target ''inventory'') (getp target ''syftSource'') (getp target ''distro'') lock))]) (\<lambda>_.
      bindC (parseC (gets stage [''syft'', ''text'']) (js name @ js ''.syft'')) (\<lambda>catalog.
      seqC
       [issue_if ''IMAGE_BINDING'' (js name @ js ''.syft.source'')
          (Some (strict_eq (gets catalog [''source'', ''type'']) (JStr (js ''image''))
             \<and> \<not> strict_eq (gets catalog [''source'', ''metadata'', ''manifestDigest''])
                   (getp target ''imageDigest''))),
        envelope E (getp stage ''grype'') runId (gets stage [''syft'', ''sha256'']) (js name @ js ''.grype''),
        merge_under (js name) (r_findings (evaluateGrypeReport E (gets stage [''grype'', ''text''])
          (gets stage [''grype'', ''rawExit'']) (gets stage [''grype'', ''stderr''])
          (getp target ''grypeSource'') (getp target ''distro'') (getp evidence ''database'') lock))])))"

definition sourceEvidence :: "jsenv \<Rightarrow> jsval \<Rightarrow> jsval \<Rightarrow> jsval \<Rightarrow> jsval \<Rightarrow> jsval \<Rightarrow> unit checked" where
  "sourceEvidence E evidence lock runId postgres runtime =
     (let source = getp evidence ''source'';
          expected = \<lparr>x_version = getp postgres ''version'', x_sourceSha256 = getp postgres ''sha256'',
                      x_binarySha256 = getp runtime ''postgresBinarySha256'',
                      x_imageDigest = getp runtime ''imageDigest''\<rparr>
      in seqC
       [envelope E (getp source ''sbom'') runId (x_binarySha256 expected) (js ''source.sbom''),
        merge_under (js ''source'')
          (r_findings (evaluateSourceCoverage E (gets source [''sbom'', ''text'']) expected)),
        envelope E (getp source ''grype'') runId (gets source [''sbom'', ''sha256'']) (js ''source.grype''),
        merge_under (js ''source'') (r_findings (evaluateGrypeReport E (gets source [''grype'', ''text''])
          (gets source [''grype'', ''rawExit'']) (gets source [''grype'', ''stderr''])
          (getp runtime ''sourceGrypeSource'') JUndef (getp evidence ''database'') lock))])"

definition canaryDetects :: "jsenv \<Rightarrow> jsval \<Rightarrow> bool option" where
  "canaryDetects E m =
     (let component = JObj (postgresComponent E (JStr (js ''17.2''))) in all_of
       [map_option (\<lambda>v. strict_eq (getp v ''id'') (JStr (js ''CVE-2025-1094''))) (acc m ''vulnerability''),
        Some (blocking_severity (gets m [''vulnerability'', ''severity''])),
        Some (strict_eq (gets m [''artifact'', ''name'']) (JStr (js ''postgresql''))),
        Some (strict_eq (gets m [''artifact'', ''version'']) (JStr (js ''17.2''))),
        Some (strict_eq (gets m [''artifact'', ''purl'']) (getp component ''purl'')),
        includes_value E (gets m [''artifact'', ''cpes'']) (getp component ''cpe'')])"

definition sourceCanary :: "jsenv \<Rightarrow> jsval \<Rightarrow> jsval \<Rightarrow> jsval \<Rightarrow> jsval \<Rightarrow> unit checked" where
  "sourceCanary E evidence trusted lock runId =
     (let canary = getp evidence ''canary'' in
      bindC (envelope E (getp canary ''sbom'') runId
               (JStr (sha256 E (js ''postgresql-source-canary-17.2''))) (js ''canary.sbom'')) (\<lambda>_.
      bindC (parseC (gets canary [''sbom'', ''text'']) (js ''canary.sbom'')) (\<lambda>canaryDoc.
      bindC (seqC
       [issue_if ''CANARY_COVERAGE'' (js ''canary.sbom'')
          (Some (\<not> strict_eq (getp canaryDoc ''bomFormat'') (JStr (js ''CycloneDX''))
             \<or> \<not> strict_eq (getp canaryDoc ''specVersion'') (JStr (js ''1.6''))
             \<or> \<not> strict_eq (getp canaryDoc ''version'') (JNum (Fin 1))
             \<or> canonical E (getp canaryDoc ''components'')
                \<noteq> canonical E (JArr [JObj (postgresComponent E (JStr (js ''17.2'')))]))),
        envelope E (getp canary ''grype'') runId (gets canary [''sbom'', ''sha256'']) (js ''canary.grype''),
        merge_under (js ''canary'') (filter (\<lambda>f. i_code f \<noteq> ''VULNERABILITY_THRESHOLD'')
          (r_findings (evaluateGrypeReport E (gets canary [''grype'', ''text''])
            (gets canary [''grype'', ''rawExit'']) (gets canary [''grype'', ''stderr''])
            (getp trusted ''canaryGrypeSource'') JUndef (getp evidence ''database'') lock)))]) (\<lambda>_.
      bindC (parseC (gets canary [''grype'', ''text'']) (js ''canary.grype'')) (\<lambda>r.
        issue_if ''CANARY_DETECTION'' (js ''canary'') (any_of
          [Some (\<not> strict_eq (gets canary [''grype'', ''rawExit'']) (JNum (Fin 2))),
           map_option Not (some_in (canaryDetects E) (getp r ''matches''))]))))))"

definition admissionBody :: "jsenv \<Rightarrow> jsval \<Rightarrow> jsval \<Rightarrow> unit checked" where
  "admissionBody E evidence trusted =
     bindC (liftC (acc trusted ''lock'')) (\<lambda>lock.
     let now = getp trusted ''now''; runId = getp trusted ''runId''; targets = getp trusted ''targets'' in
     bindC (issue_if ''RUN_ID'' (js ''$'') (Some (\<not> is_text runId))) (\<lambda>_.
     bindC (liftC (acc evidence ''tools'')) (\<lambda>tools.
     bindC (seqC
      ([merge_under (js ''grype'') (r_findings
          (evaluateScannerIdentity E ''grype'' (getp tools ''grype'') lock runId)),
        merge_under (js ''syft'') (r_findings
          (evaluateScannerIdentity E ''syft'' (getp tools ''syft'') lock runId)),
        merge_under (js ''database'') (r_findings
          (evaluateDatabase E (getp evidence ''database'') lock now runId)),
        issue_if ''STAGES'' (js ''stages'')
          (Some (canonical E (JArr (map JStr (sort (object_keys (getp evidence ''stages'')))))
             \<noteq> canonical E (JArr [JStr (js ''build''), JStr (js ''runtime'')])))]
       @ map (stageEvidence E evidence lock runId targets) [''build'', ''runtime''])) (\<lambda>_.
     bindC (liftC (acc lock ''postgres'')) (\<lambda>postgres.
     bindC (liftC (acc postgres ''version'')) (\<lambda>_.
     bindC (liftC (acc targets ''runtime'')) (\<lambda>runtime.
     bindC (liftC (acc runtime ''postgresBinarySha256'')) (\<lambda>_.
     seqC
      [sourceEvidence E evidence lock runId postgres runtime,
       merge_under (js ''apkCanary'') (r_findings (evaluateApkCanary E (getp evidence ''apkCanary'')
         (getp trusted ''apkCanary'') runId (getp evidence ''database'') lock)),
       sourceCanary E evidence trusted lock runId]))))))))"

text \<open>The two fields \<^verbatim>\<open>executionAdmission\<close> and \<^verbatim>\<open>licenseReview\<close> are always \<^verbatim>\<open>NOT_EVALUATED\<close>.\<close>

record admission = report +
  a_scope :: string
  a_executionAdmission :: string
  a_licenseReview :: string

definition evaluateImageAdmission :: "jsenv \<Rightarrow> jsval \<Rightarrow> jsval \<Rightarrow> admission" where
  "evaluateImageAdmission E evidence trusted =
     (let r = check (admissionBody E evidence trusted)
      in \<lparr>r_status = r_status r, r_findings = r_findings r, a_scope = ''image-vulnerability-evidence'',
          a_executionAdmission = ''NOT_EVALUATED'', a_licenseReview = ''NOT_EVALUATED''\<rparr>)"

end
