(* ===== verification/Image_Policy_Props.thy ===== *)
theory Image_Policy_Props
  imports Image_Policy
begin

text \<open>
  What a \<^verbatim>\<open>PASS\<close> of the image-admission policy says about the evidence.
\<close>

declare any_of.simps [simp del] all_of.simps [simp del]

lemma getp_undefined [simp]: "getp JUndef k = JUndef" "getp JNull k = JUndef"
  by (simp_all add: getp_def)

lemma is_text_iff: "is_text v \<longleftrightarrow> (\<exists>s. v = JStr s \<and> s \<noteq> [])"
  by (cases v) (auto simp: is_text_def)

lemma find_SomeD: "List.find P xs = Some x \<Longrightarrow> x \<in> set xs \<and> P x"
  by (induction xs) (auto split: if_splits)

section \<open>Clean checks\<close>

text \<open>A check is clean when it issued nothing and did not throw.  Each combinator is clean
  exactly when its parts are, so unfolding an evaluator under \<open>simp\<close> gives the conjunction
  of its conditions.\<close>

abbreviation clean :: "'a checked \<Rightarrow> 'a \<Rightarrow> bool" where
  "clean m x \<equiv> m = ([], Some x)"

lemma clean_ret [simp]: "clean (retC x) y \<longleftrightarrow> x = y"
  by (simp add: retC_def)

lemma clean_throw [simp]: "\<not> clean throwC y"
  by (simp add: throwC_def)

lemma clean_lift [simp]: "clean (liftC c) y \<longleftrightarrow> c = Some y"
  by (cases c) (auto simp: liftC_def)

lemma clean_bind [simp]: "clean (bindC m f) y \<longleftrightarrow> (\<exists>x. clean m x \<and> clean (f x) y)"
  by (cases m; cases "snd m") (auto simp: bindC_def split: option.splits prod.splits)

lemma clean_issue [simp]: "\<not> clean (issueC code path) y"
  by (simp add: issueC_def)

lemma clean_issue_if [simp]: "clean (issue_if code path c) y \<longleftrightarrow> c = Some False"
  by (cases c) (auto simp: issue_if_def retC_def throwC_def issueC_def)

lemma clean_seq [simp]: "clean (seqC ms) y \<longleftrightarrow> (\<forall>m \<in> set ms. clean m ())"
  by (induction ms) auto

lemma clean_map: "clean (mapC f xs) ys \<longleftrightarrow> list_all2 (\<lambda>x y. clean (f x) y) xs ys"
proof (induction xs arbitrary: ys)
  case (Cons x xs)
  then show ?case by (cases ys) auto
qed auto

lemma clean_merge [simp]: "clean (merge_under p fs) y \<longleftrightarrow> fs = []"
  by (simp add: merge_under_def)

lemma clean_fold_same:
  assumes "\<And>s x s'. clean (f s x) s' \<longleftrightarrow> P x \<and> s' = s"
  shows "clean (foldC f s xs) s' \<longleftrightarrow> (\<forall>x \<in> set xs. P x) \<and> s' = s"
  by (induction xs) (auto simp: assms)

definition document :: "jsval \<Rightarrow> jsval \<Rightarrow> bool" where
  "document value doc \<longleftrightarrow>
     (\<exists>t fs. value = JStr t \<and> length t \<le> 64 * 1024 * 1024 \<and> json_parse t = Some doc \<and> doc = JObj fs)"

lemma clean_parse [simp]: "clean (parseC value path) doc \<longleftrightarrow> document value doc"
  by (auto simp: parseC_def document_def split: jsval.splits option.splits)

lemma check_pass [simp]: "r_status (check body) = ''PASS'' \<longleftrightarrow> clean body ()"
  by (cases body) (auto simp: check_def)

text \<open>The contract of an evaluator: its report is the one of a check.\<close>

locale evaluator =
  fixes run :: report
  assumes is_check: "\<exists>body. run = check body"
begin

lemma verdict: "r_status run = (if r_findings run = [] then ''PASS'' else ''FAIL'')"
  using is_check by (auto simp: check_def Let_def)

lemma no_findings [simp]: "r_findings run = [] \<longleftrightarrow> r_status run = ''PASS''"
  by (simp add: verdict)

end

interpretation scanner: evaluator "evaluateScannerIdentity E name evidence lock runId"
  for E name evidence lock runId
  by unfold_locales (rule exI, rule evaluateScannerIdentity_def)

interpretation database: evaluator "evaluateDatabase E evidence lock now runId"
  for E evidence lock now runId
  by unfold_locales (rule exI, rule evaluateDatabase_def)

interpretation catalogue: evaluator "evaluateApkCoverage E sbomText inventory source distro lock"
  for E sbomText inventory source distro lock
  by unfold_locales (rule exI, rule evaluateApkCoverage_def)

interpretation grype: evaluator "evaluateGrypeReport E t rawExit stderr source distro db lock"
  for E t rawExit stderr source distro db lock
  by unfold_locales (rule exI, rule evaluateGrypeReport_def)

interpretation source_sbom: evaluator "evaluateSourceCoverage E sbomText expected"
  for E sbomText expected
  by unfold_locales (rule exI, rule evaluateSourceCoverage_def)

interpretation apk_canary: evaluator "evaluateApkCanary E evidence expected runId db lock"
  for E evidence expected runId db lock
  by unfold_locales (rule exI, rule evaluateApkCanary_def)

interpretation admission: evaluator "report.truncate (evaluateImageAdmission E evidence trusted)"
  for E evidence trusted
  by unfold_locales (rule exI[of _ "admissionBody E evidence trusted"],
      simp add: evaluateImageAdmission_def report.truncate_def Let_def)

section \<open>Grype reports\<close>

definition low_score :: "jsval \<Rightarrow> bool" where
  "low_score c \<longleftrightarrow> (\<exists>s. gets c [''metrics'', ''baseScore''] = JNum (Fin s) \<and> 0 \<le> s \<and> s < 7)"

definition acceptable_vulnerability :: "jsval \<Rightarrow> bool" where
  "acceptable_vulnerability v \<longleftrightarrow>
     is_text (getp v ''id'') \<and> is_one_of (getp v ''severity'') [''Negligible'', ''Low'', ''Medium'']
     \<and> (\<exists>cs. getp v ''cvss'' = JArr cs \<and> list_all low_score cs)"

definition acceptable_match :: "jsval \<Rightarrow> bool" where
  "acceptable_match m \<longleftrightarrow>
     is_text (gets m [''artifact'', ''id'']) \<and> is_text (gets m [''artifact'', ''name''])
     \<and> is_text (gets m [''artifact'', ''version''])
     \<and> (\<exists>rs. getp m ''relatedVulnerabilities'' = JArr rs
            \<and> list_all acceptable_vulnerability (getp m ''vulnerability'' # rs))"

lemma clean_cvssEntry:
  "clean (cvssEntry path high c) h \<longleftrightarrow>
     (\<exists>s. gets c [''metrics'', ''baseScore''] = JNum (Fin s) \<and> 0 \<le> s \<and> s \<le> 10 \<and> h = (high \<or> s \<ge> 7))"
  by (auto simp: cvssEntry_def split: jsval.splits jnum.splits)

lemma clean_cvss_fold:
  "clean (foldC (cvssEntry path) high cs) False \<longleftrightarrow> \<not> high \<and> list_all low_score cs"
proof (induction cs arbitrary: high)
  case (Cons c cs)
  show ?case
    by (auto simp: Cons clean_cvssEntry low_score_def simp del: gets.simps)
qed auto

lemma severity_split:
  "known_severity v \<and> \<not> blocking_severity v \<longleftrightarrow> is_one_of v [''Negligible'', ''Low'', ''Medium'']"
  by (auto simp: known_severity_def blocking_severity_def is_one_of_def js_def)

lemma clean_vulnerability: "clean (vulnerabilityC path v) () \<longleftrightarrow> acceptable_vulnerability v"
  using severity_split[of "getp v ''severity''"]
  by (auto simp: vulnerabilityC_def Let_def acceptable_vulnerability_def clean_cvss_fold is_array_def
      coalesce_def nullish_def iterate_def ex_bool_eq split: jsval.splits)

lemma blocking_vulnerability: "acceptable_vulnerability v \<Longrightarrow> \<not> blocking_severity (getp v ''severity'')"
  using severity_split[of "getp v ''severity''"] by (auto simp: acceptable_vulnerability_def)

lemma clean_match: "clean (matchC e im) e' \<longleftrightarrow> acceptable_match (snd im) \<and> e' = e"
  using blocking_vulnerability[of "getp (snd im) ''vulnerability''"]
  by (cases im) (auto simp: matchC_def Let_def acceptable_match_def clean_vulnerability is_array_def
      coalesce_def nullish_def iterate_def list_all_iff split: jsval.splits)

lemma clean_matches:
  "clean (foldC matchC e ims) e' \<longleftrightarrow> (\<forall>im \<in> set ims. acceptable_match (snd im)) \<and> e' = e"
  by (rule clean_fold_same[where P = "\<lambda>im. acceptable_match (snd im)"]) (rule clean_match)

lemma set_enumerate_snd: "(\<forall>im \<in> set (enumerate n xs). P (snd im)) \<longleftrightarrow> list_all P xs"
  by (induction xs arbitrary: n) auto

lemma clean_header:
  assumes "clean (reportHeader E report rawExit stderr source distro db lock) ()"
  shows "\<exists>ms. getp report ''matches'' = JArr ms"
    and "rawExit = JNum (Fin 0) \<Longrightarrow> stderr = JStr []"
    and "truthy source" and "canonical E (getp report ''source'') = canonical E source"
    and "getp report ''ignoredMatches'' \<in> {JUndef, JArr []}"
    and "getp report ''errors'' \<in> {JUndef, JArr []}"
    and "gets report [''descriptor'', ''configuration'', ''only-fixed''] = JBool False"
    and "empty_value (gets report [''descriptor'', ''configuration'', ''ignore''])"
  using assms
  by (auto simp: reportHeader_def is_array_def omittedOrEmptyArray_def suppression_def Let_def
      split: jsval.splits)

lemma grype_clean:
  "r_status (evaluateGrypeReport E t rawExit stderr source distro db lock) = ''PASS'' \<longleftrightarrow>
     (\<exists>report ms. document t report
        \<and> clean (reportHeader E report rawExit stderr source distro db lock) ()
        \<and> getp report ''matches'' = JArr ms \<and> list_all acceptable_match ms
        \<and> rawExit = JNum (Fin 0))"
proof -
  have "r_status (evaluateGrypeReport E t rawExit stderr source distro db lock) = ''PASS'' \<longleftrightarrow>
     (\<exists>report. document t report
        \<and> clean (reportHeader E report rawExit stderr source distro db lock) ()
        \<and> (\<exists>ms. array_or_absent (getp report ''matches'') = Some ms \<and> list_all acceptable_match ms
        \<and> (rawExit = JNum (Fin 0) \<or> rawExit \<noteq> JNum (Fin 2))))"
    by (auto simp: evaluateGrypeReport_def clean_matches set_enumerate_snd)
  moreover have "rawExit = JNum (Fin 0) \<or> rawExit = JNum (Fin 2)"
    if "clean (reportHeader E report rawExit stderr source distro db lock) ()" for report
    using that by (auto simp: reportHeader_def)
  ultimately show ?thesis
    using clean_header(1) by (fastforce simp: array_or_absent_def nullish_def)
qed

section \<open>Scanner and database identity\<close>

text \<open>The age of the database, in milliseconds, is a number within the two limits.\<close>

lemma not_stale:
  "\<not> stale_or_future (date_difference E now built) \<longleftrightarrow>
     (\<exists>x y. js_date_parse E (to_text E now) = Fin x \<and> js_date_parse E (to_text E built) = Fin y
        \<and> x - y \<le> 48 * 3600000 \<and> y - x \<le> 10 * 60000)"
  by (auto simp: stale_or_future_def date_difference_def split: jnum.splits)

definition database_bound :: "jsenv \<Rightarrow> jsval \<Rightarrow> jsval \<Rightarrow> bool" where
  "database_bound E evidence pin \<longleftrightarrow>
     \<not> nullish pin \<and> \<not> nullish evidence
     \<and> strict_eq (getp evidence ''archiveSha256'') (getp pin ''sha256'')
     \<and> strict_eq (getp evidence ''archiveSize'') (getp pin ''size'')
     \<and> strict_eq (getp evidence ''extractedSha256'') (getp pin ''extractedSha256'')
     \<and> HASH E (getp evidence ''databaseSha256Before'')
     \<and> strict_eq (getp evidence ''databaseSha256Before'') (getp evidence ''databaseSha256After'')
     \<and> gets evidence [''status'', ''valid''] = JBool True \<and> nullish (gets evidence [''status'', ''error''])
     \<and> strict_eq (gets evidence [''status'', ''schemaVersion'']) (getp pin ''schemaVersion'')
     \<and> strict_eq (gets evidence [''status'', ''built'']) (getp pin ''built'')
     \<and> is_text (gets evidence [''status'', ''path''])
     \<and> getp evidence ''importRawExit'' = JNum (Fin 0)"

definition scanner_bound :: "string \<Rightarrow> jsval \<Rightarrow> jsval \<Rightarrow> bool" where
  "scanner_bound name evidence pin \<longleftrightarrow>
     (\<exists>platform. truthy platform
        \<and> getp evidence ''archiveSha256'' = getp platform ''sha256''
        \<and> getp evidence ''executableSha256Before'' = getp platform ''executableSha256''
        \<and> getp evidence ''executableSha256After'' = getp platform ''executableSha256''
        \<and> getp evidence ''archiveMemberSha256'' = getp platform ''executableSha256'')
     \<and> gets evidence [''version'', ''application''] = JStr (js name)
     \<and> gets evidence [''version'', ''version''] = getp pin ''version''
     \<and> gets evidence [''version'', ''gitCommit''] = getp pin ''commit''"

lemma scanner_clean:
  assumes "r_status (evaluateScannerIdentity E name evidence lock runId) = ''PASS''"
  shows "is_text runId" and "getp evidence ''runId'' = runId"
    and "scanner_bound name evidence (getp lock name)"
proof -
  note s = assms[unfolded evaluateScannerIdentity_def check_pass, simplified]
  show "is_text runId" "getp evidence ''runId'' = runId"
    using s by (auto simp: Let_def dest!: strict_eqD)
  show "scanner_bound name evidence (getp lock name)"
    unfolding scanner_bound_def
    apply (intro conjI exI[of _ "getj (getp (getp lock name) ''platforms'') (to_text E (getp evidence ''platform''))"])
    using s by (auto simp: Let_def differs_def dest!: strict_eqD)
qed

section \<open>Keys\<close>

text \<open>A number prints without quotes, so that a text in a key cannot be mistaken for anything else.\<close>

definition unquoted_numbers :: "jsenv \<Rightarrow> bool" where
  "unquoted_numbers E \<longleftrightarrow> (\<forall>x r. js_num_text E x \<noteq> 34 # r)"

definition element_text :: "jsenv \<Rightarrow> jsval \<Rightarrow> jstring" where
  "element_text E x = (case stringify E x of None \<Rightarrow> js ''null'' | Some t \<Rightarrow> t)"

lemma canonical_array:
  "canonical E (JArr xs) = Some ([91] @ join [44] (map (\<lambda>x. element_text E (sortKeys E x)) xs) @ [93])"
  by (simp add: canonical_def element_text_def comp_def)

lemma element_text_string [simp]: "element_text E (JStr s) = quote s"
  by (simp add: element_text_def)

lemma quote_prefix: "quote s @ r = quote s' @ r' \<longleftrightarrow> s = s' \<and> r = r'"
proof
  assume "quote s @ r = quote s' @ r'"
  then have "parseString (quote s @ r) = parseString (quote s' @ r')" by (rule arg_cong)
  then show "s = s' \<and> r = r'" unfolding parseString_quote by simp
qed simp

lemma element_text_unquoted:
  assumes "unquoted_numbers E" "\<forall>s. v \<noteq> JStr s" "c \<noteq> 34"
  shows "element_text E (sortKeys E v) @ c # r \<noteq> quote s @ r'"
  using assms
  by (cases v) (auto simp: element_text_def unquoted_numbers_def quote_def js_def starts_with_def
      append_eq_Cons_conv split: if_splits)

lemma elements_inject:
  assumes "(unquoted_numbers E \<and> length vs = length ss) \<or> (\<exists>ts. vs = map JStr ts)"
    and "join [44] (map (\<lambda>x. element_text E (sortKeys E x)) vs) @ [93] = join [44] (map quote ss) @ [93]"
  shows "vs = map JStr ss"
  using assms
proof (induction vs arbitrary: ss)
  case Nil
  then show ?case by (cases ss rule: list.exhaust; cases "tl ss") (auto simp: quote_def)
next
  case (Cons v vs)
  define r where "r xs = (if xs = [] then [93] else [44] @ join [44] xs @ [93])" for xs
  have j: "join [44] (x # xs) @ [93] = x @ r xs" for x xs
    by (cases xs) (auto simp: r_def)
  have head: "\<exists>c q. r xs = c # q \<and> c \<noteq> 34" for xs
    by (simp add: r_def)
  have "ss \<noteq> []"
    using Cons.prems j[of _ "map (\<lambda>x. element_text E (sortKeys E x)) vs"] by (auto simp: quote_def)
  then obtain s ss' where ss: "ss = s # ss'" by (cases ss) auto
  have eq: "element_text E (sortKeys E v) @ r (map (\<lambda>x. element_text E (sortKeys E x)) vs)
      = quote s @ r (map quote ss')"
    using Cons.prems(2) j ss by simp
  have "\<exists>t. v = JStr t"
    using Cons.prems(1) element_text_unquoted[of E v] eq head by (metis Cons_eq_map_D)
  then obtain t where v: "v = JStr t" by blast
  with eq have "t = s" and rest: "r (map (\<lambda>x. element_text E (sortKeys E x)) vs) = r (map quote ss')"
    by (simp_all add: quote_prefix)
  have "join [44] (map (\<lambda>x. element_text E (sortKeys E x)) vs) @ [93] = join [44] (map quote ss') @ [93]"
    using rest by (auto simp: r_def split: if_splits)
  moreover have "(unquoted_numbers E \<and> length vs = length ss') \<or> (\<exists>ts. vs = map JStr ts)"
    using Cons.prems(1) ss by (auto simp: Cons_eq_map_conv)
  ultimately show ?case using Cons.IH v \<open>t = s\<close> ss by simp
qed

lemma canonical_strings [simp]:
  "canonical E (JArr (map JStr a)) = canonical E (JArr (map JStr b)) \<longleftrightarrow> a = b"
proof
  assume "canonical E (JArr (map JStr a)) = canonical E (JArr (map JStr b))"
  then have "map JStr a = map JStr b"
    by (intro elements_inject[where E = E]) (auto simp: canonical_array comp_def)
  then show "a = b" by (simp add: inj_map_eq_map inj_def)
qed simp

lemma canonical_sorted_strings:
  "canonical E (JArr (map JStr (sort a))) = canonical E (JArr (map JStr (sort b))) \<longleftrightarrow> mset a = mset b"
  by (metis canonical_strings mset_sort properties_for_sort sorted_sort)

lemma apkKey_texts:
  assumes "unquoted_numbers E" "length vs = length ss"
  shows "apkKey E vs = apkKey E (map JStr ss) \<longleftrightarrow> vs = map JStr ss"
  using elements_inject[of E vs ss] assms
  by (auto simp: apkKey_def canonical_array comp_def)

section \<open>APK catalogue coverage\<close>

definition artifact_identity :: "jsval \<Rightarrow> jsval list" where
  "artifact_identity a =
     [getp a ''name'', getp a ''version'', gets a [''metadata'', ''architecture''],
      getp (first_element (getp a ''licenses'')) ''value'']"

definition package_fields :: "jsval \<Rightarrow> jsval list" where
  "package_fields p = [getp p ''name'', getp p ''version'', getp p ''architecture'', getp p ''license'']"

text \<open>What the check asks of a trusted package and of a catalogued artifact.\<close>

definition trusted_package :: "jsenv \<Rightarrow> jsval \<Rightarrow> jsval \<Rightarrow> bool" where
  "trusted_package E distro p \<longleftrightarrow>
     list_all is_text (package_fields p) \<and> is_text (getp p ''origin'')
     \<and> (\<exists>t. canonicalApkPurl E p (getp distro ''versionID'') = Some t \<and> getp p ''purl'' = JStr t)
     \<and> validCpeSet (getp p ''cpes'') (getp p ''version'')"

definition artifact_cpes :: "jsval \<Rightarrow> jsval" where
  "artifact_cpes a = (case getp a ''cpes'' of JArr cs \<Rightarrow> JArr (map (\<lambda>c. getp c ''cpe'') cs) | _ \<Rightarrow> JUndef)"

definition artifact_of :: "jsenv \<Rightarrow> jsval \<Rightarrow> jsval \<Rightarrow> bool" where
  "artifact_of E p a \<longleftrightarrow>
     getp a ''type'' = JStr (js ''apk'') \<and> getp a ''foundBy'' = JStr (js ''apk-db-cataloger'')
     \<and> is_text (getp a ''purl'') \<and> getp a ''purl'' = getp p ''purl''
     \<and> gets a [''metadata'', ''originPackage''] = getp p ''origin''
     \<and> gets a [''metadata'', ''version''] = getp a ''version''
     \<and> validCpeSet (artifact_cpes a) (getp a ''version'')
     \<and> (\<exists>xs ys. slice_sort E (artifact_cpes a) = Some xs \<and> slice_sort E (getp p ''cpes'') = Some ys
          \<and> canonical E xs = canonical E ys)"

lemma clean_inventoryPackage:
  "clean (inventoryPackage E distro p) k \<longleftrightarrow> trusted_package E distro p \<and> k = apkKey E (package_fields p)"
  by (cases "p = JUndef \<or> p = JNull")
    (auto simp: inventoryPackage_def trusted_package_def package_fields_def nullish_def Let_def is_text_def
      split: option.splits)

lemma clean_catalogArtifact:
  assumes "clean (catalogArtifact E tp (ids, names, keys) a) (ids', names', keys')"
  shows "artifact_of E (map_get tp (getp a ''name'')) a" and "keys' = keys @ [apkKey E (artifact_identity a)]"
  using assms
  by (auto simp: catalogArtifact_def artifact_of_def artifact_cpes_def artifact_identity_def Let_def
      is_array_def differs_def split: jsval.splits option.splits dest!: strict_eqD)

lemma clean_catalogue:
  assumes "clean (foldC (catalogArtifact E tp) (ids, names, keys) as) (ids', names', keys')"
  shows "keys' = keys @ map (\<lambda>a. apkKey E (artifact_identity a)) as
     \<and> (\<forall>a \<in> set as. artifact_of E (map_get tp (getp a ''name'')) a)"
  using assms
proof (induction as arbitrary: ids names keys)
  case (Cons a as)
  then obtain ids1 names1 keys1 where
    1: "clean (catalogArtifact E tp (ids, names, keys) a) (ids1, names1, keys1)"
    and 2: "clean (foldC (catalogArtifact E tp) (ids1, names1, keys1) as) (ids', names', keys')"
    by auto
  show ?case using Cons.IH[OF 2] clean_catalogArtifact[OF 1] by simp
qed simp

lemma set_of_values_all:
  "length (set_of_values xs) = length xs \<Longrightarrow> set_of_values xs = xs \<and> (list_all is_text xs \<longrightarrow> distinct xs)"
proof (induction xs)
  case (Cons x xs)
  have le: "length (set_of_values ys) \<le> length ys" for ys
    by (induction ys) (auto intro: order_trans[OF length_filter_le])
  have "length (set_of_values xs) = length xs"
    and f: "length (filter (\<lambda>y. \<not> same_value x y) (set_of_values xs)) = length (set_of_values xs)"
    using Cons.prems le[of xs] length_filter_le[of "\<lambda>y. \<not> same_value x y" "set_of_values xs"] by auto
  with Cons.IH have xs: "set_of_values xs = xs" "list_all is_text xs \<longrightarrow> distinct xs" by simp_all
  have "\<forall>y \<in> set xs. \<not> same_value x y" using f xs(1) by (metis length_filter_less less_irrefl)
  moreover have "same_value x x" if "is_text x" using that is_text_iff[of x] by auto
  ultimately show ?case using xs by auto
qed simp

lemma map_get_trusted:
  assumes "distinct (map (\<lambda>p. getp p k) ps)" "p \<in> set ps" "getp p k = JStr n"
  shows "map_get (map (\<lambda>p. (getp p k, p)) ps) (JStr n) = p"
proof -
  have u: "q = p" if "q \<in> set ps" "getp q k = JStr n" for q
    using assms that by (auto simp: distinct_map inj_on_def)
  have "List.find (\<lambda>e. same_value (fst e) (JStr n)) (rev (map (\<lambda>p. (getp p k, p)) ps)) \<noteq> None"
    using assms(2,3) by (auto simp: find_None_iff)
  then obtain e where e: "List.find (\<lambda>e. same_value (fst e) (JStr n)) (rev (map (\<lambda>p. (getp p k, p)) ps)) = Some e"
    by auto
  then have "e \<in> set (map (\<lambda>p. (getp p k, p)) ps) \<and> fst e = JStr n"
    by (auto dest!: find_SomeD)
  then show ?thesis using e u by (auto simp: map_get_def)
qed

lemma coverage_clean:
  assumes "r_status (evaluateApkCoverage E sbomText inventory source distro lock) = ''PASS''"
  shows "\<exists>sbom arts inv. document sbomText sbom \<and> getp sbom ''artifacts'' = JArr arts
     \<and> inventory = JArr inv \<and> inv \<noteq> []
     \<and> (\<forall>p \<in> set inv. trusted_package E distro p)
     \<and> length (set_of_values (map (\<lambda>p. getp p ''name'') inv)) = length inv
     \<and> (\<forall>a \<in> set arts. artifact_of E (map_get (map (\<lambda>p. (getp p ''name'', p)) inv) (getp a ''name'')) a)
     \<and> mset (map (\<lambda>a. apkKey E (artifact_identity a)) arts)
        = mset (map (\<lambda>p. apkKey E (package_fields p)) inv)"
proof -
  note clean = assms[unfolded evaluateApkCoverage_def check_pass]
  obtain sbom where sbom: "document sbomText sbom"
    and body: "is_array inventory" "elements inventory \<noteq> []" "is_array (getp sbom ''artifacts'')"
      "\<exists>tp. (if list_ex nullish (elements inventory) then None
             else Some (map (\<lambda>p. (getp p ''name'', p)) (elements inventory))) = Some tp
        \<and> (\<exists>expected. clean (mapC (inventoryPackage E distro) (elements inventory)) expected
          \<and> length (set_of_values (map (\<lambda>p. getp p ''name'') (elements inventory))) = length (elements inventory)
          \<and> (\<exists>ids names actual. clean (foldC (catalogArtifact E tp) ([], [], []) (elements (getp sbom ''artifacts'')))
                 (ids, names, actual)
             \<and> canonical E (JArr (map JStr (sort actual))) = canonical E (JArr (map JStr (sort expected)))))"
    using clean
    by (auto split: if_splits prod.splits simp del: any_of_False canonical_strings)
  obtain inv where inv: "inventory = JArr inv" "inv \<noteq> []"
    using body(1,2) by (auto simp: is_array_def elements_def split: jsval.splits)
  obtain arts where arts: "getp sbom ''artifacts'' = JArr arts"
    using body(3) by (auto simp: is_array_def split: jsval.splits)
  obtain expected ids names actual where
    e: "list_all2 (\<lambda>p k. trusted_package E distro p \<and> k = apkKey E (package_fields p)) inv expected"
    and n: "length (set_of_values (map (\<lambda>p. getp p ''name'') inv)) = length inv"
    and f: "clean (foldC (catalogArtifact E (map (\<lambda>p. (getp p ''name'', p)) inv)) ([], [], []) arts) (ids, names, actual)"
    and eq: "mset actual = mset expected"
    using body(4) inv arts
    by (auto simp: elements_def clean_map clean_inventoryPackage canonical_sorted_strings
        simp del: canonical_strings split: if_splits)
  have "expected = map (\<lambda>p. apkKey E (package_fields p)) inv" "\<forall>p \<in> set inv. trusted_package E distro p"
    using e by (induction rule: list_all2_induct) auto
  with clean_catalogue[OF f] sbom inv arts n eq show ?thesis by auto
qed

text \<open>With unquoted numbers the keys determine the identities, so the catalogue and the trusted
  inventory hold the same packages and every artifact is the one of its package.\<close>

lemma coverage_identities:
  assumes "r_status (evaluateApkCoverage E sbomText inventory source distro lock) = ''PASS''"
    and E: "unquoted_numbers E"
  shows "\<exists>sbom arts inv. document sbomText sbom \<and> getp sbom ''artifacts'' = JArr arts
     \<and> inventory = JArr inv \<and> inv \<noteq> [] \<and> (\<forall>p \<in> set inv. trusted_package E distro p)
     \<and> distinct (map (\<lambda>p. getp p ''name'') inv)
     \<and> mset (map artifact_identity arts) = mset (map package_fields inv)
     \<and> (\<forall>a \<in> set arts. \<exists>p \<in> set inv. artifact_identity a = package_fields p \<and> artifact_of E p a)"
proof -
  obtain sbom arts inv where *: "document sbomText sbom" "getp sbom ''artifacts'' = JArr arts"
    "inventory = JArr inv" "inv \<noteq> []"
    and tr: "\<forall>p \<in> set inv. trusted_package E distro p"
    and n: "length (set_of_values (map (\<lambda>p. getp p ''name'') inv)) = length inv"
    and of: "\<forall>a \<in> set arts. artifact_of E (map_get (map (\<lambda>p. (getp p ''name'', p)) inv) (getp a ''name'')) a"
    and keys: "mset (map (\<lambda>a. apkKey E (artifact_identity a)) arts) = mset (map (\<lambda>p. apkKey E (package_fields p)) inv)"
    using coverage_clean[OF assms(1)] by blast
  have texts: "\<exists>ss. package_fields p = map JStr ss" if "p \<in> set inv" for p
    unfolding ex_map_conv using tr that by (auto simp: trusted_package_def list_all_iff is_text_iff)
  have len: "length (package_fields p) = 4" "length (artifact_identity a) = 4" for p a
    by (simp_all add: package_fields_def artifact_identity_def)
  have key: "x = package_fields p"
    if "apkKey E x = apkKey E (package_fields p)" "length x = 4" "p \<in> set inv" for x p
    using that texts[OF that(3)] len(1)[of p] apkKey_texts[OF E, of x] by (metis length_map)
  have inj: "inj_on (apkKey E) (package_fields ` set inv)"
  proof (rule inj_onI)
    fix x y assume "x \<in> package_fields ` set inv" "y \<in> package_fields ` set inv" "apkKey E x = apkKey E y"
    then show "x = y" using key len(1) by auto
  qed
  have names: "getp p ''name'' = package_fields p ! 0" "getp a ''name'' = artifact_identity a ! 0" for p a
    by (simp_all add: package_fields_def artifact_identity_def)
  have same: "\<exists>p \<in> set inv. artifact_identity a = package_fields p" if "a \<in> set arts" for a
  proof -
    have "apkKey E (artifact_identity a) \<in> (\<lambda>p. apkKey E (package_fields p)) ` set inv"
      using mset_eq_setD[OF keys] that by auto
    then show ?thesis using key len(2) by blast
  qed
  have m: "mset (map artifact_identity arts) = mset (map package_fields inv)"
    using keys mset_map_inj_on[OF inj, of "map artifact_identity arts" "map package_fields inv"] same
    by (force simp: comp_def)
  have "list_all is_text (map (\<lambda>p. getp p ''name'') inv)"
    using tr by (auto simp: list_all_iff trusted_package_def package_fields_def)
  then have d: "distinct (map (\<lambda>p. getp p ''name'') inv)"
    using set_of_values_all[of "map (\<lambda>p. getp p ''name'') inv"] n by simp
  have "\<exists>p \<in> set inv. artifact_identity a = package_fields p \<and> artifact_of E p a" if a: "a \<in> set arts" for a
  proof -
    obtain p where p: "p \<in> set inv" "artifact_identity a = package_fields p" using same[OF a] by blast
    then have "getp a ''name'' = getp p ''name''" by (metis names)
    moreover obtain s where "getp p ''name'' = JStr s"
      using tr p(1) by (auto simp: trusted_package_def package_fields_def is_text_iff)
    ultimately have "map_get (map (\<lambda>p. (getp p ''name'', p)) inv) (getp a ''name'') = p"
      using map_get_trusted[OF d p(1)] by simp
    with of a p show ?thesis by (intro bexI[of _ p]) force+
  qed
  with * tr d m show ?thesis by blast
qed

section \<open>Bound artifacts\<close>

text \<open>\<open>bound_text e runId input t\<close>: the artifact \<open>e\<close> of this run holds the text \<open>t\<close>, whose hash it
  states, made from the input with the given hash.\<close>

definition bound_text :: "jsenv \<Rightarrow> jsval \<Rightarrow> jsval \<Rightarrow> jsval \<Rightarrow> jstring \<Rightarrow> bool" where
  "bound_text E e runId inputSha256 t \<longleftrightarrow>
     strict_eq (getp e ''runId'') runId \<and> getp e ''text'' = JStr t \<and> getp e ''sha256'' = JStr (sha256 E t)
     \<and> strict_eq (getp e ''inputSha256'') inputSha256"

lemma truthy_get [simp]: "getp e k = JStr t \<Longrightarrow> truthy e"
  by (cases e) (auto simp: getp_def truthy_def)

lemma clean_envelope [simp]:
  "clean (envelope E e runId inputSha256 path) () \<longleftrightarrow> (\<exists>t. bound_text E e runId inputSha256 t)"
  by (auto simp: envelope_def bound_text_def split: jsval.splits)

lemma bound_textD: "bound_text E e runId i t \<Longrightarrow> getp e ''text'' = JStr t \<and> getp e ''sha256'' = JStr (sha256 E t)"
  by (simp add: bound_text_def)

text \<open>A scan of a catalogue: the chain of hashes from the file system to the catalogue and from the
  catalogue to a report that passes.\<close>

definition passing_report ::
  "jsenv \<Rightarrow> jsval \<Rightarrow> jsval \<Rightarrow> jsval \<Rightarrow> jsval \<Rightarrow> jsval \<Rightarrow> jsval \<Rightarrow> jstring \<Rightarrow> bool" where
  "passing_report E g runId source distro db lock sbomText \<longleftrightarrow>
     (\<exists>t report ms. bound_text E g runId (JStr (sha256 E sbomText)) t \<and> document (JStr t) report
        \<and> clean (reportHeader E report (getp g ''rawExit'') (getp g ''stderr'') source distro db lock) ()
        \<and> getp report ''matches'' = JArr ms \<and> list_all acceptable_match ms
        \<and> getp g ''rawExit'' = JNum (Fin 0))"

definition stage_admitted :: "jsenv \<Rightarrow> jsval \<Rightarrow> jsval \<Rightarrow> jsval \<Rightarrow> jsval \<Rightarrow> jsval \<Rightarrow> bool" where
  "stage_admitted E stage target db lock runId \<longleftrightarrow>
     \<not> nullish stage \<and> truthy target \<and> DIGEST E (getp target ''imageDigest'') \<and> HASH E (getp target ''rootfsSha256'')
     \<and> strict_eq (getp stage ''imageDigest'') (getp target ''imageDigest'')
     \<and> strict_eq (getp stage ''rootfsSha256'') (getp target ''rootfsSha256'')
     \<and> strict_eq (getp stage ''runId'') runId
     \<and> gets stage [''extraction'', ''rawExit''] = JNum (Fin 0)
     \<and> gets stage [''extraction'', ''errors''] = JArr []
     \<and> gets stage [''syft'', ''rawExit''] = JNum (Fin 0) \<and> gets stage [''syft'', ''stderr''] = JStr []
     \<and> (\<exists>t catalog. bound_text E (getp stage ''syft'') runId (getp target ''rootfsSha256'') t
        \<and> document (JStr t) catalog
        \<and> r_status (evaluateApkCoverage E (JStr t) (getp target ''inventory'') (getp target ''syftSource'')
                     (getp target ''distro'') lock) = ''PASS''
        \<and> (gets catalog [''source'', ''type''] = JStr (js ''image'') \<longrightarrow>
             strict_eq (gets catalog [''source'', ''metadata'', ''manifestDigest'']) (getp target ''imageDigest''))
        \<and> passing_report E (getp stage ''grype'') runId (getp target ''grypeSource'') (getp target ''distro'')
             db lock t)"

lemma passing_report_iff:
  "passing_report E g runId source distro db lock sbomText \<longleftrightarrow>
     (\<exists>t. bound_text E g runId (JStr (sha256 E sbomText)) t)
     \<and> r_status (evaluateGrypeReport E (getp g ''text'') (getp g ''rawExit'') (getp g ''stderr'')
          source distro db lock) = ''PASS''"
proof (cases "\<exists>t. bound_text E g runId (JStr (sha256 E sbomText)) t")
  case True
  then obtain t where t: "bound_text E g runId (JStr (sha256 E sbomText)) t" by blast
  moreover have "getp g ''text'' = JStr t" using bound_textD[OF t] by simp
  ultimately show ?thesis
    by (auto simp: passing_report_def grype_clean bound_text_def)
qed (auto simp: passing_report_def)

lemma clean_stage [simp]:
  "clean (stageEvidence E evidence lock runId targets name) () \<longleftrightarrow>
     stage_admitted E (gets evidence [''stages'', name]) (getp targets name) (getp evidence ''database'') lock runId"
proof -
  define stage where "stage = gets evidence [''stages'', name]"
  define target where "target = getp targets name"
  note d = stageEvidence_def stage_admitted_def Let_def differs_def passing_report_iff
  show ?thesis
  proof (cases "\<exists>t. bound_text E (getp stage ''syft'') runId (getp target ''rootfsSha256'') t")
    case True
    then obtain t where t: "bound_text E (getp stage ''syft'') runId (getp target ''rootfsSha256'') t" by blast
    have u: "bound_text E (getp stage ''syft'') runId (getp target ''rootfsSha256'') t' \<longleftrightarrow> t' = t" for t'
      using t by (auto simp: bound_text_def)
    from bound_textD[OF t] u show ?thesis
      unfolding d stage_def[symmetric] target_def[symmetric]
      by (simp cong: conj_cong) blast
  next
    case False
    then show ?thesis unfolding d stage_def[symmetric] target_def[symmetric] by auto
  qed
qed

section \<open>Source evidence and canaries\<close>

definition source_expected :: "jsval \<Rightarrow> jsval \<Rightarrow> source_expectation" where
  "source_expected postgres runtime =
     \<lparr>x_version = getp postgres ''version'', x_sourceSha256 = getp postgres ''sha256'',
      x_binarySha256 = getp runtime ''postgresBinarySha256'', x_imageDigest = getp runtime ''imageDigest''\<rparr>"

definition source_admitted :: "jsenv \<Rightarrow> jsval \<Rightarrow> jsval \<Rightarrow> jsval \<Rightarrow> jsval \<Rightarrow> jsval \<Rightarrow> jsval \<Rightarrow> bool" where
  "source_admitted E source postgres runtime db lock runId \<longleftrightarrow>
     (\<exists>t. bound_text E (getp source ''sbom'') runId (getp runtime ''postgresBinarySha256'') t
        \<and> r_status (evaluateSourceCoverage E (JStr t) (source_expected postgres runtime)) = ''PASS''
        \<and> passing_report E (getp source ''grype'') runId (getp runtime ''sourceGrypeSource'') JUndef db lock t)"

lemma bound_text_iff:
  "(\<exists>t. bound_text E e runId i t) \<and> P (getp e ''text'') (getp e ''sha256'') \<longleftrightarrow>
     (\<exists>t. bound_text E e runId i t \<and> P (JStr t) (JStr (sha256 E t)))"
  by (auto simp: bound_text_def)

lemma clean_source [simp]:
  "clean (sourceEvidence E evidence lock runId postgres runtime) () \<longleftrightarrow>
     source_admitted E (getp evidence ''source'') postgres runtime (getp evidence ''database'') lock runId"
  using bound_text_iff[of E "gets evidence [''source'', ''sbom'']" runId
      "getp runtime ''postgresBinarySha256''"
      "\<lambda>t h. r_status (evaluateSourceCoverage E t (source_expected postgres runtime)) = ''PASS''
        \<and> (\<exists>u. bound_text E (gets evidence [''source'', ''grype'']) runId h u)
        \<and> r_status (evaluateGrypeReport E (gets evidence [''source'', ''grype'', ''text''])
            (gets evidence [''source'', ''grype'', ''rawExit'']) (gets evidence [''source'', ''grype'', ''stderr''])
            (getp runtime ''sourceGrypeSource'') JUndef (getp evidence ''database'') lock) = ''PASS''"]
  by (simp add: sourceEvidence_def source_admitted_def source_expected_def passing_report_iff Let_def)

text \<open>What the APK canary asks: every expected vulnerability was detected, and the blocking matches are
  exactly the expected ones.\<close>

definition required_detected :: "jsenv \<Rightarrow> jsval \<Rightarrow> jsval \<Rightarrow> jsval \<Rightarrow> bool" where
  "required_detected E expected report r \<longleftrightarrow>
     is_text (getp r ''vulnerabilityId'') \<and> blocking_severity (getp r ''severity'')
     \<and> (\<exists>pkg. find_in (\<lambda>p. all_of
              [same p ''name'' (getp r ''name''),
               Some (strict_eq (getp p ''version'') (getp r ''version'')),
               Some (strict_eq (getp p ''purl'') (getp r ''purl''))]) (getp expected ''inventory'') = Some pkg
          \<and> includes_value E (getp pkg ''cpes'') (getp r ''cpe'') = Some True)
     \<and> some_in (detects E r) (getp report ''matches'') = Some True"

lemma clean_requiredMatch [simp]:
  "clean (requiredMatch E expected report r) () \<longleftrightarrow> required_detected E expected report r"
  by (auto simp: requiredMatch_def required_detected_def)

lemma canary_findings_clean:
  "clean (canaryFindings E evidence expected report) () \<longleftrightarrow>
     (\<exists>rs blocking. getp expected ''requiredMatches'' = JArr rs \<and> rs \<noteq> [] \<and> length rs \<le> 64
        \<and> \<not> list_ex nullish rs \<and> distinct (map (projectionOfRequired E) rs)
        \<and> (\<forall>r \<in> set rs. required_detected E expected report r)
        \<and> Option.bind (array_or_absent (getp report ''matches'')) (filter_opt (blockingMatch E)) = Some blocking
        \<and> gets evidence [''grype'', ''rawExit''] = JNum (Fin 2)
        \<and> mset (map (projectionOfMatch E) blocking) = mset (map (projectionOfRequired E) rs))"
proof (cases "\<exists>rs. getp expected ''requiredMatches'' = JArr rs \<and> rs \<noteq> [] \<and> length rs \<le> 64 \<and> \<not> list_ex nullish rs")
  case True
  then obtain rs where rs: "getp expected ''requiredMatches'' = JArr rs" "rs \<noteq> []" "\<not> 64 < length rs"
    "\<not> list_ex nullish rs" by auto
  have d: "length (remdups (map f rs)) = length rs \<longleftrightarrow> distinct (map f rs)" for f :: "jsval \<Rightarrow> jstring"
    using length_remdups_eq[of "map f rs"] remdups_id_iff_distinct[of "map f rs"] by simp
  show ?thesis
    using rs by (simp add: canaryFindings_def Let_def is_array_def elements_def d canonical_sorted_strings
        del: canonical_strings cong: conj_cong)
next
  case False
  then show ?thesis
    by (auto simp: canaryFindings_def Let_def is_array_def elements_def not_less split: jsval.splits if_splits)
qed

text \<open>The source canary: the scanner finds CVE-2025-1094 in the catalogue of PostgreSQL 17.2.\<close>

definition source_canary_detects :: "jsenv \<Rightarrow> jsval \<Rightarrow> jsval \<Rightarrow> jsval \<Rightarrow> jsval \<Rightarrow> jsval \<Rightarrow> bool" where
  "source_canary_detects E canary trusted db lock runId \<longleftrightarrow>
     (\<exists>t doc. bound_text E (getp canary ''sbom'') runId (JStr (sha256 E (js ''postgresql-source-canary-17.2''))) t
        \<and> document (JStr t) doc
        \<and> getp doc ''bomFormat'' = JStr (js ''CycloneDX'') \<and> getp doc ''specVersion'' = JStr (js ''1.6'')
        \<and> getp doc ''version'' = JNum (Fin 1)
        \<and> canonical E (getp doc ''components'') = canonical E (JArr [JObj (postgresComponent E (JStr (js ''17.2'')))])
        \<and> (\<exists>g report. bound_text E (getp canary ''grype'') runId (JStr (sha256 E t)) g
            \<and> document (JStr g) report
            \<and> (\<forall>f \<in> set (r_findings (evaluateGrypeReport E (JStr g) (getp (getp canary ''grype'') ''rawExit'')
                 (getp (getp canary ''grype'') ''stderr'') (getp trusted ''canaryGrypeSource'') JUndef db lock)).
                 i_code f = ''VULNERABILITY_THRESHOLD'')
            \<and> gets canary [''grype'', ''rawExit''] = JNum (Fin 2)
            \<and> some_in (canaryDetects E) (getp report ''matches'') = Some True))"

lemma clean_source_canary [simp]:
  "clean (sourceCanary E evidence trusted lock runId) () \<longleftrightarrow>
     source_canary_detects E (getp evidence ''canary'') trusted (getp evidence ''database'') lock runId"
proof -
  define canary where "canary = getp evidence ''canary''"
  let ?sbom = "getp canary ''sbom''" and ?grype = "getp canary ''grype''"
  have keep: "filter (\<lambda>f. i_code f \<noteq> c) fs = [] \<longleftrightarrow> (\<forall>f \<in> set fs. i_code f = c)" for fs c
    by (simp add: filter_empty_conv)
  note d = sourceCanary_def source_canary_detects_def Let_def keep canary_def[symmetric]
  show ?thesis
  proof (cases "\<exists>t g. bound_text E ?sbom runId (JStr (sha256 E (js ''postgresql-source-canary-17.2''))) t
      \<and> bound_text E ?grype runId (JStr (sha256 E t)) g")
    case True
    then obtain t g where
      t: "bound_text E ?sbom runId (JStr (sha256 E (js ''postgresql-source-canary-17.2''))) t"
      and g: "bound_text E ?grype runId (JStr (sha256 E t)) g" by blast
    have u: "bound_text E ?sbom runId (JStr (sha256 E (js ''postgresql-source-canary-17.2''))) t' \<longleftrightarrow> t' = t"
      "bound_text E ?grype runId (JStr (sha256 E t)) g' \<longleftrightarrow> g' = g" for t' g'
      using t g by (auto simp: bound_text_def)
    show ?thesis
      unfolding d using bound_textD[OF t] bound_textD[OF g]
      by (simp add: u keep ex_bool_eq cong: conj_cong) blast
  next
    case False
    then show ?thesis unfolding d by (auto simp: bound_text_def)
  qed
qed

section \<open>Admission\<close>

definition has_stages :: "jsval \<Rightarrow> bool" where
  "has_stages v \<longleftrightarrow> mset (object_keys v) = {#js ''build'', js ''runtime''#}"

lemma clean_stages:
  "canonical E (JArr (map JStr (sort (object_keys v)))) = canonical E (JArr [JStr (js ''build''), JStr (js ''runtime'')])
     \<longleftrightarrow> has_stages v"
proof -
  have "sort [js ''build'', js ''runtime''] = [js ''build'', js ''runtime'']"
    by (simp add: js_def)
  then show ?thesis
    using canonical_sorted_strings[of E "object_keys v" "[js ''build'', js ''runtime'']"]
    by (simp add: has_stages_def)
qed

lemma admission_clean:
  "clean (admissionBody E evidence trusted) () \<longleftrightarrow>
     (let lock = getp trusted ''lock''; runId = getp trusted ''runId''; targets = getp trusted ''targets'';
          postgres = getp lock ''postgres''; runtime = getp targets ''runtime'';
          tools = getp evidence ''tools''; db = getp evidence ''database'' in
      \<not> list_ex nullish [trusted, evidence, lock, postgres, targets, runtime] \<and> is_text runId
      \<and> r_status (evaluateScannerIdentity E ''grype'' (getp tools ''grype'') lock runId) = ''PASS''
      \<and> r_status (evaluateScannerIdentity E ''syft'' (getp tools ''syft'') lock runId) = ''PASS''
      \<and> r_status (evaluateDatabase E db lock (getp trusted ''now'') runId) = ''PASS''
      \<and> has_stages (getp evidence ''stages'')
      \<and> (\<forall>name \<in> {''build'', ''runtime''}.
           stage_admitted E (gets evidence [''stages'', name]) (getp targets name) db lock runId)
      \<and> source_admitted E (getp evidence ''source'') postgres runtime db lock runId
      \<and> r_status (evaluateApkCanary E (getp evidence ''apkCanary'') (getp trusted ''apkCanary'') runId db lock) = ''PASS''
      \<and> source_canary_detects E (getp evidence ''canary'') trusted db lock runId)"
  by (simp add: admissionBody_def Let_def clean_stages) blast

section \<open>Package URLs\<close>

definition url_char :: "nat \<Rightarrow> bool" where
  "url_char c \<longleftrightarrow> is_alnum c \<or> c \<in> {43, 46, 95, 126, 45}"

definition encoded_char :: "nat \<Rightarrow> jstring" where
  "encoded_char c = (if c = 43 then js ''%2B'' else [c])"

definition encoded :: "jstring \<Rightarrow> jstring" where
  "encoded s = concat (map encoded_char s)"

lemma apk_field_chars: "apk_field s \<Longrightarrow> list_all url_char s"
  by (auto simp: apk_field_def list_all_iff url_char_def)

lemma encode_url: "list_all url_char s \<Longrightarrow> encodeURIComponent s = encoded s"
proof -
  assume s: "list_all url_char s"
  then have "is_ascii s" by (auto simp: is_ascii_def list_all_iff url_char_def char_class_defs)
  moreover have "(if uri_unreserved b then [b] else [37, upper_hex_digit (b div 16), upper_hex_digit (b mod 16)])
      = encoded_char b" if "url_char b" for b
    using that by (auto simp: url_char_def uri_unreserved_def encoded_char_def upper_hex_digit_def js_def
        is_alnum_def is_digit_def is_lower_def is_upper_def)
  ultimately show ?thesis
    using s by (auto simp: encoded_def encodeURIComponent_def utf8_encode_ascii list_all_iff intro!: arg_cong[where f = concat])
qed

lemma encoded_inject:
  "list_all url_char s \<Longrightarrow> list_all url_char t \<Longrightarrow>
     encoded s = encoded t \<longleftrightarrow> s = t"
  unfolding encoded_def
proof (induction s arbitrary: t)
  case (Cons c s)
  then show ?case
    by (cases t) (auto simp: encoded_char_def js_def url_char_def is_alnum_def is_digit_def is_lower_def is_upper_def)
next
  case Nil
  then show ?case by (cases t) (auto simp: encoded_char_def js_def)
qed

lemma encoded_reserved:
  "list_all url_char s \<Longrightarrow> c \<in> {38, 61, 63, 64} \<Longrightarrow> c \<notin> set (encoded s)"
  by (auto simp: encoded_def encoded_char_def js_def url_char_def list_all_iff is_alnum_def is_digit_def is_lower_def
      is_upper_def split: if_splits)

lemma alpine_release_chars: "alpine_release s \<Longrightarrow> 38 \<notin> set s"
proof -
  assume a: "alpine_release s"
  then obtain x y z where p: "split_on 46 s = [x, y, z]" "x = js ''3''" "all_digits y" "all_digits z"
    by (auto simp: alpine_release_def split: list.splits)
  have "s = join [46] [x, y, z]" using join_split_on[of 46 s] p(1) by simp
  then show ?thesis using p(2-4) by (auto simp: js_def all_digits_def list_all_iff is_digit_def)
qed

lemma purl_parts:
  assumes "canonicalApkPurl E p d = Some t"
  obtains n v a orig where "getp p ''name'' = JStr n" "getp p ''version'' = JStr v"
    "getp p ''architecture'' = JStr a" "getp p ''origin'' = JStr orig"
    "list_all (list_all url_char) [n, v, a, orig]" "38 \<notin> set (to_text E d)"
    "t = js ''pkg:apk/alpine/'' @ encoded n @ js ''@'' @ encoded v
      @ js ''?arch='' @ encoded a @ js ''&distro=alpine-'' @ to_text E d
      @ (if orig = n then [] else js ''&upstream='' @ encoded orig)"
  using assms
  by (auto simp: canonicalApkPurl_def encode_url apk_field_chars alpine_release_chars
      split: jsval.splits if_splits)

section \<open>The generated source catalogue\<close>

lemma generated_document:
  assumes "makePostgresSbom E (JStr v) (JStr s) (JStr b) (JStr i) = Some t" "num_readable E (Fin 1)"
  shows "json_parse t = Some (postgresSbomValue E (JStr v) (JStr s) (JStr b) (JStr i))"
proof -
  let ?doc = "postgresSbomValue E (JStr v) (JStr s) (JStr b) (JStr i)"
  obtain u where u: "stringify E ?doc = Some u" "t = u @ [10]"
    using assms(1) by (auto simp: makePostgresSbom_def split: if_splits)
  have "writable E ?doc"
    using assms(2) by (simp add: postgresSbomValue_def postgresComponent_def is_finite_def js_def)
  then show ?thesis
    using stringify_reads[OF u(1), of "[10]"] u(2) by (simp add: skipWhitespace_def is_ws_def)
qed

lemma quote_hex: "list_all is_lower_hex s \<Longrightarrow> quote_body s = s"
  by (induction s rule: quote_body.induct)
    (auto simp: short_escape_def is_high_def is_low_def is_lower_hex_def is_digit_def)

text \<open>The catalogue of PostgreSQL \<open>17.n\<close>, written out: one component with its package URL, its CPE, the
  hash of the binary, the hash of the source archive and the digest of the image.\<close>

definition postgres_catalogue :: "jstring \<Rightarrow> jstring \<Rightarrow> jstring \<Rightarrow> jstring \<Rightarrow> jsval" where
  "postgres_catalogue n source binary image_hash =
     JObj [(js ''bomFormat'', JStr (js ''CycloneDX'')), (js ''specVersion'', JStr (js ''1.6'')), (js ''version'', JNum (Fin 1)),
       (js ''components'', JArr [JObj
         [(js ''type'', JStr (js ''application'')), (js ''bom-ref'', JStr (js ''postgresql-source'')),
          (js ''name'', JStr (js ''postgresql'')), (js ''version'', JStr (js ''17.'' @ n)),
          (js ''purl'', JStr (js ''pkg:generic/postgresql@17.'' @ n)),
          (js ''cpe'', JStr (js ''cpe:2.3:a:postgresql:postgresql:17.'' @ n @ js '':*:*:*:*:*:*:*'')),
          (js ''hashes'', JArr [JObj [(js ''alg'', JStr (js ''SHA-256'')), (js ''content'', JStr binary)]]),
          (js ''properties'', JArr
            [JObj [(js ''name'', JStr (js ''hedefora:source-sha256'')), (js ''value'', JStr source)],
             JObj [(js ''name'', JStr (js ''hedefora:image-digest'')), (js ''value'', JStr (js ''sha256:'' @ image_hash))]])]])]"

text \<open>One hexadecimal SHA-256.\<close>

definition sha256_hex :: "jstring \<Rightarrow> bool" where
  "sha256_hex s \<longleftrightarrow> length s = 64 \<and> set s \<subseteq> {48..57} \<union> {97..102}"

lemma hash_text_iff: "hash_text s \<longleftrightarrow> sha256_hex s"
  by (auto simp: hash_text_def sha256_hex_def list_all_iff is_lower_hex_def is_digit_def)

lemma take_prefix: "take (length p) s = p \<longleftrightarrow> (\<exists>u. s = p @ u)"
  by (metis append_eq_conv_conj append_take_drop_id)

lemma postgres_17_iff: "postgres_17 v \<longleftrightarrow> (\<exists>n. v = js ''17.'' @ n \<and> n \<noteq> [] \<and> set n \<subseteq> {48..57})"
  using take_prefix[of "js ''17.''" v]
  by (auto simp: postgres_17_def all_digits_def list_all_iff is_digit_def js_def eval_nat_numeral)

lemma digest_iff: "DIGEST E (JStr i) \<longleftrightarrow> (\<exists>h. i = js ''sha256:'' @ h \<and> sha256_hex h)"
  using take_prefix[of "js ''sha256:''" i]
  by (auto simp: DIGEST_def hash_text_iff js_def eval_nat_numeral)

lemma makePostgresSbom_iff:
  assumes "num_readable E (Fin 1)"
  shows "Option.bind (makePostgresSbom E (JStr v) (JStr s) (JStr b) (JStr i)) json_parse = Some doc \<longleftrightarrow>
    (\<exists>n h. v = js ''17.'' @ n \<and> n \<noteq> [] \<and> set n \<subseteq> {48..57} \<and> sha256_hex s \<and> sha256_hex b
       \<and> i = js ''sha256:'' @ h \<and> sha256_hex h \<and> doc = postgres_catalogue n s b h)" (is "?l \<longleftrightarrow> ?r")
proof -
  have c: "postgresSbomValue E (JStr (js ''17.'' @ n)) (JStr s) (JStr b) (JStr (js ''sha256:'' @ h)) = postgres_catalogue n s b h" for n h
    by (simp add: postgresSbomValue_def postgresComponent_def postgres_catalogue_def js_def)
  have "\<exists>t. stringify E (postgresSbomValue E (JStr v) (JStr s) (JStr b) (JStr i)) = Some t"
    by (simp add: postgresSbomValue_def postgresComponent_def is_finite_def)
  then obtain t where t: "stringify E (postgresSbomValue E (JStr v) (JStr s) (JStr b) (JStr i)) = Some t" by blast
  define q where "q \<longleftrightarrow> postgres_17 v \<and> hash_text s \<and> hash_text b \<and> DIGEST E (JStr i)"
  have m: "makePostgresSbom E (JStr v) (JStr s) (JStr b) (JStr i) = (if q then Some (t @ [10]) else None)"
    by (auto simp: makePostgresSbom_def HASH_def q_def t)
  show ?thesis
  proof (cases q)
    case True
    then obtain n h where n: "v = js ''17.'' @ n" "n \<noteq> []" "set n \<subseteq> {48..57}" "sha256_hex s" "sha256_hex b"
      "i = js ''sha256:'' @ h" "sha256_hex h"
      by (auto simp: q_def postgres_17_iff digest_iff hash_text_iff)
    have "json_parse (t @ [10]) = Some (postgres_catalogue n s b h)"
      using generated_document[OF m[unfolded if_P[OF True]] assms] unfolding n(1,6) c .
    with True m n show ?thesis by auto
  qed (auto simp: m q_def postgres_17_iff digest_iff hash_text_iff)
qed

section \<open>Failures\<close>

lemma issue_bind: "x \<in> set (fst m) \<Longrightarrow> x \<in> set (fst (bindC m f))"
  by (auto simp: bindC_def split: prod.splits option.splits)

lemma unparsed: "(\<nexists>d. document t d) \<Longrightarrow> parseC t path = ([Issue ''JSON_PARSE'' path], Some (JObj []))"
  by (auto simp: parseC_def document_def bindC_def issueC_def retC_def split: jsval.splits option.splits)

lemma check_issue:
  assumes "Issue code path \<in> set (fst body)"
  shows "r_status (check body) = ''FAIL'' \<and> Issue code path \<in> set (r_findings (check body))"
  using assms by (auto simp: check_def Let_def)

section \<open>A sample catalogue\<close>

lemma stringify_document:
  assumes "writable E (JObj fs)" "length (the (stringify E (JObj fs))) \<le> 64 * 1024 * 1024"
  shows "document (JStr (the (stringify E (JObj fs)))) d \<longleftrightarrow> d = JObj fs"
proof -
  obtain t where t: "stringify E (JObj fs) = Some t" using writable_stringify[OF assms(1)] by blast
  then have "json_parse (t @ []) = Some (JObj fs)" using assms by (intro stringify_reads) auto
  then show ?thesis using t assms(2) by (auto simp: document_def)
qed

lemma unquoted_sample: "unquoted_numbers sample_env"
proof -
  have digits: "\<forall>c \<in> set (base_digits 10 n). 48 \<le> c" for n
  proof (induction n rule: less_induct)
    case (less n)
    have "n div 10 < n" if "\<not> n < 10" using that by simp
    with less[of "n div 10"] show ?case by (subst base_digits.simps) auto
  qed
  have "base_digits 10 n \<noteq> 34 # r" for n r
    using digits[of n] by (cases "base_digits 10 n") auto
  then show ?thesis by (auto simp: unquoted_numbers_def sample_env_def split: jnum.splits)
qed

definition sample_catalogue :: jsval where
  "sample_catalogue = JObj [(js ''artifacts'', JArr [JObj [(js ''id'', JStr (js ''1'')), (js ''name'', JStr (js
     ''gcc'')), (js ''version'', JStr (js ''1.2'')), (js ''type'', JStr (js ''apk'')), (js
     ''foundBy'', JStr (js ''apk-db-cataloger'')), (js ''licenses'', JArr [JObj [(js ''value'', JStr
     (js ''MIT''))]]), (js ''purl'', JStr (js
     ''pkg:apk/alpine/gcc@1.2?arch=x86&distro=alpine-3.21.0'')), (js ''cpes'', JArr [JObj [(js
     ''cpe'', JStr (js ''cpe:2.3:a:gcc:gcc:1.2:*:*:*:*:*:*:*'')), (js ''source'', JStr (js
     ''syft-generated''))]]), (js ''metadataType'', JStr (js ''apk-db-entry'')), (js ''metadata'',
     JObj [(js ''package'', JStr (js ''gcc'')), (js ''version'', JStr (js ''1.2'')), (js
     ''architecture'', JStr (js ''x86'')), (js ''originPackage'', JStr (js ''gcc''))])]]), (js
     ''source'', JObj [(js ''type'', JStr (js ''image''))]), (js ''distro'', JObj [(js ''id'', JStr
     (js ''alpine'')), (js ''versionID'', JStr (js ''3.21.0''))]), (js ''descriptor'', JObj [(js
     ''name'', JStr (js ''syft'')), (js ''version'', JStr (js ''1'')), (js ''configuration'', JObj
     [(js ''data-generation'', JObj [(js ''generate-cpes'', JBool True)])])]), (js ''schema'', JObj
     [(js ''version'', JStr (js ''16''))])]"

definition sample_package :: jsval where
  "sample_package = JObj [(js ''name'', JStr (js ''gcc'')), (js ''version'', JStr (js ''1.2'')), (js ''architecture'', JStr (js ''x86'')),
     (js ''license'', JStr (js ''MIT'')), (js ''origin'', JStr (js ''gcc'')),
     (js ''purl'', JStr (js ''pkg:apk/alpine/gcc@1.2?arch=x86&distro=alpine-3.21.0'')),
     (js ''cpes'', JArr [JStr (js ''cpe:2.3:a:gcc:gcc:1.2:*:*:*:*:*:*:*'')])]"

lemma writable_sample: "writable sample_env sample_catalogue"
  by (simp add: sample_catalogue_def js_def)

lemma sample_length: "length (the (stringify sample_env sample_catalogue)) \<le> 64 * 1024 * 1024"
  by (simp add: sample_catalogue_def js_def quote_def short_escape_def is_high_def is_low_def)

definition sample_lock :: jsval where
  "sample_lock = JObj [(js ''syft'', JObj [(js ''schemaVersion'', JStr (js ''16'')), (js ''version'', JStr (js ''1'')),
     (js ''generateCpes'', JBool True)])]"

lemma sample_purl:
  "canonicalApkPurl sample_env sample_package (JStr (js ''3.21.0''))
     = Some (js ''pkg:apk/alpine/gcc@1.2?arch=x86&distro=alpine-3.21.0'')"
  by (simp add: canonicalApkPurl_def sample_package_def getp_def js_def apk_field_def alpine_release_def
      all_digits_def encode_url encoded_def encoded_char_def url_char_def char_class_defs)

lemma sample_cpes:
  "validCpeSet (JArr [JStr (js ''cpe:2.3:a:gcc:gcc:1.2:*:*:*:*:*:*:*'')]) (JStr (js ''1.2''))"
  by (simp add: validCpeSet_def validCpe_def Let_def js_def cpe_literal_def is_lower_def)

lemma sample_coverage:
  "r_status (evaluateApkCoverage sample_env (JStr (the (stringify sample_env sample_catalogue)))
     (JArr [sample_package]) (JObj [(js ''type'', JStr (js ''image''))])
     (JObj [(js ''id'', JStr (js ''alpine'')), (js ''versionID'', JStr (js ''3.21.0''))]) sample_lock) = ''PASS''"
proof -
  have d: "document (JStr (the (stringify sample_env sample_catalogue))) d \<longleftrightarrow> d = sample_catalogue" for d
    using stringify_document writable_sample sample_length unfolding sample_catalogue_def by blast
  show ?thesis
    by (simp add: evaluateApkCoverage_def d)
      (simp add: sample_catalogue_def sample_lock_def sample_package_def getp_def js_def nullish_def truthy_def is_text_def differs_def
     suppression_def is_array_def elements_def empty_value_def inventoryPackage_def catalogArtifact_def
     Let_def map_get_def slice_sort_def js_sort_def first_element_def some_of_def starts_with_def
     sample_purl[unfolded sample_package_def js_def, simplified] sample_cpes[unfolded js_def, simplified])
qed
section \<open>Properties\<close>

text \<open>C14: an image is admitted exactly when everything it rests on passes.  Both scanners are the
  pinned executables, the database is the pinned one and fresh, there are exactly the two stages
  build and runtime, and for each of them the hashes lead from the trusted file system over its
  catalogue, which covers the trusted inventory, to a report of this run without a blocking match.
  The PostgreSQL source catalogue and its scan are bound the same way, and both canaries were
  detected, so that a scanner that sees nothing does not pass.\<close>

theorem image_admission_is_complete:
  "r_status (evaluateImageAdmission E evidence trusted) = ''PASS'' \<longleftrightarrow>
     (let lock = getp trusted ''lock''; runId = getp trusted ''runId''; targets = getp trusted ''targets'';
          postgres = getp lock ''postgres''; runtime = getp targets ''runtime'';
          tools = getp evidence ''tools''; db = getp evidence ''database'' in
      \<not> list_ex nullish [trusted, evidence, lock, postgres, targets, runtime] \<and> is_text runId
      \<and> r_status (evaluateScannerIdentity E ''grype'' (getp tools ''grype'') lock runId) = ''PASS''
      \<and> r_status (evaluateScannerIdentity E ''syft'' (getp tools ''syft'') lock runId) = ''PASS''
      \<and> r_status (evaluateDatabase E db lock (getp trusted ''now'') runId) = ''PASS''
      \<and> has_stages (getp evidence ''stages'')
      \<and> list_all (\<lambda>name. stage_admitted E (gets evidence [''stages'', name]) (getp targets name) db lock runId)
           [''build'', ''runtime'']
      \<and> source_admitted E (getp evidence ''source'') postgres runtime db lock runId
      \<and> r_status (evaluateApkCanary E (getp evidence ''apkCanary'') (getp trusted ''apkCanary'') runId db lock) = ''PASS''
      \<and> source_canary_detects E (getp evidence ''canary'') trusted db lock runId)"
  by (simp add: evaluateImageAdmission_def Let_def admission_clean)

text \<open>C15: a Grype report passes exactly when it is a document whose header checks are clean, the
  exit code is 0 and every match, with all its related vulnerabilities, is below the threshold: the
  severity is Negligible, Low or Medium and every CVSS base score is at least 0 and below 7.  Then
  nothing was ignored, no error was reported and nothing was written to the error stream.\<close>

theorem grype_pass_has_no_blocking_match:
  "r_status (evaluateGrypeReport E t rawExit stderr source distro db lock) = ''PASS'' \<longleftrightarrow>
     (\<exists>report ms. document t report
        \<and> clean (reportHeader E report rawExit stderr source distro db lock) ()
        \<and> getp report ''matches'' = JArr ms \<and> list_all acceptable_match ms
        \<and> rawExit = JNum (Fin 0) \<and> stderr = JStr []
        \<and> truthy source \<and> canonical E (getp report ''source'') = canonical E source
        \<and> getp report ''ignoredMatches'' \<in> {JUndef, JArr []} \<and> getp report ''errors'' \<in> {JUndef, JArr []})"
proof -
  have "stderr = JStr [] \<and> truthy source \<and> canonical E (getp report ''source'') = canonical E source
      \<and> getp report ''ignoredMatches'' \<in> {JUndef, JArr []} \<and> getp report ''errors'' \<in> {JUndef, JArr []}"
    if "clean (reportHeader E report rawExit stderr source distro db lock) ()" "rawExit = JNum (Fin 0)" for report
    using clean_header[OF that(1)] that(2) by simp
  then show ?thesis unfolding grype_clean by blast
qed

text \<open>C18: the advisory database passes exactly when it is the pinned one, unchanged by the scans,
  imported without error, and its age is a number between ten minutes in the future and 48 hours.\<close>

theorem scan_database_is_pinned_and_fresh:
  "r_status (evaluateDatabase E evidence lock now runId) = ''PASS'' \<longleftrightarrow>
     is_text runId \<and> strict_eq (getp evidence ''runId'') runId \<and> \<not> nullish lock
     \<and> database_bound E evidence (getp lock ''database'')
     \<and> (\<exists>x y. js_date_parse E (to_text E now) = Fin x
          \<and> js_date_parse E (to_text E (gets evidence [''status'', ''built''])) = Fin y
          \<and> x - y \<le> 48 * 3600000 \<and> y - x \<le> 10 * 60000)"
  using not_stale[of E now "gets evidence [''status'', ''built'']"]
  by (simp add: evaluateDatabase_def database_bound_def differs_def validDbStatus_def ex_bool_eq) blast

definition well_formed :: "report \<Rightarrow> bool" where
  "well_formed r \<longleftrightarrow> r_status r = (if r_findings r = [] then ''PASS'' else ''FAIL'')"

text \<open>a verdict is never ambiguous: every evaluator, whatever documents it is given and even
  when an access throws, reports \<^verbatim>\<open>PASS\<close> without findings or \<^verbatim>\<open>FAIL\<close> with at least one.\<close>

theorem image_verdicts_are_well_formed:
  "well_formed (evaluateScannerIdentity E name evidence lock runId)
   \<and> well_formed (evaluateDatabase E evidence lock now runId)
   \<and> well_formed (evaluateApkCoverage E t inventory source distro lock)
   \<and> well_formed (evaluateGrypeReport E t rawExit stderr source distro db lock)
   \<and> well_formed (evaluateSourceCoverage E t expected)
   \<and> well_formed (evaluateApkCanary E evidence canary runId db lock)
   \<and> well_formed (report.truncate (evaluateImageAdmission E evidence trusted))"
  unfolding well_formed_def
  by (intro conjI scanner.verdict database.verdict catalogue.verdict grype.verdict source_sbom.verdict
      apk_canary.verdict admission.verdict)

text \<open>C19: evidence that is not a JSON object in a text of at most 64 MiB is never accepted: the
  evaluators that read a document fail and say where it should have been.\<close>

theorem unreadable_evidence_fails:
  assumes "\<nexists>d. document t d"
  shows "r_status (evaluateApkCoverage E t inventory source distro lock) = ''FAIL''
       \<and> Issue ''JSON_PARSE'' (js ''syft'') \<in> set (r_findings (evaluateApkCoverage E t inventory source distro lock))
       \<and> r_status (evaluateGrypeReport E t rawExit stderr source distro db lock) = ''FAIL''
       \<and> Issue ''JSON_PARSE'' (js ''grype'') \<in> set (r_findings (evaluateGrypeReport E t rawExit stderr source distro db lock))
       \<and> r_status (evaluateSourceCoverage E t expected) = ''FAIL''
       \<and> Issue ''JSON_PARSE'' (js ''source.sbom'') \<in> set (r_findings (evaluateSourceCoverage E t expected))"
  unfolding evaluateApkCoverage_def evaluateGrypeReport_def evaluateSourceCoverage_def
  by (intro conjI check_issue[THEN conjunct1] check_issue[THEN conjunct2] issue_bind)
    (simp_all add: unparsed[OF assms])

theorem unreadable_evidence_fails_witness:
  "r_status (evaluateGrypeReport sample_env JUndef (JNum (Fin 0)) (JStr []) JNull JNull JNull JNull) = ''FAIL''"
proof -
  have "\<nexists>d. document JUndef d" by (simp add: document_def)
  from unreadable_evidence_fails[OF this] show ?thesis by blast
qed

text \<open>the two package URLs of an APK are equal only for the same name, version, architecture and
  origin in the same release, although the parts are encoded and the origin is left out when it
  is the name.\<close>

theorem apk_purl_identifies_package:
  assumes "canonicalApkPurl E p d = Some t" and "canonicalApkPurl E q d' = Some t"
  shows "getp p ''name'' = getp q ''name'' \<and> getp p ''version'' = getp q ''version''
    \<and> getp p ''architecture'' = getp q ''architecture'' \<and> getp p ''origin'' = getp q ''origin''
    \<and> to_text E d = to_text E d'"
proof -
  note r = encoded_reserved notin_append_inject encoded_inject
  obtain n v a orig where p: "getp p ''name'' = JStr n" "getp p ''version'' = JStr v"
    "getp p ''architecture'' = JStr a" "getp p ''origin'' = JStr orig"
    "list_all (list_all url_char) [n, v, a, orig]" "38 \<notin> set (to_text E d)"
    "t = js ''pkg:apk/alpine/'' @ encoded n @ js ''@'' @ encoded v
      @ js ''?arch='' @ encoded a @ js ''&distro=alpine-'' @ to_text E d
      @ (if orig = n then [] else js ''&upstream='' @ encoded orig)"
    by (rule purl_parts[OF assms(1)])
  obtain n' v' a' orig' where q: "getp q ''name'' = JStr n'" "getp q ''version'' = JStr v'"
    "getp q ''architecture'' = JStr a'" "getp q ''origin'' = JStr orig'"
    "list_all (list_all url_char) [n', v', a', orig']" "38 \<notin> set (to_text E d')"
    "t = js ''pkg:apk/alpine/'' @ encoded n' @ js ''@'' @ encoded v'
      @ js ''?arch='' @ encoded a' @ js ''&distro=alpine-'' @ to_text E d'
      @ (if orig' = n' then [] else js ''&upstream='' @ encoded orig')"
    by (rule purl_parts[OF assms(2)])
  have tail: "D @ (if e then [] else 38 # x) = D' @ (if e' then [] else 38 # x') \<longleftrightarrow>
      D = D' \<and> e = e' \<and> (\<not> e \<longrightarrow> x = x')" if "38 \<notin> set D" "38 \<notin> set D'" for D D' x x' :: jstring and e e'
    using that by (cases e; cases e') (auto simp: notin_append_inject)
  have "n = n'" "v = v'" "a = a'" and rest: "to_text E d @ (if orig = n then [] else 38 # tl (js ''&upstream='') @ encoded orig)
      = to_text E d' @ (if orig' = n' then [] else 38 # tl (js ''&upstream='') @ encoded orig')"
    using p(5,7) q(5,7) by (auto simp: js_def r)
  have "to_text E d = to_text E d'" "orig = orig'"
    using rest[unfolded tail[OF p(6) q(6)]] \<open>n = n'\<close> p(5) q(5)
    by (auto simp: encoded_inject)
  then show ?thesis using p(1-4) q(1-4) \<open>n = n'\<close> \<open>v = v'\<close> \<open>a = a'\<close> by simp
qed

theorem apk_purl_identifies_package_witness:
  "canonicalApkPurl sample_env
     (JObj [(js ''name'', JStr (js ''libstdc++'')), (js ''version'', JStr (js ''14.2-r1'')),
            (js ''architecture'', JStr (js ''x86_64'')), (js ''origin'', JStr (js ''gcc''))]) (JStr (js ''3.21.0''))
   \<noteq> canonicalApkPurl sample_env
     (JObj [(js ''name'', JStr (js ''gcc'')), (js ''version'', JStr (js ''14.2-r1'')),
            (js ''architecture'', JStr (js ''x86_64'')), (js ''origin'', JStr (js ''gcc''))]) (JStr (js ''3.21.0''))"
proof -
  define p where "p n = JObj [(js ''name'', JStr n), (js ''version'', JStr (js ''14.2-r1'')),
            (js ''architecture'', JStr (js ''x86_64'')), (js ''origin'', JStr (js ''gcc''))]" for n
  have name: "getp (p n) ''name'' = JStr n" for n by (simp add: p_def getp_def js_def)
  have "canonicalApkPurl sample_env (p (js ''libstdc++'')) (JStr (js ''3.21.0'')) \<noteq> None"
    by (simp add: canonicalApkPurl_def p_def getp_def js_def apk_field_def alpine_release_def all_digits_def
        char_class_defs)
  then obtain t where t: "canonicalApkPurl sample_env (p (js ''libstdc++'')) (JStr (js ''3.21.0'')) = Some t"
    by auto
  have "canonicalApkPurl sample_env (p (js ''gcc'')) (JStr (js ''3.21.0'')) \<noteq> Some t"
  proof
    assume "canonicalApkPurl sample_env (p (js ''gcc'')) (JStr (js ''3.21.0'')) = Some t"
    from apk_purl_identifies_package[OF t this] show False by (simp add: name js_def)
  qed
  then show ?thesis using t unfolding p_def by simp
qed

text \<open>C20: a PostgreSQL source catalogue passes exactly when the trusted inputs have their shapes, a version
  \<^verbatim>\<open>17.n\<close>, two SHA-256 hashes and an image digest, and the catalogue is a document whose canonical text is
  that of the one component of this version with its package URL and CPE, the binary's hash, the
  source's hash and the image's digest.\<close>

theorem source_catalogue_is_exact:
  assumes "num_readable E (Fin 1)"
  shows "r_status (evaluateSourceCoverage E text \<lparr>x_version = JStr v, x_sourceSha256 = JStr source,
      x_binarySha256 = JStr binary, x_imageDigest = JStr digest\<rparr>) = ''PASS'' \<longleftrightarrow>
    (\<exists>n h doc. v = js ''17.'' @ n \<and> n \<noteq> [] \<and> set n \<subseteq> {48..57} \<and> sha256_hex source \<and> sha256_hex binary
       \<and> digest = js ''sha256:'' @ h \<and> sha256_hex h
       \<and> document text doc \<and> canonical E doc = canonical E (postgres_catalogue n source binary h))"
  unfolding evaluateSourceCoverage_def by (auto simp: makePostgresSbom_iff[OF assms])

theorem source_catalogue_is_exact_witness:
  "\<exists>t. r_status (evaluateSourceCoverage sample_env (JStr t)
      \<lparr>x_version = JStr (js ''17.5''), x_sourceSha256 = JStr (replicate 64 97),
       x_binarySha256 = JStr (replicate 64 98), x_imageDigest = JStr (js ''sha256:'' @ replicate 64 99)\<rparr>) = ''PASS''"
proof -
  let ?doc = "postgres_catalogue (js ''5'') (replicate 64 97) (replicate 64 98) (replicate 64 99)"
  define t where "t = the (stringify sample_env ?doc)"
  have n: "num_readable sample_env (Fin 1)"
    by (simp add: num_readable_def sample_env_def base_digits.simps scan_number_def scan_integer_def
        scan_fraction_def scan_exponent_def starts_with_def is_digit_def token_value_def
        digits_value_def to_double_def is_integral_def)
  have h: "list_all is_lower_hex (replicate 64 97)" "list_all is_lower_hex (replicate 64 98)"
    "list_all is_lower_hex (replicate 64 99)"
    by (simp_all add: list_all_iff is_lower_hex_def)
  have u: "stringify sample_env ?doc = Some t"
    unfolding t_def by (simp add: postgres_catalogue_def is_finite_def)
  have "writable sample_env ?doc"
    using n by (simp add: postgres_catalogue_def is_finite_def js_def)
  then have "json_parse t = Some ?doc"
    using stringify_reads[OF u, of "[]"] by (simp add: skipWhitespace_def is_ws_def)
  moreover have "length t \<le> 64 * 1024 * 1024"
    unfolding t_def
    by (simp add: postgres_catalogue_def js_def h quote_hex quote_def short_escape_def is_high_def is_low_def
        sample_env_def base_digits.simps)
  ultimately have "document (JStr t) ?doc"
    by (simp add: document_def postgres_catalogue_def)
  moreover have "sha256_hex (replicate 64 97)" "sha256_hex (replicate 64 98)" "sha256_hex (replicate 64 99)"
    by (simp_all add: sha256_hex_def)
  ultimately show ?thesis
    unfolding source_catalogue_is_exact[OF n]
    by (intro exI[of _ t] exI[of _ "js ''5''"] exI[of _ "replicate 64 99"] exI[of _ ?doc]) (simp add: js_def)
qed

text \<open>C16: a catalogue passes only when it covers the trusted inventory exactly.  The packages of the
  catalogue and of the inventory are, counted with multiplicity, the same in name, version,
  architecture and licence; the names are distinct; and every artifact carries the origin, the
  canonical package URL and the CPEs of its trusted package.\<close>

theorem catalogue_covers_inventory_exactly:
  assumes "r_status (evaluateApkCoverage E sbomText inventory source distro lock) = ''PASS''"
    and "unquoted_numbers E"
  shows "\<exists>sbom arts inv. document sbomText sbom \<and> getp sbom ''artifacts'' = JArr arts
     \<and> inventory = JArr inv \<and> inv \<noteq> [] \<and> (\<forall>p \<in> set inv. trusted_package E distro p)
     \<and> distinct (map (\<lambda>p. getp p ''name'') inv)
     \<and> mset (map artifact_identity arts) = mset (map package_fields inv)
     \<and> (\<forall>a \<in> set arts. \<exists>p \<in> set inv. artifact_identity a = package_fields p \<and> artifact_of E p a)"
  using coverage_identities[OF assms] .

theorem catalogue_covers_inventory_exactly_witness:
  "\<exists>sbom arts. document (JStr (the (stringify sample_env sample_catalogue))) sbom
     \<and> getp sbom ''artifacts'' = JArr arts
     \<and> mset (map artifact_identity arts) = {# package_fields sample_package #}"
  using catalogue_covers_inventory_exactly[OF sample_coverage unquoted_sample] by auto

end
