(* ===== verification/Image_Canary.thy ===== *)
theory Image_Canary
  imports Image_Policy_Props
begin

text \<open>
  The APK canary of \<^verbatim>\<open>src/scripts/postgres-image/policy.mjs\<close>: \<^verbatim>\<open>evaluateApkCanary\<close> passes exactly when the
  pinned image was catalogued and scanned in this run and the scan found what it must find.  The
  conditions on a match are written out over the properties of the report; the code's own tests
  \<open>detects\<close>, \<open>cpeDetail\<close> and \<open>blockingMatch\<close> remain only to say that reading an entry does not throw.  The
  coverage of the catalogue and the other findings of the report are the verdicts of
  \<^verbatim>\<open>evaluateApkCoverage\<close> and \<^verbatim>\<open>evaluateGrypeReport\<close>, which have theorems of their own.
\<close>

section \<open>Searching a list with a test that may throw\<close>

lemma split_Cons:
  "(\<exists>xs y zs. u # us = xs @ y # zs \<and> P y \<and> (\<forall>x \<in> set xs. Q x)) \<longleftrightarrow>
     P u \<or> Q u \<and> (\<exists>xs y zs. us = xs @ y # zs \<and> P y \<and> (\<forall>x \<in> set xs. Q x))" (is "?l \<longleftrightarrow> ?r")
proof
  assume ?l
  then obtain xs y zs where s: "u # us = xs @ y # zs" "P y" "\<forall>x \<in> set xs. Q x" by blast
  show ?r
  proof (cases xs)
    case (Cons x ws)
    then show ?thesis using s by auto
  qed (use s in simp)
next
  assume ?r
  then show ?l
  proof (elim disjE conjE exE)
    fix xs y zs assume "Q u" "us = xs @ y # zs" "P y" "\<forall>x \<in> set xs. Q x"
    then show ?l by (intro exI[of _ "u # xs"] exI[of _ y] exI[of _ zs]) simp
  qed (intro exI[of _ "[]"], simp)
qed

lemma some_of_split:
  "some_of f us = Some True \<longleftrightarrow> (\<exists>xs y zs. us = xs @ y # zs \<and> f y = Some True \<and> (\<forall>x \<in> set xs. f x \<noteq> None))"
proof (induction us)
  case (Cons u us)
  then show ?case
    unfolding split_Cons by (cases "f u") (auto simp: some_of_def any_of.simps split: bool.splits)
qed (simp add: some_of_def any_of.simps)

lemma some_in_True:
  "some_in f v = Some True \<longleftrightarrow>
     (\<exists>xs y zs. v = JArr (xs @ y # zs) \<and> f y = Some True \<and> (\<forall>x \<in> set xs. f x \<noteq> None))"
  by (cases v) (auto simp: some_in_def nullish_def some_of_split)

section \<open>Conditions on a match\<close>

lemma is_infix_iff: "is_infix s t \<longleftrightarrow> (\<exists>a b. t = a @ s @ b)"
proof
  assume "is_infix s t"
  then obtain i where "take (length s) (drop i t) = s" by (auto simp: is_infix_def list_ex_iff)
  then have "t = take i t @ s @ drop (length s) (drop i t)" by (metis append_take_drop_id)
  then show "\<exists>a b. t = a @ s @ b" by blast
next
  assume "\<exists>a b. t = a @ s @ b"
  then obtain a b where "t = a @ s @ b" by blast
  then show "is_infix s t"
    unfolding is_infix_def list_ex_iff by (intro bexI[of _ "length a"]) auto
qed

text \<open>\<^verbatim>\<open>v?.includes(x)\<close> holds, \<open>v\<close> being an array or a text.\<close>

definition holds_value :: "jsenv \<Rightarrow> jsval \<Rightarrow> jsval \<Rightarrow> bool" where
  "holds_value E v x \<longleftrightarrow>
     (case v of JArr xs \<Rightarrow> \<exists>y \<in> set xs. same_value y x | JStr s \<Rightarrow> \<exists>a b. s = a @ to_text E x @ b | _ \<Rightarrow> False)"

lemma includes_True: "includes_value E v x = Some True \<longleftrightarrow> holds_value E v x"
  by (cases v) (auto simp: includes_value_def holds_value_def nullish_def is_infix_iff list_ex_iff)

text \<open>The match names the vulnerability, the severity and the package of the expectation, found in the
  CPE namespace of the NVD.\<close>

definition names_finding :: "jsenv \<Rightarrow> jsval \<Rightarrow> jsval \<Rightarrow> bool" where
  "names_finding E r m \<longleftrightarrow>
     strict_eq (gets m [''vulnerability'', ''id'']) (getp r ''vulnerabilityId'')
     \<and> strict_eq (gets m [''vulnerability'', ''severity'']) (getp r ''severity'')
     \<and> gets m [''vulnerability'', ''namespace''] = JStr (js ''nvd:cpe'')
     \<and> gets m [''artifact'', ''type''] = JStr (js ''apk'')
     \<and> strict_eq (gets m [''artifact'', ''name'']) (getp r ''name'')
     \<and> strict_eq (gets m [''artifact'', ''version'']) (getp r ''version'')
     \<and> strict_eq (gets m [''artifact'', ''purl'']) (getp r ''purl'')
     \<and> holds_value E (gets m [''artifact'', ''cpes'']) (getp r ''cpe'')"

text \<open>A version without its revision suffix \<^verbatim>\<open>-r<digits>\<close>, and the CPE that Grype searches: the CPE of the
  expectation with this version in its sixth field.\<close>

definition without_revision :: "jstring \<Rightarrow> jstring \<Rightarrow> bool" where
  "without_revision v w \<longleftrightarrow>
     (if \<exists>u ds. v = u @ js ''-r'' @ ds \<and> ds \<noteq> [] \<and> list_all is_digit ds
      then \<exists>ds. v = w @ js ''-r'' @ ds \<and> ds \<noteq> [] \<and> list_all is_digit ds
      else w = v)"

lemma drop_revision_suffix:
  assumes "ds \<noteq> []" "list_all is_digit ds"
  shows "drop_revision (u @ js ''-r'' @ ds) = u"
proof -
  have "takeWhile is_digit (rev ds @ 114 # 45 # rev u) = rev ds" "dropWhile is_digit (rev ds @ 114 # 45 # rev u) = 114 # 45 # rev u"
    using assms(2) by (simp_all add: takeWhile_append dropWhile_append list_all_iff is_digit_def)
  then show ?thesis using assms(1) by (simp add: drop_revision_def js_def Let_def)
qed

lemma drop_revision_iff: "drop_revision v = w \<longleftrightarrow> without_revision v w"
proof (cases "\<exists>u ds. v = u @ js ''-r'' @ ds \<and> ds \<noteq> [] \<and> list_all is_digit ds")
  case True
  then show ?thesis using drop_revision_suffix by (auto simp: without_revision_def)
next
  case False
  define d q where "d = takeWhile is_digit (rev v)" and "q = dropWhile is_digit (rev v)"
  have v: "v = rev q @ rev d" unfolding d_def q_def by (metis rev_append rev_rev_ident takeWhile_dropWhile_id)
  have "\<not> (d \<noteq> [] \<and> take 2 q = [114, 45])"
  proof
    assume a: "d \<noteq> [] \<and> take 2 q = [114, 45]"
    then obtain q' where "q = 114 # 45 # q'" by (metis append_Cons append_Nil append_take_drop_id)
    then have "rev q = rev (drop 2 q) @ js ''-r''" by (simp add: js_def)
    then have "v = rev (drop 2 q) @ js ''-r'' @ rev d" using v by simp
    moreover have "list_all is_digit (rev d)" by (auto simp: d_def list_all_iff dest: set_takeWhileD)
    ultimately show False using False a by blast
  qed
  then have "drop_revision v = v" by (auto simp: drop_revision_def Let_def d_def q_def)
  then show ?thesis using False by (auto simp: without_revision_def)
qed

definition searched_cpe :: "jsval \<Rightarrow> jstring \<Rightarrow> bool" where
  "searched_cpe r s \<longleftrightarrow>
     (\<exists>w. without_revision (case getp r ''version'' of JStr v \<Rightarrow> v | _ \<Rightarrow> []) w
        \<and> s = join [58] (take 5 ((case getp r ''cpe'' of JStr c \<Rightarrow> split_on 58 c | _ \<Rightarrow> []) @ replicate 5 []) @ [w]
                  @ drop 6 (case getp r ''cpe'' of JStr c \<Rightarrow> split_on 58 c | _ \<Rightarrow> [])))"

lemma search_cpe_iff: "search_cpe r = s \<longleftrightarrow> searched_cpe r s"
proof -
  have "drop_revision [] = []" by (simp add: drop_revision_def)
  then show ?thesis
    by (cases "getp r ''version''") (auto simp: searched_cpe_def search_cpe_def set_fifth_def drop_revision_iff[symmetric])
qed

text \<open>A detail of the match: the APK matcher searched the package's CPE and found the vulnerability.\<close>

definition names_search :: "jsenv \<Rightarrow> jsval \<Rightarrow> jsval \<Rightarrow> bool" where
  "names_search E r d \<longleftrightarrow>
     getp d ''type'' = JStr (js ''cpe-match'') \<and> getp d ''matcher'' = JStr (js ''apk-matcher'')
     \<and> gets d [''searchedBy'', ''namespace''] = JStr (js ''nvd:cpe'')
     \<and> strict_eq (gets d [''searchedBy'', ''package'', ''name'']) (getp r ''name'')
     \<and> strict_eq (gets d [''searchedBy'', ''package'', ''version'']) (getp r ''version'')
     \<and> (\<exists>s. searched_cpe r s \<and> holds_value E (gets d [''searchedBy'', ''cpes'']) (JStr s))
     \<and> strict_eq (gets d [''found'', ''vulnerabilityID'']) (getp r ''vulnerabilityId'')"

lemma strict_eq_text [simp]: "strict_eq v (JStr s) \<longleftrightarrow> v = JStr s"
  by (auto simp: strict_eq_def split: jsval.splits jnum.splits)

lemma cpeDetail_True: "cpeDetail E r d = Some True \<longleftrightarrow> names_search E r d"
  by (cases "nullish d") (auto simp: cpeDetail_def names_search_def same_def acc_def includes_True nullish_def search_cpe_iff[symmetric])

lemma detects_True:
  assumes "is_text (getp r ''vulnerabilityId'')"
  shows "detects E r m = Some True \<longleftrightarrow> names_finding E r m
    \<and> (\<exists>xs d zs. getp m ''matchDetails'' = JArr (xs @ d # zs) \<and> names_search E r d \<and> (\<forall>x \<in> set xs. cpeDetail E r x \<noteq> None))"
proof -
  obtain s where s: "getp r ''vulnerabilityId'' = JStr s" using assms by (auto simp: is_text_iff)
  show ?thesis
    by (cases "nullish m"; cases "nullish (getp m ''vulnerability'')")
      (auto simp: detects_def names_finding_def same_def acc_def includes_True some_in_True cpeDetail_True s nullish_def)
qed

section \<open>Expectations\<close>

text \<open>The trusted package of an expectation: the first of the inventory with its name, version and
  package URL.\<close>

definition same_package :: "jsval \<Rightarrow> jsval \<Rightarrow> bool" where
  "same_package r p \<longleftrightarrow> strict_eq (getp p ''name'') (getp r ''name'') \<and> strict_eq (getp p ''version'') (getp r ''version'')
     \<and> strict_eq (getp p ''purl'') (getp r ''purl'')"

text \<open>An expectation is one of the trusted inventory, and a match of the report is its witness.\<close>

definition expectation_met :: "jsenv \<Rightarrow> jsval \<Rightarrow> jsval list \<Rightarrow> jsval \<Rightarrow> bool" where
  "expectation_met E inventory ms r \<longleftrightarrow>
     is_text (getp r ''vulnerabilityId'') \<and> getp r ''severity'' \<in> {JStr (js ''High''), JStr (js ''Critical'')}
     \<and> (\<exists>xs p zs. inventory = JArr (xs @ p # zs) \<and> \<not> nullish p \<and> same_package r p
          \<and> (\<forall>x \<in> set xs. \<not> nullish x \<and> \<not> same_package r x) \<and> holds_value E (getp p ''cpes'') (getp r ''cpe''))
     \<and> (\<exists>xs m zs. ms = xs @ m # zs \<and> names_finding E r m
          \<and> (\<exists>us d vs. getp m ''matchDetails'' = JArr (us @ d # vs) \<and> names_search E r d
               \<and> (\<forall>u \<in> set us. cpeDetail E r u \<noteq> None))
          \<and> (\<forall>x \<in> set xs. detects E r x \<noteq> None))"

lemma first_match_split:
  "(\<exists>p. first_match f us = Some p \<and> P p) \<longleftrightarrow>
     (\<exists>xs p zs. us = xs @ p # zs \<and> (f p = Some True \<and> P p) \<and> (\<forall>x \<in> set xs. f x = Some False))"
  if "\<not> P JUndef"
proof (induction us)
  case (Cons u us)
  then show ?case
    unfolding split_Cons by (cases "f u") (auto split: bool.splits)
qed (simp add: that)

lemma required_detected_iff:
  "required_detected E expected report r \<longleftrightarrow> (\<exists>ms. getp report ''matches'' = JArr ms
     \<and> expectation_met E (getp expected ''inventory'') ms r)"
proof (cases "is_text (getp r ''vulnerabilityId'')")
  case True
  let ?f = "\<lambda>p. all_of [same p ''name'' (getp r ''name''), Some (strict_eq (getp p ''version'') (getp r ''version'')),
     Some (strict_eq (getp p ''purl'') (getp r ''purl''))]"
  have t: "?f p = Some True \<longleftrightarrow> \<not> nullish p \<and> same_package r p" for p
    by (auto simp: same_def acc_def same_package_def)
  have f: "?f p = Some False \<longleftrightarrow> \<not> nullish p \<and> \<not> same_package r p" for p
    by (auto simp: same_def acc_def same_package_def all_of.simps split: bool.splits)
  have u: "\<not> holds_value E (getp JUndef ''cpes'') (getp r ''cpe'')" by (simp add: holds_value_def)
  have 1: "(\<exists>pkg. find_in ?f (getp expected ''inventory'') = Some pkg \<and> holds_value E (getp pkg ''cpes'') (getp r ''cpe''))
     \<longleftrightarrow> (\<exists>xs p zs. getp expected ''inventory'' = JArr (xs @ p # zs) \<and> \<not> nullish p \<and> same_package r p
          \<and> (\<forall>x \<in> set xs. \<not> nullish x \<and> \<not> same_package r x) \<and> holds_value E (getp p ''cpes'') (getp r ''cpe''))"
  proof (cases "getp expected ''inventory''")
    case (JArr us)
    have "(\<exists>p. first_match ?f us = Some p \<and> holds_value E (getp p ''cpes'') (getp r ''cpe'')) \<longleftrightarrow>
      (\<exists>xs p zs. us = xs @ p # zs \<and> ((\<not> nullish p \<and> same_package r p) \<and> holds_value E (getp p ''cpes'') (getp r ''cpe''))
         \<and> (\<forall>x \<in> set xs. \<not> nullish x \<and> \<not> same_package r x))"
      using first_match_split[where P = "\<lambda>p. holds_value E (getp p ''cpes'') (getp r ''cpe'')", OF u, of ?f us]
      unfolding t f .
    then show ?thesis
      unfolding JArr find_in_def by (simp add: nullish_def conj_ac)
  qed (use u in \<open>simp_all add: find_in_def nullish_def\<close>)
  have sev: "blocking_severity v \<longleftrightarrow> v \<in> {JStr (js ''High''), JStr (js ''Critical'')}" for v
    by (auto simp: blocking_severity_def is_one_of_def)
  show ?thesis
    unfolding required_detected_def expectation_met_def includes_True 1 some_in_True detects_True[OF True]
      sev conj_assoc
    by blast
qed (simp add: required_detected_def expectation_met_def)

text \<open>A vulnerability blocks by its severity or a CVSS score of at least 7.\<close>

definition blocks :: "jsenv \<Rightarrow> jsval \<Rightarrow> bool" where
  "blocks E v \<longleftrightarrow> getp v ''severity'' \<in> {JStr (js ''High''), JStr (js ''Critical'')}
     \<or> (\<exists>cs c. getp v ''cvss'' = JArr cs \<and> c \<in> set cs
          \<and> (case to_number E (gets c [''metrics'', ''baseScore'']) of Fin x \<Rightarrow> 7 \<le> x | Infinity neg \<Rightarrow> \<not> neg | NaN \<Rightarrow> False))"

definition match_blocks :: "jsenv \<Rightarrow> jsval \<Rightarrow> bool" where
  "match_blocks E m \<longleftrightarrow> blocks E (getp m ''vulnerability'')
     \<or> (\<exists>vs v. getp m ''relatedVulnerabilities'' = JArr vs \<and> v \<in> set vs \<and> blocks E v)"

lemma some_of_total: "some_of (\<lambda>x. Some (p x)) xs = Some (\<exists>x \<in> set xs. p x)"
  by (induction xs) (auto simp: some_of_def any_of.simps split: bool.splits)

lemma some_of_read: "some_of f xs \<noteq> None \<Longrightarrow> some_of f xs = Some True \<longleftrightarrow> (\<exists>x \<in> set xs. f x = Some True)"
  by (induction xs) (auto simp: some_of_def any_of.simps split: option.splits bool.splits)

lemma blockingVulnerability_True: "blockingVulnerability E v = Some True \<longleftrightarrow> blocks E v"
  by (cases "getp v ''cvss''")
      (auto simp: blockingVulnerability_def blocks_def at_least_7_def some_in_def nullish_def blocking_severity_def is_one_of_def any_of.simps
      some_of_total simp del: gets.simps split: bool.splits)

lemma blockingMatch_True: "blockingMatch E m \<noteq> None \<Longrightarrow> blockingMatch E m = Some True \<longleftrightarrow> match_blocks E m"
proof -
  assume a: "blockingMatch E m \<noteq> None"
  then obtain vs where m: "\<not> nullish m" and vs: "iterate (coalesce (getp m ''relatedVulnerabilities'') (JArr [])) = Some vs"
    and b: "blockingMatch E m = some_of (blockingVulnerability E) (getp m ''vulnerability'' # vs)"
    by (cases "nullish m") (auto simp: blockingMatch_def acc_def split: Option.bind_splits)
  have "\<not> blocks E (JStr s)" for s by (auto simp: blocks_def getp_def)
  then have r: "(\<exists>v \<in> set vs. blocks E v) \<longleftrightarrow> (\<exists>vs v. getp m ''relatedVulnerabilities'' = JArr vs \<and> v \<in> set vs \<and> blocks E v)"
    using vs by (auto simp: iterate_def coalesce_def nullish_def split: jsval.splits if_splits)
  have "blockingMatch E m = Some True \<longleftrightarrow> (\<exists>v \<in> set (getp m ''vulnerability'' # vs). blockingVulnerability E v = Some True)"
    using some_of_read[OF a[unfolded b]] unfolding b by simp
  then show ?thesis
    using r by (simp add: blockingVulnerability_True match_blocks_def)
qed

lemma filter_blocking:
  "filter_opt (blockingMatch E) ms = Some ys \<longleftrightarrow>
     (\<forall>m \<in> set ms. blockingMatch E m \<noteq> None) \<and> ys = filter (match_blocks E) ms"
proof (induction ms arbitrary: ys)
  case (Cons m ms)
  then show ?case
    by (cases "blockingMatch E m") (auto simp: blockingMatch_True[symmetric] split: if_splits)
qed auto

text \<open>What identifies a finding: the canonical text of package name, version and package URL, vulnerability
  and severity.\<close>

definition expected_key :: "jsenv \<Rightarrow> jsval \<Rightarrow> jstring option" where
  "expected_key E r = canonical E (JArr [getp r ''name'', getp r ''version'', getp r ''purl'',
     getp r ''vulnerabilityId'', getp r ''severity''])"

definition reported_key :: "jsenv \<Rightarrow> jsval \<Rightarrow> jstring option" where
  "reported_key E m = canonical E (JArr [gets m [''artifact'', ''name''], gets m [''artifact'', ''version''],
     gets m [''artifact'', ''purl''], gets m [''vulnerability'', ''id''], gets m [''vulnerability'', ''severity'']])"

lemma keys:
  "distinct (map (projectionOfRequired E) rs) = distinct (map (expected_key E) rs)"
  "mset (map (projectionOfMatch E) ms) = mset (map (projectionOfRequired E) rs) \<longleftrightarrow>
     mset (map (reported_key E) ms) = mset (map (expected_key E) rs)"
proof -
  have c: "expected_key E r = Some (projectionOfRequired E r)" "reported_key E m = Some (projectionOfMatch E m)" for r m
    by (simp_all add: expected_key_def reported_key_def projectionOfRequired_def projectionOfMatch_def projection_def
        apkKey_def canonical_array)
  have f: "map (expected_key E) xs = map Some (map (projectionOfRequired E) xs)"
    "map (reported_key E) xs = map Some (map (projectionOfMatch E) xs)" for xs
    by (simp_all add: c)
  have i: "inj (Some :: jstring \<Rightarrow> _)" by (simp add: inj_def)
  show "distinct (map (projectionOfRequired E) rs) = distinct (map (expected_key E) rs)"
    unfolding f by (simp add: distinct_map del: map_map)
  show "mset (map (projectionOfMatch E) ms) = mset (map (projectionOfRequired E) rs) \<longleftrightarrow>
     mset (map (reported_key E) ms) = mset (map (expected_key E) rs)"
    unfolding f mset_map[of Some] by (rule inj_eq[OF multiset.inj_map[OF i], symmetric])
qed

text \<open>The findings of the canary, read declaratively.\<close>

lemma canary_expectations:
  "clean (canaryFindings E evidence expected report) () \<longleftrightarrow>
     (\<exists>rs ms. getp expected ''requiredMatches'' = JArr rs \<and> rs \<noteq> [] \<and> length rs \<le> 64
        \<and> \<not> list_ex nullish rs \<and> distinct (map (projectionOfRequired E) rs)
        \<and> getp report ''matches'' = JArr ms
        \<and> list_all (expectation_met E (getp expected ''inventory'') ms) rs
        \<and> list_all (\<lambda>m. blockingMatch E m \<noteq> None) ms
        \<and> gets evidence [''grype'', ''rawExit''] = JNum (Fin 2)
        \<and> mset (map (projectionOfMatch E) (filter (match_blocks E) ms)) = mset (map (projectionOfRequired E) rs))"
proof -
  have m: "(\<forall>r \<in> set rs. required_detected E expected report r)
      \<and> Option.bind (array_or_absent (getp report ''matches'')) (filter_opt (blockingMatch E)) = Some ys \<longleftrightarrow>
     (\<exists>ms. getp report ''matches'' = JArr ms \<and> list_all (expectation_met E (getp expected ''inventory'') ms) rs
        \<and> list_all (\<lambda>m. blockingMatch E m \<noteq> None) ms \<and> ys = filter (match_blocks E) ms)"
    if "rs \<noteq> []" for rs ys
    using that
    by (cases "getp report ''matches''")
      (auto simp: required_detected_iff array_or_absent_def nullish_def filter_blocking list_all_iff)
  show ?thesis (is "_ \<longleftrightarrow> ?r")
  proof
    assume "clean (canaryFindings E evidence expected report) ()"
    then obtain rs ys where r: "getp expected ''requiredMatches'' = JArr rs" "rs \<noteq> []" "length rs \<le> 64"
      "\<not> list_ex nullish rs" "distinct (map (projectionOfRequired E) rs)" "gets evidence [''grype'', ''rawExit''] = JNum (Fin 2)"
      "mset (map (projectionOfMatch E) ys) = mset (map (projectionOfRequired E) rs)"
      and "(\<forall>r \<in> set rs. required_detected E expected report r)
        \<and> Option.bind (array_or_absent (getp report ''matches'')) (filter_opt (blockingMatch E)) = Some ys"
      unfolding canary_findings_clean by blast
    with m[OF r(2)] obtain ms where "getp report ''matches'' = JArr ms" "list_all (expectation_met E (getp expected ''inventory'') ms) rs"
      "list_all (\<lambda>m. blockingMatch E m \<noteq> None) ms" "ys = filter (match_blocks E) ms" by blast
    with r show ?r by blast
  next
    assume ?r
    then obtain rs ms where r: "getp expected ''requiredMatches'' = JArr rs" "rs \<noteq> []" "length rs \<le> 64"
      "\<not> list_ex nullish rs" "distinct (map (projectionOfRequired E) rs)" "gets evidence [''grype'', ''rawExit''] = JNum (Fin 2)"
      and q: "getp report ''matches'' = JArr ms" "list_all (expectation_met E (getp expected ''inventory'') ms) rs"
      "list_all (\<lambda>m. blockingMatch E m \<noteq> None) ms"
      and e: "mset (map (projectionOfMatch E) (filter (match_blocks E) ms)) = mset (map (projectionOfRequired E) rs)" by blast
    have "(\<forall>r \<in> set rs. required_detected E expected report r)
        \<and> Option.bind (array_or_absent (getp report ''matches'')) (filter_opt (blockingMatch E)) = Some (filter (match_blocks E) ms)"
      using m[OF r(2), of "filter (match_blocks E) ms"] q by blast
    with r e show "clean (canaryFindings E evidence expected report) ()" unfolding canary_findings_clean by blast
  qed
qed

lemmas canary_met = canary_expectations[unfolded keys]

section \<open>The whole canary\<close>

text \<open>The pinned image and file system of this run, an extraction without error, a catalogue that covers the
  trusted inventory and names the image, a report made from that catalogue whose only findings are
  blocking vulnerabilities, and in it the expected matches and no other blocking match.\<close>

definition apk_canary_passes ::
  "jsenv \<Rightarrow> jsval \<Rightarrow> jsval \<Rightarrow> jsval \<Rightarrow> jsval \<Rightarrow> jsval \<Rightarrow> bool" where
  "apk_canary_passes E evidence expected runId db lock \<longleftrightarrow>
     truthy expected \<and> DIGEST E (getp expected ''imageDigest'') \<and> HASH E (getp expected ''rootfsSha256'')
     \<and> strict_eq (getp evidence ''imageDigest'') (getp expected ''imageDigest'')
     \<and> strict_eq (getp evidence ''rootfsSha256'') (getp expected ''rootfsSha256'')
     \<and> strict_eq (getp evidence ''runId'') runId
     \<and> gets evidence [''extraction'', ''rawExit''] = JNum (Fin 0)
     \<and> gets evidence [''extraction'', ''errors''] = JArr []
     \<and> gets evidence [''syft'', ''rawExit''] = JNum (Fin 0) \<and> gets evidence [''syft'', ''stderr''] = JStr []
     \<and> (\<exists>t sbom u report. bound_text E (getp evidence ''syft'') runId (getp expected ''rootfsSha256'') t
        \<and> document (JStr t) sbom
        \<and> r_status (evaluateApkCoverage E (JStr t) (getp expected ''inventory'') (getp expected ''syftSource'')
                     (getp expected ''distro'') lock) = ''PASS''
        \<and> gets sbom [''source'', ''type''] = JStr (js ''image'')
        \<and> strict_eq (gets sbom [''source'', ''metadata'', ''manifestDigest'']) (getp expected ''imageDigest'')
        \<and> bound_text E (getp evidence ''grype'') runId (JStr (sha256 E t)) u \<and> document (JStr u) report
        \<and> i_code ` set (r_findings (evaluateGrypeReport E (JStr u) (gets evidence [''grype'', ''rawExit''])
             (gets evidence [''grype'', ''stderr'']) (getp expected ''grypeSource'') (getp expected ''distro'') db lock))
            \<subseteq> {''VULNERABILITY_THRESHOLD''}
        \<and> (\<exists>rs ms. getp expected ''requiredMatches'' = JArr rs \<and> rs \<noteq> [] \<and> length rs \<le> 64
             \<and> \<not> list_ex nullish rs \<and> distinct (map (expected_key E) rs)
             \<and> getp report ''matches'' = JArr ms
             \<and> list_all (expectation_met E (getp expected ''inventory'') ms) rs
             \<and> list_all (\<lambda>m. blockingMatch E m \<noteq> None) ms
             \<and> gets evidence [''grype'', ''rawExit''] = JNum (Fin 2)
             \<and> mset (map (reported_key E) (filter (match_blocks E) ms)) = mset (map (expected_key E) rs)))"

text \<open>C17: the APK canary passes exactly when its image, file system and run are the pinned ones, the
  extraction and the cataloguing ended without error, the catalogue covers the trusted inventory and
  names the pinned image, the report is bound to the catalogue and its only findings are blocking
  vulnerabilities, every expected vulnerability of the trusted inventory has a match with its
  identity, package and CPE search, and the blocking matches are, counted with multiplicity, the
  expected ones, with exit code 2.\<close>

theorem apk_canary_passes_exactly:
  "r_status (evaluateApkCanary E evidence expected runId db lock) = ''PASS'' \<longleftrightarrow>
     apk_canary_passes E evidence expected runId db lock"
proof (cases "\<exists>t. bound_text E (getp evidence ''syft'') runId (getp expected ''rootfsSha256'') t")
  case True
  then obtain t where t: "bound_text E (getp evidence ''syft'') runId (getp expected ''rootfsSha256'') t" by blast
  have t': "bound_text E (getp evidence ''syft'') runId (getp expected ''rootfsSha256'') t' \<longleftrightarrow> t' = t" for t'
    using t by (auto simp: bound_text_def)
  show ?thesis
  proof (cases "\<exists>u. bound_text E (getp evidence ''grype'') runId (JStr (sha256 E t)) u")
    case True
    then obtain u where u: "bound_text E (getp evidence ''grype'') runId (JStr (sha256 E t)) u" by blast
    have u': "bound_text E (getp evidence ''grype'') runId (JStr (sha256 E t)) u' \<longleftrightarrow> u' = u" for u'
      using u by (auto simp: bound_text_def)
    show ?thesis
      using bound_textD[OF t] bound_textD[OF u] t' u'
      unfolding evaluateApkCanary_def apk_canary_passes_def
      by (simp add: canary_met filter_empty_conv subset_iff image_iff cong: conj_cong) blast
  next
    case False
    then show ?thesis
      using bound_textD[OF t] t'
      unfolding evaluateApkCanary_def apk_canary_passes_def by simp
  qed
next
  case False
  then show ?thesis
    unfolding evaluateApkCanary_def apk_canary_passes_def by simp
qed

end
