(* ===== verification/Archive.thy ===== *)
theory Archive
  imports Js_Runtime
begin

unbundle bit_operations_syntax

text \<open>
  The data-only archive readers of \<^verbatim>\<open>src/scripts/postgres-image/apk-runtime/archive-data.mjs\<close>: tar
  entries of the three closed profiles, gzip members, the deterministic tar writer and the check
  of the virtual file tree.  Bytes are lists of numbers; an offset into the input is the rest of
  the input.  The two inflate functions of \<^verbatim>\<open>node:zlib\<close> and SHA-1 are parameters.
\<close>

section \<open>Results\<close>

text \<open>A failed check, a \<^verbatim>\<open>TypeError\<close> of the fatal UTF-8 decoder, or an error of zlib.\<close>

datatype archive_error = Check string | Undecodable | Zlib

type_synonym bytes = "nat list"

definition requireThat :: "bool \<Rightarrow> string \<Rightarrow> archive_error + unit" where
  "requireThat c code = guardR c (Check code)"

lemma requireThat_Inr [simp, res_simps]: "requireThat c code = Inr u \<longleftrightarrow> c"
  by (simp add: requireThat_def)

definition decodeR :: "bytes \<Rightarrow> archive_error + jstring" where
  "decodeR b = (case utf8_decode b of None \<Rightarrow> Inl Undecodable | Some s \<Rightarrow> Inr s)"

text \<open>\<^verbatim>\<open>text(b)\<close>: the decoded field up to its first NUL.\<close>

definition field_text :: "bytes \<Rightarrow> archive_error + jstring" where
  "field_text b = bindR (decodeR b) (\<lambda>s. Inr (hd (split_on 0 s)))"

definition slice :: "nat \<Rightarrow> nat \<Rightarrow> 'a list \<Rightarrow> 'a list" where
  "slice i j b = take (j - i) (drop i b)"

section \<open>Numbers and names\<close>

definition is_octal :: "nat \<Rightarrow> bool" where
  "is_octal c \<longleftrightarrow> 48 \<le> c \<and> c < 56"

definition octal_value :: "jstring \<Rightarrow> nat" where
  "octal_value s = foldl (\<lambda>n c. 8 * n + (c - 48)) 0 s"

definition is_safe :: "nat \<Rightarrow> bool" where
  "is_safe n \<longleftrightarrow> n < 2 ^ 53"

definition octal :: "bytes \<Rightarrow> archive_error + nat" where
  "octal b =
     bindR (field_text b) (\<lambda>t. let s = trim t in
     bindR (requireThat (s \<noteq> [] \<and> list_all is_octal s) ''TAR_OCTAL'') (\<lambda>_.
     bindR (requireThat (is_safe (octal_value s)) ''TAR_NUMBER'') (\<lambda>_. Inr (octal_value s))))"

text \<open>\<^verbatim>\<open>/[\\\x00-\x1f\x7f:]/\<close>\<close>

definition forbidden_char :: "nat \<Rightarrow> bool" where
  "forbidden_char c \<longleftrightarrow> c = 92 \<or> c < 32 \<or> c = 127 \<or> c = 58"

definition good_component :: "jstring \<Rightarrow> bool" where
  "good_component p \<longleftrightarrow> p \<noteq> [] \<and> p \<noteq> js ''.'' \<and> p \<noteq> js ''..'' \<and> \<not> starts_with p (js ''.wh.'')"

definition strip_name :: "jstring \<Rightarrow> jstring" where
  "strip_name s =
     (let t = (if starts_with s (js ''./'') then drop 2 s else s)
      in if t \<noteq> [] \<and> last t = 47 then butlast t else t)"

definition archiveName :: "jstring \<Rightarrow> archive_error + jstring" where
  "archiveName s =
     bindR (requireThat (s \<noteq> [] \<and> length (utf8_encode s) \<le> 4096 \<and> \<not> starts_with s (js ''/'')
              \<and> \<not> list_ex forbidden_char s) ''TAR_PATH'') (\<lambda>_.
     let n = strip_name s in
     bindR (requireThat (n \<noteq> [] \<and> list_all good_component (split_on 47 n)) ''TAR_PATH_COMPONENT'') (\<lambda>_.
       Inr n))"

section \<open>Tar entries\<close>

datatype tar_profile = UstarClosed | ApkV2Control | ApkV2Index

record tar_entry =
  e_name :: jstring
  e_type :: nat
  e_link :: jstring
  e_mode :: nat
  e_uid :: nat
  e_gid :: nat
  e_data :: bytes

type_synonym pax = "(jstring \<times> jstring) list"

text \<open>The loop variables.  The set of names is the one of the entries read so far.\<close>

record tar_state =
  t_out :: "tar_entry list"
  t_pax :: "pax option"
  t_count :: nat
  t_ended :: bool
  t_zeroBlocks :: nat

definition tar_start :: tar_state where
  "tar_start = \<lparr>t_out = [], t_pax = None, t_count = 0, t_ended = False, t_zeroBlocks = 0\<rparr>"

definition blocks :: "nat \<Rightarrow> nat" where
  "blocks sz = (sz + 511) div 512 * 512"

definition checksum :: "bytes \<Rightarrow> nat" where
  "checksum h = sum_list (map (\<lambda>i. if 148 \<le> i \<and> i < 156 then 32 else h ! i) [0..<512])"

definition known_magic :: "tar_profile \<Rightarrow> bytes \<Rightarrow> bool" where
  "known_magic profile magic \<longleftrightarrow>
     magic = js ''ustar'' @ [0] @ js ''00''
     \<or> (profile = ApkV2Index \<and> magic = js ''ustar  '' @ [0])"

subsection \<open>PAX records\<close>

definition pax_keys :: "jstring list" where
  "pax_keys = map js [''path'', ''linkpath'', ''mtime'', ''atime'', ''ctime'', ''APK-TOOLS.checksum.SHA1'']"

text \<open>\<^verbatim>\<open>/^[0-9]{1,12}(?:[.][0-9]{1,9})?$/\<close>\<close>

definition pax_time :: "jstring \<Rightarrow> bool" where
  "pax_time s \<longleftrightarrow>
     (let i = takeWhile is_digit s; r = dropWhile is_digit s; f = tl r in
      i \<noteq> [] \<and> length i \<le> 12
      \<and> (r = [] \<or> (hd r = 46 \<and> f \<noteq> [] \<and> length f \<le> 9 \<and> list_all is_digit f)))"

definition decimal_value :: "jstring \<Rightarrow> nat" where
  "decimal_value s = foldl (\<lambda>n c. 10 * n + (c - 48)) 0 s"

text \<open>One record: its length in bytes and the table with the new field.\<close>

definition paxRecord :: "pax \<Rightarrow> bytes \<Rightarrow> archive_error + pax \<times> nat" where
  "paxRecord pax data =
     (case index_of 32 data of
        None \<Rightarrow> Inl (Check ''TAR_PAX_LENGTH'')
      | Some sp \<Rightarrow>
     bindR (requireThat (sp \<le> 10) ''TAR_PAX_LENGTH'') (\<lambda>_.
     let lengthText = take sp data in
     bindR (requireThat (lengthText \<noteq> [] \<and> list_all is_digit lengthText \<and> hd lengthText \<noteq> 48)
              ''TAR_PAX_LENGTH'') (\<lambda>_.
     let n = decimal_value lengthText in
     bindR (requireThat (is_safe n \<and> n > sp + 2 \<and> n \<le> length data \<and> data ! (n - 1) = 10)
              ''TAR_PAX_BOUND'') (\<lambda>_.
     bindR (decodeR (slice (sp + 1) (n - 1) data)) (\<lambda>line.
     case index_of 61 line of
       None \<Rightarrow> Inl (Check ''TAR_PAX_FIELD'')
     | Some eq \<Rightarrow>
     bindR (requireThat (eq > 0) ''TAR_PAX_FIELD'') (\<lambda>_.
     let key = take eq line; value = drop (eq + 1) line in
     bindR (requireThat (key \<in> set pax_keys \<and> map_of pax key = None) ''TAR_PAX_UNSUPPORTED'') (\<lambda>_.
     bindR (requireThat (key \<in> set (map js [''mtime'', ''atime'', ''ctime'']) \<longrightarrow> pax_time value)
              ''TAR_PAX_TIME'') (\<lambda>_.
       Inr (pax @ [(key, value)], n)))))))))"

lemma paxRecord_advances: "paxRecord pax data = Inr (pax', n) \<Longrightarrow> 0 < n"
  by (auto simp: paxRecord_def Let_def split: option.splits)

function paxLoop :: "pax \<Rightarrow> bytes \<Rightarrow> archive_error + pax" where
  "paxLoop pax data =
     (if data = [] then Inr pax
      else case paxRecord pax data of
        Inl e \<Rightarrow> Inl e
      | Inr (pax', n) \<Rightarrow> paxLoop pax' (drop n data))"
  by pat_completeness auto
termination
  by (relation "measure (\<lambda>(_, data). length data)") (auto dest: paxRecord_advances)

declare paxLoop.simps [simp del]

definition pax_field :: "pax option \<Rightarrow> string \<Rightarrow> jstring" where
  "pax_field pax k = (case pax of None \<Rightarrow> [] | Some fs \<Rightarrow> (case map_of fs (js k) of None \<Rightarrow> [] | Some v \<Rightarrow> v))"

text \<open>\<^verbatim>\<open>/^[a-f0-9]{40}$/\<close>\<close>

definition sha1_text :: "jstring \<Rightarrow> bool" where
  "sha1_text s \<longleftrightarrow> length s = 40 \<and> list_all is_lower_hex s"

subsection \<open>One block\<close>

text \<open>The entry of a header that is not a PAX header.\<close>

definition tarEntry ::
  "(bytes \<Rightarrow> jstring) \<Rightarrow> tar_state \<Rightarrow> bytes \<Rightarrow> nat \<Rightarrow> jstring \<Rightarrow> nat \<Rightarrow> bytes \<Rightarrow> archive_error + tar_state" where
  "tarEntry sha1 st h type name0 sz data =
     (let path = pax_field (t_pax st) ''path'' in
      bindR (archiveName (if path \<noteq> [] then path else name0)) (\<lambda>name.
      bindR (let l = pax_field (t_pax st) ''linkpath'' in
             if l \<noteq> [] then Inr l else field_text (slice 157 257 h)) (\<lambda>link.
      let sum = pax_field (t_pax st) ''APK-TOOLS.checksum.SHA1'' in
      bindR (requireThat (sum \<noteq> [] \<longrightarrow> sha1_text sum \<and> (type = 48 \<longrightarrow> sha1 data = sum)) ''TAR_FILE_SHA1'') (\<lambda>_.
      bindR (requireThat (type \<in> {48, 49, 50, 53} \<and> name \<notin> e_name ` set (t_out st))
               ''TAR_TYPE_OR_DUPLICATE'') (\<lambda>_.
      bindR (octal (slice 100 108 h)) (\<lambda>mode.
      bindR (octal (slice 108 116 h)) (\<lambda>uid.
      bindR (octal (slice 116 124 h)) (\<lambda>gid.
      bindR (requireThat (mode \<le> 4095 \<and> mode AND 3072 = 0 \<and> (type = 48 \<or> sz = 0)) ''TAR_MODE_OR_DATA'') (\<lambda>_.
      bindR (requireThat (type \<in> {49, 50} \<longrightarrow> link \<noteq> [] \<and> \<not> list_ex forbidden_char link) ''TAR_LINK'') (\<lambda>_.
        Inr (st\<lparr>t_pax := None,
                t_out := t_out st @ [\<lparr>e_name = name, e_type = type, e_link = link, e_mode = mode,
                                      e_uid = uid, e_gid = gid, e_data = data\<rparr>]\<rparr>)))))))))))"

text \<open>One turn of the loop on the rest \<open>b\<close> of the input; the second result is the length of the
  data blocks after the header.\<close>

definition tarBlock ::
  "(bytes \<Rightarrow> jstring) \<Rightarrow> tar_profile \<Rightarrow> tar_state \<Rightarrow> bytes \<Rightarrow> archive_error + tar_state \<times> nat" where
  "tarBlock sha1 profile st b =
     (let h = take 512 b in
      if list_all (\<lambda>v. v = 0) h
      then Inr (st\<lparr>t_ended := True, t_zeroBlocks := t_zeroBlocks st + 1\<rparr>, 0)
      else
      bindR (requireThat (\<not> t_ended st \<and> t_count st + 1 \<le> 50000) ''TAR_TRAILING_OR_COUNT'') (\<lambda>_.
      let st1 = st\<lparr>t_count := t_count st + 1\<rparr> in
      bindR (requireThat (known_magic profile (slice 257 265 h)) ''TAR_MAGIC'') (\<lambda>_.
      bindR (octal (slice 124 136 h)) (\<lambda>sz.
      bindR (octal (slice 148 156 h)) (\<lambda>expected.
      bindR (requireThat (checksum h = expected \<and> sz \<le> 150000000 \<and> 512 + blocks sz \<le> length b)
               ''TAR_HEADER_BOUND'') (\<lambda>_.
      bindR (field_text (slice 0 100 h)) (\<lambda>name0.
      bindR (field_text (slice 345 500 h)) (\<lambda>prefix.
      let name1 = (if prefix \<noteq> [] then prefix @ js ''/'' @ name0 else name0);
          type = (if h ! 156 = 0 then 48 else h ! 156);
          data = slice 512 (512 + sz) b in
      bindR (requireThat (list_all (\<lambda>v. v = 0) (slice (512 + sz) (512 + blocks sz) b))
               ''TAR_NONZERO_PADDING'') (\<lambda>_.
      if type = 120 then
        bindR (requireThat (t_pax st1 = None \<and> length data \<le> 32768) ''TAR_PAX_BOUND'') (\<lambda>_.
        bindR (paxLoop [] data) (\<lambda>pax. Inr (st1\<lparr>t_pax := Some pax\<rparr>, blocks sz)))
      else
        bindR (tarEntry sha1 st1 h type name1 sz data) (\<lambda>st2. Inr (st2, blocks sz)))))))))))"

function tarLoop ::
  "(bytes \<Rightarrow> jstring) \<Rightarrow> tar_profile \<Rightarrow> tar_state \<Rightarrow> bytes \<Rightarrow> archive_error + tar_state" where
  "tarLoop sha1 profile st b =
     (if b = [] then Inr st
      else case tarBlock sha1 profile st b of
        Inl e \<Rightarrow> Inl e
      | Inr (st', n) \<Rightarrow> tarLoop sha1 profile st' (drop (512 + n) b))"
  by pat_completeness auto
termination
  by (relation "measure (\<lambda>(_, _, _, b). length b)") auto

declare tarLoop.simps [simp del]

definition tarEntries :: "(bytes \<Rightarrow> jstring) \<Rightarrow> tar_profile \<Rightarrow> bytes \<Rightarrow> archive_error + tar_entry list" where
  "tarEntries sha1 profile b =
     bindR (requireThat (length b \<le> 200000000 \<and> length b mod 512 = 0) ''TAR_BOUND'') (\<lambda>_.
     bindR (tarLoop sha1 profile tar_start b) (\<lambda>st.
     bindR (requireThat (t_pax st = None) ''TAR_ORPHAN_PAX'') (\<lambda>_.
     bindR (requireThat (profile \<noteq> ApkV2Control \<longrightarrow> t_zeroBlocks st \<ge> 2) ''TAR_TERMINATORS'') (\<lambda>_.
       Inr (t_out st)))))"

section \<open>Gzip members\<close>

text \<open>The two decompressors: raw inflate returns the output and the number of input bytes it
  consumed; both take the largest output allowed and throw beyond it.\<close>

record zlib =
  z_inflateRaw :: "bytes \<Rightarrow> nat \<Rightarrow> (bytes \<times> nat) option"
  z_gunzip :: "bytes \<Rightarrow> nat \<Rightarrow> bytes option"

record gzip_member =
  g_compressed :: bytes
  g_data :: bytes

definition zlibR :: "'a option \<Rightarrow> archive_error + 'a" where
  "zlibR x = (case x of None \<Rightarrow> Inl Zlib | Some y \<Rightarrow> Inr y)"

text \<open>\<^verbatim>\<open>while (b[o++] !== 0) check(++n <= 4096 && o < b.length)\<close>, the length of the skipped text.\<close>

fun skipName :: "nat \<Rightarrow> bytes \<Rightarrow> archive_error + nat" where
  "skipName n [] = Inl (Check ''GZIP_NAME'')"
| "skipName n (x # xs) =
     (if x = 0 then Inr 1
      else bindR (requireThat (n + 1 \<le> 4096 \<and> xs \<noteq> []) ''GZIP_NAME'') (\<lambda>_.
           bindR (skipName (n + 1) xs) (\<lambda>k. Inr (k + 1))))"

definition readUInt16LE :: "bytes \<Rightarrow> nat \<Rightarrow> nat" where
  "readUInt16LE b i = b ! i + 256 * b ! (i + 1)"

text \<open>The length of the member header at the start of \<open>b\<close>.\<close>

definition gzipHeader :: "bytes \<Rightarrow> archive_error + nat" where
  "gzipHeader b =
     bindR (requireThat (10 \<le> length b \<and> b ! 0 = 31 \<and> b ! 1 = 139 \<and> b ! 2 = 8) ''GZIP_HEADER'') (\<lambda>_.
     let flags = b ! 3 in
     bindR (requireThat (flags AND 224 = 0) ''GZIP_FLAGS'') (\<lambda>_.
     bindR (if flags AND 4 \<noteq> 0
            then bindR (requireThat (12 \<le> length b) ''GZIP_EXTRA'') (\<lambda>_.
                 bindR (requireThat (12 + readUInt16LE b 10 \<le> length b) ''GZIP_EXTRA_BOUND'') (\<lambda>_.
                   Inr (12 + readUInt16LE b 10)))
            else Inr 10) (\<lambda>o1.
     bindR (if flags AND 8 \<noteq> 0 then bindR (skipName 0 (drop o1 b)) (\<lambda>k. Inr (o1 + k)) else Inr o1) (\<lambda>o2.
     bindR (if flags AND 16 \<noteq> 0 then bindR (skipName 0 (drop o2 b)) (\<lambda>k. Inr (o2 + k)) else Inr o2) (\<lambda>o3.
       Inr (if flags AND 2 \<noteq> 0 then o3 + 2 else o3))))))"

definition gzipMember :: "zlib \<Rightarrow> nat \<Rightarrow> bytes \<Rightarrow> archive_error + gzip_member" where
  "gzipMember z inflated b =
     bindR (gzipHeader b) (\<lambda>off.
     bindR (zlibR (z_inflateRaw z (drop off b) (200000000 - inflated))) (\<lambda>(buffer, written).
     let stop = off + written + 8 in
     bindR (requireThat (stop \<le> length b) ''GZIP_FOOTER'') (\<lambda>_.
     let compressed = take stop b in
     bindR (zlibR (z_gunzip z compressed (200000000 - inflated))) (\<lambda>data.
     bindR (requireThat (data = buffer) ''GZIP_DISAGREEMENT'') (\<lambda>_.
     bindR (requireThat (inflated + length data \<le> 200000000) ''GZIP_AGGREGATE_BOUND'') (\<lambda>_.
       Inr \<lparr>g_compressed = compressed, g_data = data\<rparr>))))))"

lemma gzipMember_advances: "gzipMember z k b = Inr m \<Longrightarrow> 0 < length (g_compressed m)"
  by (auto simp: gzipMember_def gzipHeader_def Let_def split: prod.splits)

function gzipLoop :: "zlib \<Rightarrow> gzip_member list \<Rightarrow> nat \<Rightarrow> bytes \<Rightarrow> archive_error + gzip_member list" where
  "gzipLoop z out inflated b =
     (if b = [] then Inr out
      else if \<not> length out < 4 then Inl (Check ''GZIP_HEADER'')
      else case gzipMember z inflated b of
        Inl e \<Rightarrow> Inl e
      | Inr m \<Rightarrow> gzipLoop z (out @ [m]) (inflated + length (g_data m)) (drop (length (g_compressed m)) b))"
  by pat_completeness auto
termination
  by (relation "measure (\<lambda>(_, _, _, b). length b)") (auto dest: gzipMember_advances)

declare gzipLoop.simps [simp del]

definition gzipMembers :: "zlib \<Rightarrow> bytes \<Rightarrow> archive_error + gzip_member list" where
  "gzipMembers z b =
     bindR (requireThat (b \<noteq> [] \<and> length b \<le> 100000000) ''GZIP_BOUND'') (\<lambda>_. gzipLoop z [] 0 b)"

section \<open>The deterministic writer\<close>

text \<open>An item of the writer; \<open>None\<close> and the empty string are absent properties.\<close>

record tar_item =
  i_name :: jstring
  i_type :: "nat option"
  i_link :: jstring
  i_mode :: "nat option"
  i_uid :: "nat option"
  i_gid :: "nat option"
  i_data :: bytes

text \<open>\<^verbatim>\<open>h.write(s, at, n)\<close> where \<open>s\<close> fits.\<close>

definition put_bytes :: "nat \<Rightarrow> bytes \<Rightarrow> bytes \<Rightarrow> bytes" where
  "put_bytes off bs h = take off h @ bs @ drop (off + length bs) h"

definition pad_start :: "nat \<Rightarrow> jstring \<Rightarrow> jstring" where
  "pad_start n s = replicate (n - length s) 48 @ s"

definition octal_text :: "nat \<Rightarrow> jstring" where
  "octal_text n = base_digits 8 n"

definition oct :: "nat \<Rightarrow> nat \<Rightarrow> nat \<Rightarrow> bytes \<Rightarrow> archive_error + bytes" where
  "oct n off l h =
     (let s = pad_start (l - 1) (octal_text n) @ [0] in
      bindR (requireThat (length s = l) ''TAR_WRITE_OCTAL'') (\<lambda>_. Inr (put_bytes off s h)))"

text \<open>\<^verbatim>\<open>[name.slice(0, sep), name.slice(sep + 1)]\<close> at the last slash; without one \<open>sep\<close> is -1.\<close>

definition split_last_slash :: "jstring \<Rightarrow> jstring \<times> jstring" where
  "split_last_slash s =
     (let tail = rev (takeWhile (\<lambda>c. c \<noteq> 47) (rev s)) in
      if 47 \<in> set s then (take (length s - length tail - 1) s, tail) else (butlast s, s))"

definition tarHeader :: "nat \<Rightarrow> tar_item \<Rightarrow> archive_error + bytes" where
  "tarHeader epoch e =
     bindR (archiveName (i_name e)) (\<lambda>full.
     let (prefix, name) = (if length (utf8_encode full) > 100 then split_last_slash full else ([], full)) in
     bindR (requireThat (length (utf8_encode full) > 100 \<longrightarrow>
              length (utf8_encode prefix) \<le> 155 \<and> length (utf8_encode name) \<le> 100) ''TAR_LONG_PATH'') (\<lambda>_.
     bindR (requireThat (length (utf8_encode (i_link e)) \<le> 100) ''TAR_LONG_LINK'') (\<lambda>_.
     let h0 = put_bytes 0 (utf8_encode name) (replicate 512 0) in
     bindR (oct (case i_mode e of None \<Rightarrow> 420 | Some m \<Rightarrow> m) 100 8 h0) (\<lambda>h1.
     bindR (oct (case i_uid e of None \<Rightarrow> 0 | Some m \<Rightarrow> m) 108 8 h1) (\<lambda>h2.
     bindR (oct (case i_gid e of None \<Rightarrow> 0 | Some m \<Rightarrow> m) 116 8 h2) (\<lambda>h3.
     bindR (oct (length (i_data e)) 124 12 h3) (\<lambda>h4.
     bindR (oct epoch 136 12 h4) (\<lambda>h5.
     let h6 = put_bytes 148 (replicate 8 32) h5;
         h7 = put_bytes 156 [(case i_type e of None \<Rightarrow> 48 | Some c \<Rightarrow> c) mod 256] h6;
         h8 = put_bytes 157 (utf8_encode (i_link e)) h7;
         h9 = put_bytes 257 (js ''ustar'' @ [0]) h8;
         h10 = put_bytes 263 (js ''00'') h9;
         h11 = put_bytes 345 (utf8_encode prefix) h10;
         c = sum_list h11
     in Inr (put_bytes 148 (pad_start 6 (octal_text c) @ [0, 32]) h11)))))))))"

definition padding :: "bytes \<Rightarrow> bytes" where
  "padding data = replicate ((512 - length data mod 512) mod 512) 0"

text \<open>One item; the state is the running total and the parts so far, joined.\<close>

definition tarItem :: "nat \<Rightarrow> nat \<times> bytes \<Rightarrow> tar_item \<Rightarrow> archive_error + nat \<times> bytes" where
  "tarItem epoch st e =
     (case st of (written, parts) \<Rightarrow>
     bindR (tarHeader epoch e) (\<lambda>h.
     let written' = written + 512 + length (i_data e) + length (padding (i_data e)) in
     bindR (requireThat (written' \<le> 200000000) ''TAR_WRITE_BOUND'') (\<lambda>_.
       Inr (written', parts @ h @ i_data e @ padding (i_data e)))))"

definition deterministicTar :: "tar_item list \<Rightarrow> nat \<Rightarrow> archive_error + bytes" where
  "deterministicTar items epoch =
     bindR (requireThat (is_safe epoch) ''TAR_EPOCH'') (\<lambda>_.
     bindR (foldR (tarItem epoch) (1024, []) items) (\<lambda>(_, parts). Inr (parts @ replicate 1024 0)))"

section \<open>The virtual tree\<close>

text \<open>\<^verbatim>\<open>new Map(entries.map((e) => [e.name, e]))\<close>: the last entry of a name counts.\<close>

definition tree_map :: "tar_entry list \<Rightarrow> jstring \<Rightarrow> tar_entry option" where
  "tree_map es n = map_of (rev (map (\<lambda>e. (e_name e, e)) es)) n"

definition path :: "jstring list \<Rightarrow> jstring" where
  "path ps = join [47] ps"

definition not_a_file :: "(jstring \<Rightarrow> tar_entry option) \<Rightarrow> jstring list \<Rightarrow> bool" where
  "not_a_file m ps \<longleftrightarrow> (case m (path ps) of None \<Rightarrow> True | Some e \<Rightarrow> e_type e = 53)"

definition has_type :: "(jstring \<Rightarrow> tar_entry option) \<Rightarrow> jstring \<Rightarrow> nat \<Rightarrow> bool" where
  "has_type m n t \<longleftrightarrow> (case m n of None \<Rightarrow> False | Some e \<Rightarrow> e_type e = t)"

text \<open>The loop of \<^verbatim>\<open>follow\<close>: the pending parts, the resolved path and the number of symbolic links
  that may still be followed.\<close>

function follow ::
  "(jstring \<Rightarrow> tar_entry option) \<Rightarrow> nat \<Rightarrow> jstring list \<Rightarrow> jstring list \<Rightarrow> archive_error + jstring" where
  "follow m hops [] resolved =
     bindR (requireThat (resolved \<noteq> []) ''ROOT_LINK'') (\<lambda>_. Inr (path resolved))"
| "follow m hops (part # pending) resolved =
     (if \<not> not_a_file m resolved then Inl (Check ''NON_DIRECTORY_ANCESTOR'')
      else if part = [] \<or> part = js ''.'' then follow m hops pending resolved
      else if part = js ''..'' then
        (if resolved = [] then Inl (Check ''LINK_ESCAPE'') else follow m hops pending (butlast resolved))
      else case m (path (resolved @ [part])) of
        None \<Rightarrow> follow m hops pending (resolved @ [part])
      | Some e \<Rightarrow>
          if e_type e = 49 then
            (case archiveName (e_link e) of
               Inl x \<Rightarrow> Inl x
             | Inr n \<Rightarrow> if n = e_link e \<and> has_type m (e_link e) 48
                        then follow m hops pending (split_on 47 (e_link e))
                        else Inl (Check ''HARDLINK_TARGET''))
          else if e_type e = 50 then
            (if hops = 0 then Inl (Check ''LINK_CYCLE'')
             else follow m (hops - 1) (split_on 47 (e_link e) @ pending)
                    (if starts_with (e_link e) (js ''/'') then [] else resolved))
          else follow m hops pending (resolved @ [part]))"
  by pat_completeness auto
termination
  by (relation "measures [\<lambda>(_, hops, _, _). hops, \<lambda>(_, _, pending, _). length pending]") auto

definition treeEntry :: "(jstring \<Rightarrow> tar_entry option) \<Rightarrow> tar_entry \<Rightarrow> archive_error + unit" where
  "treeEntry m e =
     bindR (archiveName (e_name e)) (\<lambda>_.
     let parents = butlast (split_on 47 (e_name e)) in
     bindR (requireThat (list_all (\<lambda>i. not_a_file m (take i parents)) [1..<length parents + 1])
              ''NON_DIRECTORY_ANCESTOR'') (\<lambda>_.
     if e_type e \<in> {49, 50} then
       bindR (follow m 40 (split_on 47 (e_name e)) []) (\<lambda>resolved.
         requireThat (e_type e = 49 \<longrightarrow> has_type m resolved 48) ''HARDLINK_TARGET'')
     else Inr ()))"

text \<open>The numbers of entries and of links.\<close>

definition validateVirtualTree :: "tar_entry list \<Rightarrow> archive_error + nat \<times> nat" where
  "validateVirtualTree es =
     (let m = tree_map es in
      bindR (requireThat (length (remdups (map e_name es)) = length es) ''TREE_DUPLICATE'') (\<lambda>_.
      bindR (foldR (\<lambda>_. treeEntry m) () es) (\<lambda>_.
        Inr (length es, length (filter (\<lambda>e. e_type e \<in> {49, 50}) es)))))"

end
