(* ===== verification/Archive_Props.thy ===== *)
theory Archive_Props
  imports Archive
begin

unbundle bit_operations_syntax

text \<open>
  Properties of the archive readers and of the deterministic writer.
\<close>

section \<open>Names\<close>

lemma not_forbidden_slash [simp]: "\<not> forbidden_char 47"
  by (simp add: forbidden_char_def)

lemma archiveName_Inr:
  "archiveName s = Inr n \<longleftrightarrow>
     s \<noteq> [] \<and> length (utf8_encode s) \<le> 4096 \<and> \<not> starts_with s (js ''/'') \<and> \<not> list_ex forbidden_char s
     \<and> n = strip_name s \<and> n \<noteq> [] \<and> list_all good_component (split_on 47 n)"
  by (auto simp: archiveName_def Let_def)

text \<open>A canonical name: relative, and no component is empty, a dot, two dots or a whiteout.\<close>

definition canonical_name :: "jstring \<Rightarrow> bool" where
  "canonical_name n \<longleftrightarrow> n \<noteq> [] \<and> list_all good_component (split_on 47 n) \<and> \<not> list_ex forbidden_char n"

lemma split_on_Cons_sep: "split_on c (c # s) = [] # split_on c s"
  by simp

lemma split_on_snoc_sep: "split_on c (s @ [c]) = split_on c s @ [[]]"
proof (induction s)
  case (Cons x s)
  obtain p ps where "split_on c s = p # ps" by (meson neq_Nil_conv split_on_not_Nil)
  with Cons show ?case by auto
qed simp

lemma canonical_start:
  assumes "list_all good_component (split_on 47 n)" "n \<noteq> []"
  shows "hd n \<noteq> 47" "last n \<noteq> 47" "\<not> starts_with n (js ''./'')"
proof -
  show "hd n \<noteq> 47" using assms by (cases n) (auto simp: good_component_def)
  show "last n \<noteq> 47"
    using assms by (cases n rule: rev_cases) (auto simp: split_on_snoc_sep good_component_def)
  show "\<not> starts_with n (js ''./'')"
  proof
    assume "starts_with n (js ''./'')"
    then obtain r where "n = 46 # 47 # r"
      by (auto simp: starts_with_def js_def take_Cons' split: list.splits if_splits) (metis append_Cons append_Nil append_take_drop_id)
    then show False using assms(1) by (simp add: good_component_def js_def)
  qed
qed

lemma strip_canonical:
  assumes "list_all good_component (split_on 47 n)" "n \<noteq> []"
  shows "strip_name n = n"
  using canonical_start[OF assms] by (simp add: strip_name_def)

lemma archiveName_canonical: "archiveName s = Inr n \<Longrightarrow> canonical_name n"
  by (auto simp: archiveName_Inr canonical_name_def list_ex_iff strip_name_def Let_def
      split: if_splits dest: in_set_dropD in_set_butlastD)

lemma utf8_point_pos: "0 < length (utf8_point p)"
  by (simp add: utf8_point_def)

section \<open>Fields of a header\<close>

lemma length_put [simp]: "off + length bs \<le> length h \<Longrightarrow> length (put_bytes off bs h) = length h"
  by (simp add: put_bytes_def)

lemma slice_put_before: "j \<le> off \<Longrightarrow> off \<le> length h \<Longrightarrow> slice i j (put_bytes off bs h) = slice i j h"
  unfolding slice_def drop_take[symmetric] put_bytes_def by simp

lemma slice_put_after:
  "off + length bs \<le> i \<Longrightarrow> off + length bs \<le> length h \<Longrightarrow> slice i j (put_bytes off bs h) = slice i j h"
  by (simp add: slice_def put_bytes_def)

lemma slice_put_at:
  "off + length bs \<le> j \<Longrightarrow> off + length bs \<le> length h \<Longrightarrow>
     slice off j (put_bytes off bs h) = bs @ slice (off + length bs) j h"
  by (simp add: slice_def put_bytes_def)

lemma put_frame:
  assumes "h' = put_bytes off bs h"
  shows "j \<le> off \<Longrightarrow> off \<le> length h \<Longrightarrow> slice i j h' = slice i j h"
    "off + length bs \<le> i \<Longrightarrow> off + length bs \<le> length h \<Longrightarrow> slice i j h' = slice i j h"
    "off + length bs \<le> j \<Longrightarrow> off + length bs \<le> length h \<Longrightarrow> slice off j h' = bs @ slice (off + length bs) j h"
  unfolding assms by (simp_all add: slice_put_before slice_put_after slice_put_at)

lemma slice_replicate: "slice i j (replicate n x) = replicate (min (j - i) (n - i)) x"
  by (simp add: slice_def)

lemma set_slice: "set (slice i j h) \<subseteq> set h"
  unfolding slice_def by (meson set_drop_subset set_take_subset order_trans)

lemma set_put: "set (put_bytes off bs h) \<subseteq> set bs \<union> set h"
  by (auto simp: put_bytes_def dest: in_set_takeD in_set_dropD)

lemma slice_empty [simp]: "j \<le> i \<Longrightarrow> slice i j b = []"
  by (simp add: slice_def)

lemma slice_split: "i \<le> k \<Longrightarrow> k \<le> j \<Longrightarrow> slice i j b = slice i k b @ slice k j b"
  unfolding slice_def using take_add[of "k - i" "j - k" "drop i b"] by simp

lemma small_put:
  "\<forall>x \<in> set bs. x < n \<Longrightarrow> \<forall>x \<in> set h. x < n \<Longrightarrow> \<forall>x \<in> set (put_bytes off bs h). x < (n :: nat)"
  using set_put[of off bs h] by blast

lemma slice_append: "j \<le> length h \<Longrightarrow> slice i j (h @ r) = slice i j h"
  by (simp add: slice_def)

lemma split_on_hd: "c \<notin> set s \<Longrightarrow> hd (split_on c (s @ r)) = s @ hd (split_on c r)"
proof (induction s)
  case (Cons x s)
  obtain p ps where "split_on c (s @ r) = p # ps" by (meson neq_Nil_conv split_on_not_Nil)
  with Cons show ?case by simp
qed simp

lemma field_text_padded:
  assumes "is_ascii s" "0 \<notin> set s" "r = [] \<or> (hd r = 0 \<and> is_ascii r)"
  shows "field_text (s @ r) = Inr s"
proof -
  have "is_ascii (s @ r)" using assms by (cases r) auto
  moreover have "hd (split_on 0 r) = []" using assms(3) by (cases r) auto
  ultimately show ?thesis
    using assms(2) by (simp add: field_text_def decodeR_def utf8_decode_ascii split_on_hd)
qed

lemma field_text_zeros: "is_ascii s \<Longrightarrow> 0 \<notin> set s \<Longrightarrow> field_text (s @ replicate k 0) = Inr s"
  using field_text_padded[of s "replicate k 0"] by (cases k) (auto simp: is_ascii_def list_all_iff)

section \<open>Octal fields\<close>

lemma octal_value_snoc: "octal_value (s @ [c]) = 8 * octal_value s + (c - 48)"
  by (simp add: octal_value_def)

lemma octal_text_value: "octal_value (octal_text n) = n \<and> list_all is_octal (octal_text n) \<and> octal_text n \<noteq> []"
proof (induction n rule: less_induct)
  case (less n)
  show ?case
  proof (cases "n < 8")
    case True
    then show ?thesis
      by (simp add: octal_text_def base_digits.simps[of 8 n] octal_value_def is_octal_def)
  next
    case False
    then have "octal_text n = octal_text (n div 8) @ [48 + n mod 8]"
      by (simp add: octal_text_def base_digits.simps[of 8 n])
    with less[of "n div 8"] False show ?thesis by (simp add: octal_value_snoc is_octal_def)
  qed
qed

lemma octal_value_bound: "list_all is_octal s \<Longrightarrow> octal_value s < 8 ^ length s"
proof (induction s rule: rev_induct)
  case (snoc c s)
  then have "octal_value s + 1 \<le> 8 ^ length s" "c - 48 < 8" by (auto simp: is_octal_def)
  then show ?case by (simp add: octal_value_snoc)
qed (simp add: octal_value_def)

lemma octal_value_zeros: "octal_value (replicate k 48 @ s) = octal_value s"
  by (induction k) (auto simp: octal_value_def)

lemma octal_padded:
  assumes "length (octal_text n) \<le> 12" "r = [0] \<or> r = [0, 32]"
  shows "octal (pad_start k (octal_text n) @ r) = Inr n"
proof -
  let ?s = "pad_start k (octal_text n)"
  note v = octal_text_value[of n]
  have d: "list_all is_octal ?s" "?s \<noteq> []" "octal_value ?s = n"
    using v by (auto simp: pad_start_def octal_value_zeros is_octal_def list_all_iff)
  have a: "is_ascii ?s" "0 \<notin> set ?s"
    using d(1) by (auto simp: is_ascii_def list_all_iff is_octal_def)
  have w: "\<forall>c \<in> set ?s. \<not> is_ws c" using d(1) by (auto simp: list_all_iff is_octal_def is_ws_def)
  have t: "trim ?s = ?s" using w d(2) by (simp add: trim_id_iff)
  have "n < 8 ^ length (octal_text n)" using octal_value_bound[of "octal_text n"] v by simp
  also have "\<dots> \<le> 8 ^ 12" using assms(1) by (intro power_increasing) auto
  finally have "is_safe n" by (simp add: is_safe_def)
  moreover have "field_text (?s @ r) = Inr ?s"
    using assms(2) a by (intro field_text_padded) auto
  ultimately show ?thesis using d t by (simp add: octal_def Let_def)
qed

section \<open>Blocks\<close>

lemma blocks_padding: "blocks (length data) = length data + length (padding data)"
proof -
  let ?n = "length data"
  have "(?n + 511) div 512 * 512 = ?n + (512 - ?n mod 512) mod 512"
  proof (cases "?n mod 512 = 0")
    case True
    then obtain k where "?n = 512 * k" by (auto elim: dvdE simp: mod_eq_0_iff_dvd)
    then show ?thesis by simp
  next
    case False
    define q r where "q = ?n div 512" and "r = ?n mod 512"
    have n: "?n = 512 * q + r" "0 < r" "r < 512" using False by (simp_all add: q_def r_def)
    have "(512 * q + r + 511) div 512 = q + 1" using n(2,3) by (intro div_nat_eqI) auto
    then show ?thesis using n by simp
  qed
  then show ?thesis by (simp add: blocks_def padding_def)
qed

lemma blocks_mod: "blocks n mod 512 = 0"
  by (simp add: blocks_def)

lemma checksum_sum:
  assumes "length h = 512" "length bs = 8" "slice 148 156 h = replicate 8 32"
  shows "checksum (put_bytes 148 bs h) = sum_list h"
proof -
  have "h ! i = 32" if "148 \<le> i" "i < 156" for i
  proof -
    have "slice 148 156 h ! (i - 148) = h ! i" using that assms(1) by (simp add: slice_def)
    then show ?thesis using assms(3) that by simp
  qed
  then have "(if 148 \<le> i \<and> i < 156 then 32 else put_bytes 148 bs h ! i) = h ! i" if "i < 512" for i
    using that assms by (auto simp: put_bytes_def nth_append)
  then have "map (\<lambda>i. if 148 \<le> i \<and> i < 156 then 32 else put_bytes 148 bs h ! i) [0..<512] = map (\<lambda>i. h ! i) [0..<512]"
    by (intro map_cong refl) auto
  then have "checksum (put_bytes 148 bs h) = sum_list (map (\<lambda>i. h ! i) [0..<512])"
    unfolding checksum_def by (rule arg_cong)
  then show ?thesis using map_nth[of h] assms(1) by simp
qed

lemma sum_list_bytes: "\<forall>x \<in> set h. x < 256 \<Longrightarrow> sum_list h \<le> 255 * length (h :: nat list)"
  by (induction h) auto

text \<open>A text of at most \<open>k\<close> octal digits is the text of a number below \<open>8 ^ k\<close>.\<close>

lemma octal_text_length: "n < 8 ^ k \<Longrightarrow> 0 < k \<Longrightarrow> length (octal_text n) \<le> k"
proof (induction k arbitrary: n)
  case (Suc k)
  show ?case
  proof (cases "n < 8")
    case True
    then show ?thesis by (simp add: octal_text_def base_digits.simps[of 8 n])
  next
    case False
    then have t: "octal_text n = octal_text (n div 8) @ [48 + n mod 8]"
      by (simp add: octal_text_def base_digits.simps[of 8 n])
    have "0 < k" using Suc.prems False by (cases k) auto
    moreover have "n div 8 < 8 ^ k" using Suc.prems(1) by (simp add: less_mult_imp_div_less mult.commute)
    ultimately show ?thesis using Suc.IH t by simp
  qed
qed simp

section \<open>Reading a written header\<close>

definition item_of :: "tar_entry \<Rightarrow> tar_item" where
  "item_of e = \<lparr>i_name = e_name e, i_type = Some (e_type e), i_link = e_link e, i_mode = Some (e_mode e),
                i_uid = Some (e_uid e), i_gid = Some (e_gid e), i_data = e_data e\<rparr>"

lemma i_data_item_of [simp]: "i_data (item_of e) = e_data e"
  by (simp add: item_of_def)

text \<open>An entry that a closed archive can hold: its name is canonical and, like its link, in ASCII.\<close>

definition archivable :: "tar_entry \<Rightarrow> bool" where
  "archivable e \<longleftrightarrow>
     archiveName (e_name e) = Inr (e_name e) \<and> is_ascii (e_name e) \<and> is_ascii (e_link e) \<and> 0 \<notin> set (e_link e)
     \<and> e_type e \<in> {48, 49, 50, 53} \<and> e_mode e \<le> 4095 \<and> e_mode e AND 3072 = 0
     \<and> (e_type e = 48 \<or> e_data e = []) \<and> length (e_data e) \<le> 150000000
     \<and> (e_type e \<in> {49, 50} \<longrightarrow> e_link e \<noteq> [] \<and> \<not> list_ex forbidden_char (e_link e))"

lemma oct_Inr:
  "oct n off l h = Inr h' \<Longrightarrow> 0 < l \<Longrightarrow>
     length (octal_text n) \<le> l - 1 \<and> length (pad_start (l - 1) (octal_text n)) = l - 1
     \<and> h' = put_bytes off (pad_start (l - 1) (octal_text n) @ [0]) h"
  by (auto simp: oct_def Let_def pad_start_def)

lemma split_last_slash_join:
  assumes "47 \<in> set s"
  shows "fst (split_last_slash s) @ 47 # snd (split_last_slash s) = s"
proof -
  obtain a b where s: "s = a @ 47 # b" "47 \<notin> set b" using split_list_last[OF assms] by blast
  then have "takeWhile (\<lambda>c. c \<noteq> 47) (rev b @ 47 # rev a) = rev b"
    by (subst takeWhile_append2) auto
  then show ?thesis using s by (simp add: split_last_slash_def Let_def)
qed

text \<open>The fields of a written header, and how it reads.\<close>

lemma written_fields:
  assumes "tarHeader epoch (item_of e) = Inr h" and a: "archivable e"
  obtains prefix name where
    "e_name e = (if prefix = [] then name else prefix @ 47 # name)" "is_ascii name" "is_ascii prefix"
    "0 \<notin> set name" "0 \<notin> set prefix" "length name \<le> 100" "length prefix \<le> 155" "length (e_link e) \<le> 100"
    "length h = 512"
    "slice 0 100 h = name @ replicate (100 - length name) 0"
    "slice 100 108 h = pad_start 7 (octal_text (e_mode e)) @ [0]" "length (octal_text (e_mode e)) \<le> 7"
    "slice 108 116 h = pad_start 7 (octal_text (e_uid e)) @ [0]" "length (octal_text (e_uid e)) \<le> 7"
    "slice 116 124 h = pad_start 7 (octal_text (e_gid e)) @ [0]" "length (octal_text (e_gid e)) \<le> 7"
    "slice 124 136 h = pad_start 11 (octal_text (length (e_data e))) @ [0]"
    "length (octal_text (length (e_data e))) \<le> 11"
    "slice 148 156 h = pad_start 6 (octal_text (checksum h)) @ [0, 32]" "length (octal_text (checksum h)) \<le> 6"
    "h ! 156 = e_type e" "slice 157 257 h = e_link e @ replicate (100 - length (e_link e)) 0"
    "slice 257 265 h = js ''ustar'' @ [0] @ js ''00''"
    "slice 345 500 h = prefix @ replicate (155 - length prefix) 0"
proof -
  define full where "full = e_name e"
  have "archiveName full = Inr full" "is_ascii full"
    using a by (simp_all add: archivable_def full_def)
  moreover have "0 \<notin> set full"
  proof -
    have "\<not> list_ex forbidden_char full" using \<open>archiveName full = Inr full\<close> unfolding archiveName_Inr by blast
    moreover have "forbidden_char 0" by (simp add: forbidden_char_def)
    ultimately show ?thesis unfolding list_ex_iff by blast
  qed
  ultimately have full: "archiveName full = Inr full" "is_ascii full" "0 \<notin> set full" by blast+
  define pn where "pn = (if length full > 100 then split_last_slash full else ([], full))"
  obtain prefix name where pn: "pn = (prefix, name)" by (cases pn)
  have link: "is_ascii (e_link e)" and ty: "e_type e mod 256 = e_type e" "e_type e < 256"
    using a by (auto simp: archivable_def)
  note u = utf8_encode_ascii[OF full(2)] utf8_encode_ascii[OF link]
  from assms(1) have 1: "length full > 100 \<longrightarrow> length (utf8_encode prefix) \<le> 155 \<and> length (utf8_encode name) \<le> 100"
    by (auto simp: tarHeader_def item_of_def full_def[symmetric] full(1) u pn_def[symmetric] pn)
  have join: "full = (if prefix = [] then name else prefix @ 47 # name)"
  proof (cases "length full > 100 \<and> 47 \<in> set full")
    case True
    then have "prefix @ 47 # name = full"
      using split_last_slash_join[of full] pn by (simp add: pn_def)
    moreover have "hd full \<noteq> 47"
      using full(1) canonical_start(1)[of full] by (auto simp: archiveName_Inr)
    ultimately show ?thesis by (cases prefix) auto
  next
    case False
    have "name = full" using False pn by (auto simp: pn_def split_last_slash_def Let_def split: if_splits)
    moreover have "\<not> length full > 100" using 1 calculation u by auto
    ultimately show ?thesis using pn by (simp add: pn_def)
  qed
  have parts: "is_ascii name" "is_ascii prefix" "0 \<notin> set name" "0 \<notin> set prefix"
    using full(2,3) join by (auto split: if_splits)
  have len: "length name \<le> 100" "length prefix \<le> 155"
    using 1 pn parts utf8_encode_ascii by (auto simp: pn_def split: if_splits)
  define h0 where "h0 = put_bytes 0 name (replicate 512 0)"
  from assms(1) obtain h1 h2 h3 h4 h5 where
    o: "oct (e_mode e) 100 8 h0 = Inr h1" "oct (e_uid e) 108 8 h1 = Inr h2"
      "oct (e_gid e) 116 8 h2 = Inr h3" "oct (length (e_data e)) 124 12 h3 = Inr h4" "oct epoch 136 12 h4 = Inr h5"
    and ll: "length (e_link e) \<le> 100"
    and h: "h = (let h11 = put_bytes 345 prefix (put_bytes 263 (js ''00'') (put_bytes 257 (js ''ustar'' @ [0])
         (put_bytes 157 (e_link e) (put_bytes 156 [e_type e] (put_bytes 148 (replicate 8 32) h5)))))
       in put_bytes 148 (pad_start 6 (octal_text (sum_list h11)) @ [0, 32]) h11)"
    by (auto simp: tarHeader_def item_of_def full_def[symmetric] full(1) u pn_def[symmetric] pn ty Let_def
        h0_def utf8_encode_ascii[OF parts(1)] utf8_encode_ascii[OF parts(2)])
  define d where "d k n = pad_start k (octal_text n)" for k n
  note o' = o[THEN oct_Inr, simplified, folded d_def]
  define h6 where "h6 = put_bytes 148 (replicate 8 32) h5"
  define h7 where "h7 = put_bytes 156 [e_type e] h6"
  define h8 where "h8 = put_bytes 157 (e_link e) h7"
  define h9 where "h9 = put_bytes 257 (js ''ustar'' @ [0]) h8"
  define h10 where "h10 = put_bytes 263 (js ''00'') h9"
  define h11 where "h11 = put_bytes 345 prefix h10"
  define c where "c = sum_list h11"
  have h12: "h = put_bytes 148 (d 6 c @ [0, 32]) h11"
    using h by (simp add: h6_def h7_def h8_def h9_def h10_def h11_def Let_def d_def c_def)
  note e = h0_def conjunct2[OF conjunct2[OF o'(1)]] conjunct2[OF conjunct2[OF o'(2)]] conjunct2[OF conjunct2[OF o'(3)]]
    conjunct2[OF conjunct2[OF o'(4)]] conjunct2[OF conjunct2[OF o'(5)]] h6_def h7_def h8_def h9_def h10_def h11_def
  have dl: "length (d 11 epoch) = 11" "length (d 11 (length (e_data e))) = 11" "length (d 7 (e_gid e)) = 7"
    "length (d 7 (e_uid e)) = 7" "length (d 7 (e_mode e)) = 7"
    using o' by simp_all
  have l0: "length h0 = 512" using len(1) by (simp add: h0_def)
  have l1: "length h1 = 512" using l0 dl by (simp add: e(2))
  have l2: "length h2 = 512" using l1 dl by (simp add: e(3))
  have l3: "length h3 = 512" using l2 dl by (simp add: e(4))
  have l4: "length h4 = 512" using l3 dl by (simp add: e(5))
  have l5: "length h5 = 512" using l4 dl by (simp add: e(6))
  have l6: "length h6 = 512" using l5 by (simp add: h6_def)
  have l7: "length h7 = 512" using l6 by (simp add: h7_def)
  have l8: "length h8 = 512" using l7 ll by (simp add: h8_def)
  have l9: "length h9 = 512" using l8 by (simp add: h9_def)
  have l10: "length h10 = 512" using l9 by (simp add: h10_def)
  have l11: "length h11 = 512" using l10 len(2) by (simp add: h11_def)
  have small: "\<forall>x \<in> set h11. x < 256"
  proof -
    have dd: "\<forall>x \<in> set (d k n). x < 256" for k n
      using octal_text_value[of n] by (auto simp: d_def pad_start_def list_all_iff is_octal_def)
    have as: "\<forall>x \<in> set s. x < 256" if "is_ascii s" for s
      using that by (auto simp: is_ascii_def list_all_iff)
    show ?thesis
      unfolding e by (intro small_put) (simp_all add: js_def ty(2) dd as[OF parts(1)] as[OF parts(2)] as[OF link])
  qed
  have "c < 8 ^ 6" using sum_list_bytes[OF small] l11 by (simp add: c_def)
  then have cl: "length (octal_text c) \<le> 6" by (rule octal_text_length) simp
  then have cd: "length (d 6 c) = 6" by (simp add: d_def pad_start_def)
  note f1 = put_frame[OF e(2), unfolded l0] and f2 = put_frame[OF e(3), unfolded l1]
    and f3 = put_frame[OF e(4), unfolded l2] and f4 = put_frame[OF e(5), unfolded l3]
    and f5 = put_frame[OF e(6), unfolded l4] and f6 = put_frame[OF h6_def, unfolded l5]
    and f7 = put_frame[OF h7_def, unfolded l6] and f8 = put_frame[OF h8_def, unfolded l7]
    and f9 = put_frame[OF h9_def, unfolded l8] and f10 = put_frame[OF h10_def, unfolded l9]
    and f11 = put_frame[OF h11_def, unfolded l10] and f12 = put_frame[OF h12, unfolded l11]
  note lens = dl cd len ll
  have s148: "slice 148 156 h11 = replicate 8 32"
    using lens by (simp add: f11 f10 f9 f8 f7 f6)
  have ck: "checksum h = c"
    unfolding h12 c_def by (rule checksum_sum) (use l11 cd s148 in \<open>auto simp: c_def\<close>)
  note fr = f12 f11 f10 f9 f8 f7 f6 f5 f4 f3 f2 f1
  have s1: "slice 0 100 h = name @ replicate (100 - length name) 0"
    using lens by (simp add: fr) (simp add: h0_def slice_put_at slice_replicate)
  have s2: "slice 100 108 h = d 7 (e_mode e) @ [0]" using lens by (simp add: fr)
  have s3: "slice 108 116 h = d 7 (e_uid e) @ [0]" using lens by (simp add: fr)
  have s4: "slice 116 124 h = d 7 (e_gid e) @ [0]" using lens by (simp add: fr)
  have s5: "slice 124 136 h = d 11 (length (e_data e)) @ [0]" using lens by (simp add: fr)
  have s6: "slice 148 156 h = d 6 (checksum h) @ [0, 32]" unfolding ck using lens by (simp add: fr)
  have s7: "slice 156 157 h = [e_type e]" using lens by (simp add: fr)
  have z: "slice i j h0 = replicate (j - i) 0" if "100 \<le> i" "j \<le> 512" for i j
    using that len(1) by (simp add: h0_def slice_put_after slice_replicate min_def)
  have s8: "slice 157 257 h = e_link e @ replicate (100 - length (e_link e)) 0"
    using lens by (simp add: fr z)
  have "slice 257 263 h = js ''ustar'' @ [0]" using lens by (simp add: fr)
  moreover have "slice 263 265 h = js ''00''" using lens by (simp add: fr)
  ultimately have s9: "slice 257 265 h = js ''ustar'' @ [0] @ js ''00''"
    using slice_split[of 257 263 265 h] by simp
  have s10: "slice 345 500 h = prefix @ replicate (155 - length prefix) 0"
    using lens by (simp add: fr z)
  have lh: "length h = 512" using l11 cd by (simp add: h12)
  then have "h ! 156 = slice 156 157 h ! 0" by (simp add: slice_def)
  then have ty': "h ! 156 = e_type e" using s7 by simp
  show thesis
  proof (rule that[where prefix = prefix and name = name])
    show "e_name e = (if prefix = [] then name else prefix @ 47 # name)" using join by (simp add: full_def)
  qed (use parts len ll lh ty' s1 s2 s3 s4 s5 s6 s8 s9 s10 o' cl ck in \<open>simp_all add: d_def\<close>)
qed

lemma octal_field:
  "length (octal_text n) \<le> 12 \<Longrightarrow> octal (pad_start k (octal_text n) @ [0]) = Inr n"
  "length (octal_text n) \<le> 12 \<Longrightarrow> octal (pad_start k (octal_text n) @ [0, 32]) = Inr n"
  by (rule octal_padded; simp)+

lemma tarEntry_written:
  assumes "slice 100 108 h = pad_start 7 (octal_text (e_mode e)) @ [0]" "length (octal_text (e_mode e)) \<le> 7"
    "slice 108 116 h = pad_start 7 (octal_text (e_uid e)) @ [0]" "length (octal_text (e_uid e)) \<le> 7"
    "slice 116 124 h = pad_start 7 (octal_text (e_gid e)) @ [0]" "length (octal_text (e_gid e)) \<le> 7"
    "slice 157 257 h = e_link e @ replicate k 0"
    and a: "archivable e" and st: "t_pax st = None" "e_name e \<notin> e_name ` set (t_out st)"
  shows "tarEntry sha1 st h (e_type e) (e_name e) (length (e_data e)) (e_data e)
       = Inr (st\<lparr>t_out := t_out st @ [e]\<rparr>)"
proof -
  have link: "field_text (slice 157 257 h) = Inr (e_link e)"
    using a assms(7) field_text_zeros[of "e_link e" k] by (simp add: archivable_def)
  have o: "octal (slice 100 108 h) = Inr (e_mode e)" "octal (slice 108 116 h) = Inr (e_uid e)"
    "octal (slice 116 124 h) = Inr (e_gid e)"
    using assms(1-6) by (simp_all add: octal_field)
  have a': "archiveName (e_name e) = Inr (e_name e)" "e_type e \<in> {48, 49, 50, 53}" "e_mode e \<le> 4095"
    "e_mode e AND 3072 = 0" "e_type e = 48 \<or> length (e_data e) = 0"
    "e_type e \<in> {49, 50} \<longrightarrow> e_link e \<noteq> [] \<and> \<not> list_ex forbidden_char (e_link e)"
    using a by (auto simp: archivable_def)
  show ?thesis
    using a'(2-) st by (simp add: tarEntry_def pax_field_def Let_def link o a'(1) requireThat_def guardR_def)
qed

lemma tarBlock_written:
  assumes h: "tarHeader epoch (item_of e) = Inr h" and a: "archivable e"
    and st: "t_pax st = None" "\<not> t_ended st" "t_count st < 50000" "e_name e \<notin> e_name ` set (t_out st)"
  shows "tarBlock sha1 profile st (h @ e_data e @ padding (e_data e) @ rest)
       = Inr (st\<lparr>t_count := t_count st + 1, t_out := t_out st @ [e]\<rparr>, length (e_data e) + length (padding (e_data e)))"
proof -
  let ?b = "h @ e_data e @ padding (e_data e) @ rest"
  obtain prefix name where
    f: "e_name e = (if prefix = [] then name else prefix @ 47 # name)" "is_ascii name" "is_ascii prefix"
    "0 \<notin> set name" "0 \<notin> set prefix" "length name \<le> 100" "length prefix \<le> 155" "length (e_link e) \<le> 100"
    "length h = 512"
    "slice 0 100 h = name @ replicate (100 - length name) 0"
    "slice 100 108 h = pad_start 7 (octal_text (e_mode e)) @ [0]" "length (octal_text (e_mode e)) \<le> 7"
    "slice 108 116 h = pad_start 7 (octal_text (e_uid e)) @ [0]" "length (octal_text (e_uid e)) \<le> 7"
    "slice 116 124 h = pad_start 7 (octal_text (e_gid e)) @ [0]" "length (octal_text (e_gid e)) \<le> 7"
    "slice 124 136 h = pad_start 11 (octal_text (length (e_data e))) @ [0]"
    "length (octal_text (length (e_data e))) \<le> 11"
    "slice 148 156 h = pad_start 6 (octal_text (checksum h)) @ [0, 32]" "length (octal_text (checksum h)) \<le> 6"
    "h ! 156 = e_type e" "slice 157 257 h = e_link e @ replicate (100 - length (e_link e)) 0"
    "slice 257 265 h = js ''ustar'' @ [0] @ js ''00''"
    "slice 345 500 h = prefix @ replicate (155 - length prefix) 0"
    by (rule written_fields[OF h a])
  have nz: "\<not> list_all (\<lambda>v. v = 0) h"
    using set_slice[of 257 265 h] f(23) by (auto simp: list_all_iff js_def intro!: bexI[of _ 117])
  have fields: "field_text (slice 0 100 h) = Inr name" "field_text (slice 345 500 h) = Inr prefix"
    "octal (slice 124 136 h) = Inr (length (e_data e))" "octal (slice 148 156 h) = Inr (checksum h)"
    unfolding f(10,17,19,24) using f by (simp_all add: field_text_zeros octal_field)
  have data: "slice 512 (512 + length (e_data e)) ?b = e_data e"
    "slice (512 + length (e_data e)) (512 + (length (e_data e) + length (padding (e_data e)))) ?b
       = padding (e_data e)"
    using f(9) by (simp_all add: slice_def)
  have z: "list_all (\<lambda>v. v = 0) (padding (e_data e))" by (simp add: padding_def list_all_iff)
  have ty: "e_type e \<noteq> 0" "e_type e \<noteq> 120" "length (e_data e) \<le> 150000000" using a by (auto simp: archivable_def)
  have nm: "(if prefix \<noteq> [] then prefix @ js ''/'' @ name else name) = e_name e"
    using f(1) by (simp add: js_def)
  have e: "tarEntry sha1 (st\<lparr>t_count := Suc (t_count st)\<rparr>) h (e_type e) (e_name e) (length (e_data e)) (e_data e)
      = Inr (st\<lparr>t_count := Suc (t_count st), t_out := t_out st @ [e]\<rparr>)"
    using tarEntry_written[OF f(11-16,22) a, of "st\<lparr>t_count := Suc (t_count st)\<rparr>" sha1] st by simp
  show ?thesis
    using st f(9,21) nz ty z
    by (simp add: tarBlock_def Let_def fields data nm e f(23) known_magic_def requireThat_def guardR_def blocks_padding)
qed

lemma tarLoop_step:
  assumes "tarBlock sha1 p st (h @ rest) = Inr (st', n)" "length h = 512 + n"
  shows "tarLoop sha1 p st (h @ rest) = tarLoop sha1 p st' rest"
  using assms by (subst tarLoop.simps) auto

lemma length_padded: "(512 + length data + length (padding data)) mod 512 = 0"
  using blocks_mod[of "length data"] blocks_padding[of data]
    mod_add_self1[of 512 "length data + length (padding data)"] by (simp add: add.assoc)

text \<open>The loop reads \<open>body\<close> as the entries \<open>es\<close>.\<close>

definition body_of :: "(bytes \<Rightarrow> jstring) \<Rightarrow> tar_profile \<Rightarrow> bytes \<Rightarrow> tar_entry list \<Rightarrow> bool" where
  "body_of sha1 p body es \<longleftrightarrow>
     (\<forall>st rest. t_pax st = None \<and> \<not> t_ended st \<and> t_count st + length es \<le> 50000
          \<and> distinct (map e_name (t_out st @ es)) \<longrightarrow>
          tarLoop sha1 p st (body @ rest)
          = tarLoop sha1 p (st\<lparr>t_count := t_count st + length es, t_out := t_out st @ es\<rparr>) rest)"

lemma body_ofD:
  "body_of sha1 p body es \<Longrightarrow> t_pax st = None \<Longrightarrow> \<not> t_ended st \<Longrightarrow> t_count st + length es \<le> 50000
     \<Longrightarrow> distinct (map e_name (t_out st @ es)) \<Longrightarrow>
     tarLoop sha1 p st (body @ rest)
     = tarLoop sha1 p (st\<lparr>t_count := t_count st + length es, t_out := t_out st @ es\<rparr>) rest"
  unfolding body_of_def by blast

lemma body_of_Cons:
  assumes h: "tarHeader epoch (item_of e) = Inr h" and a: "archivable e" and lh: "length h = 512"
    and body: "body_of sha1 p body es"
  shows "body_of sha1 p (h @ e_data e @ padding (e_data e) @ body) (e # es)"
  unfolding body_of_def
proof (intro allI impI)
  fix st :: tar_state and rest
  assume *: "t_pax st = None \<and> \<not> t_ended st \<and> t_count st + length (e # es) \<le> 50000
      \<and> distinct (map e_name (t_out st @ e # es))"
  let ?st = "st\<lparr>t_count := t_count st + 1, t_out := t_out st @ [e]\<rparr>"
  have "tarLoop sha1 p st ((h @ e_data e @ padding (e_data e)) @ body @ rest) = tarLoop sha1 p ?st (body @ rest)"
    using tarBlock_written[OF h a, of st sha1 p "body @ rest"] * lh
    by (intro tarLoop_step[where n = "length (e_data e) + length (padding (e_data e))"]) auto
  also have "\<dots> = tarLoop sha1 p (?st\<lparr>t_count := t_count ?st + length es, t_out := t_out ?st @ es\<rparr>) rest"
    using * by (intro body_ofD[OF body]) auto
  finally show "tarLoop sha1 p st ((h @ e_data e @ padding (e_data e) @ body) @ rest)
      = tarLoop sha1 p (st\<lparr>t_count := t_count st + length (e # es), t_out := t_out st @ e # es\<rparr>) rest"
    by simp
qed

lemma tarLoop_written:
  assumes "foldR (tarItem epoch) (w, parts) (map item_of es) = Inr (w', parts')" "list_all archivable es"
  shows "\<exists>body. parts' = parts @ body \<and> w' = w + length body \<and> length body mod 512 = 0
     \<and> (w \<le> 200000000 \<longrightarrow> w' \<le> 200000000) \<and> body_of sha1 p body es"
  using assms
proof (induction es arbitrary: w parts)
  case Nil
  then show ?case by (auto simp: body_of_def intro!: exI[of _ "[]"])
next
  case (Cons e es)
  from Cons.prems(1) obtain st1 where st1: "tarItem epoch (w, parts) (item_of e) = Inr st1"
    "foldR (tarItem epoch) st1 (map item_of es) = Inr (w', parts')" by auto
  then obtain h where h: "tarHeader epoch (item_of e) = Inr h"
    and b: "w + 512 + length (e_data e) + length (padding (e_data e)) \<le> 200000000"
    and rest: "foldR (tarItem epoch) (w + 512 + length (e_data e) + length (padding (e_data e)),
        parts @ h @ e_data e @ padding (e_data e)) (map item_of es) = Inr (w', parts')"
    by (auto simp: tarItem_def Let_def simp del: foldR.simps)
  have a: "archivable e" "list_all archivable es" using Cons.prems(2) by auto
  have lh: "length h = 512" by (rule written_fields[OF h a(1)])
  from Cons.IH[OF rest a(2)] obtain body where
    body: "parts' = (parts @ h @ e_data e @ padding (e_data e)) @ body"
      "w' = w + 512 + length (e_data e) + length (padding (e_data e)) + length body" "length body mod 512 = 0"
      "w' \<le> 200000000" "body_of sha1 p body es"
  proof (elim exE conjE, goal_cases)
    case (1 body)
    then show ?case using b by (intro 1(1)[of body]) simp_all
  qed
  show ?case
  proof (intro exI[of _ "h @ e_data e @ padding (e_data e) @ body"] conjI)
    have l: "length (h @ e_data e @ padding (e_data e) @ body)
        = (512 + length (e_data e) + length (padding (e_data e))) + length body" using lh by simp
    show "length (h @ e_data e @ padding (e_data e) @ body) mod 512 = 0"
      using length_padded[of "e_data e"] body(3) unfolding l mod_eq_0_iff_dvd by (rule dvd_add)
    show "body_of sha1 p (h @ e_data e @ padding (e_data e) @ body) (e # es)"
      by (rule body_of_Cons[OF h a(1) lh body(5)])
  qed (use body lh in auto)
qed

lemma tarLoop_Nil [simp]: "tarLoop sha1 p st [] = Inr st"
  by (subst tarLoop.simps) simp

lemma tarLoop_end:
  "tarLoop sha1 p st (replicate 1024 0) = Inr (st\<lparr>t_ended := True, t_zeroBlocks := t_zeroBlocks st + 2\<rparr>)"
proof -
  have z: "list_all (\<lambda>v. v = 0) (replicate n (0 :: nat))" for n
    by (simp add: list_all_iff)
  have "tarLoop sha1 p st (replicate 1024 0)
      = tarLoop sha1 p (st\<lparr>t_ended := True, t_zeroBlocks := t_zeroBlocks st + 1\<rparr>) (replicate 512 0)"
    by (subst tarLoop.simps) (simp add: tarBlock_def Let_def z)
  also have "\<dots> = Inr (st\<lparr>t_ended := True, t_zeroBlocks := t_zeroBlocks st + 2\<rparr>)"
    by (subst tarLoop.simps) (simp add: tarBlock_def Let_def z)
  finally show ?thesis .
qed

lemma tar_round_trip_lemma:
  assumes "deterministicTar (map item_of es) epoch = Inr b" "list_all archivable es"
    "distinct (map e_name es)" "length es \<le> 50000"
  shows "tarEntries sha1 p b = Inr es"
proof -
  obtain w parts where f: "foldR (tarItem epoch) (1024, []) (map item_of es) = Inr (w, parts)"
    and b: "b = parts @ replicate 1024 0"
    using assms(1) by (auto simp: deterministicTar_def)
  from tarLoop_written[OF f assms(2), of sha1 p] obtain body where
    body: "parts = body" "w = 1024 + length body" "length body mod 512 = 0" "w \<le> 200000000"
      "body_of sha1 p body es"
    by auto
  have "tarLoop sha1 p tar_start (body @ replicate 1024 0)
      = Inr \<lparr>t_out = es, t_pax = None, t_count = length es, t_ended = True, t_zeroBlocks = 2\<rparr>"
    using assms(3,4) by (subst body_ofD[OF body(5)]) (simp_all add: tar_start_def tarLoop_end)
  moreover have "length b \<le> 200000000 \<and> length b mod 512 = 0"
  proof -
    have "length b = length body + 512 * 2" using b body(1) by simp
    then show ?thesis using body(2-4) by presburger
  qed
  ultimately show ?thesis
    using b body(1) by (simp add: tarEntries_def)
qed

end
