(* ===== verification/Archive_Safety.thy ===== *)
theory Archive_Safety
  imports Archive_Props
begin

unbundle bit_operations_syntax

text \<open>
  What the readers let through: the entries of an accepted tar, the members of an accepted gzip
  file, and the links of an accepted virtual tree.
\<close>

section \<open>Tar entries\<close>

definition sound_entry :: "tar_entry \<Rightarrow> bool" where
  "sound_entry e \<longleftrightarrow>
     canonical_name (e_name e) \<and> e_type e \<in> {48, 49, 50, 53} \<and> e_mode e \<le> 4095 \<and> e_mode e AND 3072 = 0
     \<and> (e_type e = 48 \<or> e_data e = [])
     \<and> (e_type e \<in> {49, 50} \<longrightarrow> e_link e \<noteq> [] \<and> \<not> list_ex forbidden_char (e_link e))"

definition data_total :: "tar_entry list \<Rightarrow> nat" where
  "data_total es = sum_list (map (\<lambda>e. length (e_data e)) es)"

lemma data_total_simps [simp]: "data_total [] = 0" "data_total (es @ [e]) = data_total es + length (e_data e)"
  by (simp_all add: data_total_def)

lemma tarEntry_sound:
  assumes "tarEntry sha1 st h type name0 (length data) data = Inr st'"
  obtains e where "st' = st\<lparr>t_pax := None, t_out := t_out st @ [e]\<rparr>" "sound_entry e" "e_data e = data"
    "e_name e \<notin> e_name ` set (t_out st)"
proof -
  from assms obtain pn name link mode uid gid where
    n: "archiveName pn = Inr name" and t: "type \<in> {48, 49, 50, 53}" "name \<notin> e_name ` set (t_out st)"
    and m: "mode \<le> 4095 \<and> mode AND 3072 = 0 \<and> (type = 48 \<or> length data = 0)"
    and l: "type \<in> {49, 50} \<longrightarrow> link \<noteq> [] \<and> \<not> list_ex forbidden_char link"
    and st': "st' = st\<lparr>t_pax := None,
                t_out := t_out st @ [\<lparr>e_name = name, e_type = type, e_link = link, e_mode = mode,
                                      e_uid = uid, e_gid = gid, e_data = data\<rparr>]\<rparr>"
    unfolding tarEntry_def Let_def bindR_eq_Inr requireThat_Inr sum.inject by blast
  let ?e = "\<lparr>e_name = name, e_type = type, e_link = link, e_mode = mode, e_uid = uid, e_gid = gid, e_data = data\<rparr>"
  have "canonical_name name" using archiveName_canonical[OF n] .
  then have "sound_entry ?e"
    using t(1) m l unfolding sound_entry_def by (simp only: tar_entry.simps length_0_conv)
  then show thesis using that[OF st'] t(2) by simp
qed

definition tar_inv :: "tar_state \<Rightarrow> bool" where
  "tar_inv st \<longleftrightarrow> distinct (map e_name (t_out st)) \<and> list_all sound_entry (t_out st)
     \<and> length (t_out st) \<le> t_count st \<and> t_count st \<le> 50000"

definition tar_weight :: "tar_state \<Rightarrow> nat" where
  "tar_weight st = data_total (t_out st) + 512 * length (t_out st)"

lemma blocks_ge: "n \<le> blocks n"
  unfolding blocks_def using div_mult_mod_eq[of "n + 511" 512] mod_less_divisor[of 512 "n + 511"] by linarith

lemma tarBlock_inv:
  assumes r: "tarBlock sha1 p st b = Inr (st', n)" and i: "tar_inv st"
  shows "tar_inv st'" "tar_weight st' + length (drop (512 + n) b) \<le> tar_weight st + length b"
proof -
  have "tar_inv st' \<and> tar_weight st' + length (drop (512 + n) b) \<le> tar_weight st + length b"
  proof (cases "list_all (\<lambda>v. v = 0) (take 512 b)")
    case True
    then have "st' = st\<lparr>t_ended := True, t_zeroBlocks := t_zeroBlocks st + 1\<rparr>" "n = 0"
      using r by (simp_all add: tarBlock_def Let_def)
    then show ?thesis using i by (simp add: tar_inv_def tar_weight_def)
  next
    case False
    define st1 where "st1 = st\<lparr>t_count := t_count st + 1\<rparr>"
    let ?type = "if take 512 b ! 156 = 0 then 48 else take 512 b ! 156"
    from r obtain sz name where c: "t_count st + 1 \<le> 50000" "512 + blocks sz \<le> length b"
      and k: "(if ?type = 120 then
          bindR (requireThat (t_pax st1 = None \<and> length (slice 512 (512 + sz) b) \<le> 32768) ''TAR_PAX_BOUND'') (\<lambda>_.
          bindR (paxLoop [] (slice 512 (512 + sz) b)) (\<lambda>pax. Inr (st1\<lparr>t_pax := Some pax\<rparr>, blocks sz)))
        else bindR (tarEntry sha1 st1 (take 512 b) ?type name sz (slice 512 (512 + sz) b))
               (\<lambda>st2. Inr (st2, blocks sz))) = Inr (st', n)"
      unfolding tarBlock_def Let_def st1_def[symmetric] if_not_P[OF False] bindR_eq_Inr requireThat_Inr by blast
    have alt: "n = blocks sz \<and> ((\<exists>pax. st' = st1\<lparr>t_pax := Some pax\<rparr>)
        \<or> tarEntry sha1 st1 (take 512 b) ?type name sz (slice 512 (512 + sz) b) = Inr st')"
    proof (cases "?type = 120")
      case True
      from k[unfolded if_P[OF True]] show ?thesis by (simp only: bindR_eq_Inr sum.inject prod.inject) blast
    next
      case False
      from k[unfolded if_not_P[OF False]] show ?thesis by (simp only: bindR_eq_Inr sum.inject prod.inject) blast
    qed
    then have n: "n = blocks sz" by blast
    have s: "length (slice 512 (512 + sz) b) = sz" using c(2) blocks_ge[of sz] by (simp add: slice_def)
    from conjunct2[OF alt] show ?thesis
    proof
      assume "\<exists>pax. st' = st1\<lparr>t_pax := Some pax\<rparr>"
      then show ?thesis using i c by (auto simp: st1_def tar_inv_def tar_weight_def)
    next
      assume t: "tarEntry sha1 st1 (take 512 b) ?type name sz (slice 512 (512 + sz) b) = Inr st'"
      obtain e where e:
        "st' = st1\<lparr>t_pax := None, t_out := t_out st1 @ [e]\<rparr>" "sound_entry e"
        "e_data e = slice 512 (512 + sz) b" "e_name e \<notin> e_name ` set (t_out st1)"
        using tarEntry_sound[where data = "slice 512 (512 + sz) b", unfolded s, OF t] by blast
      have "tar_inv st'" using i c e(1,2,4) by (simp add: st1_def tar_inv_def)
      moreover have "tar_weight st' = tar_weight st + sz + 512" using e(1,3) s by (simp add: st1_def tar_weight_def)
      ultimately show ?thesis using n c(2) blocks_ge[of sz] by simp
    qed
  qed
  then show "tar_inv st'" "tar_weight st' + length (drop (512 + n) b) \<le> tar_weight st + length b" by simp_all
qed

lemma tarLoop_inv:
  assumes "tarLoop sha1 p st b = Inr st'" "tar_inv st"
  shows "tar_inv st' \<and> tar_weight st' \<le> tar_weight st + length b"
  using assms
proof (induction sha1 p st b rule: tarLoop.induct)
  case (1 sha1 p st b)
  show ?case
  proof (cases "b = []")
    case True
    then show ?thesis using 1 by (simp add: tarLoop.simps)
  next
    case False
    then obtain st1 n where s: "tarBlock sha1 p st b = Inr (st1, n)" "tarLoop sha1 p st1 (drop (512 + n) b) = Inr st'"
      using 1(2) by (subst (asm) tarLoop.simps) (auto split: sum.splits prod.splits)
    from tarBlock_inv[OF s(1) 1(3)] 1(1)[OF False s(1) refl s(2)] show ?thesis by simp
  qed
qed

text \<open>C22: Every tar that is read satisfies the contract of the callers: the names are distinct,
  relative and canonical, only files, links and directories occur, no entry is set-user-id or
  set-group-id, only files have data, and no more is returned than the input holds.\<close>

theorem tar_entries_are_safe:
  "case tarEntries sha1 profile b of
     Inl _ \<Rightarrow> True
   | Inr es \<Rightarrow> distinct (map e_name es) \<and> list_all sound_entry es \<and> length es \<le> 50000
       \<and> data_total es + 512 * length es \<le> length b \<and> length b \<le> 200000000"
proof (cases "tarEntries sha1 profile b")
  case (Inr es)
  then obtain st where st: "tarLoop sha1 profile tar_start b = Inr st" "es = t_out st" "length b \<le> 200000000"
    by (auto simp: tarEntries_def)
  have "tar_inv tar_start" "tar_weight tar_start = 0" by (simp_all add: tar_inv_def tar_weight_def tar_start_def)
  with tarLoop_inv[OF st(1)] show ?thesis using Inr st(2,3) by (simp add: tar_inv_def tar_weight_def)
qed simp

text \<open>C21: The reader returns exactly what the deterministic writer was given, for every list of
  entries with short canonical names, plain modes and data on files only.\<close>

theorem tar_round_trip:
  assumes "deterministicTar (map item_of es) epoch = Inr b" "list_all archivable es"
    "distinct (map e_name es)" "length es \<le> 50000"
  shows "tarEntries sha1 p b = Inr es"
  using assms by (rule tar_round_trip_lemma)

lemma oct_fits: "n < 8 ^ (l - 1) \<Longrightarrow> 1 < l \<Longrightarrow>
    oct n off l h = Inr (put_bytes off (pad_start (l - 1) (octal_text n) @ [0]) h)"
  using octal_text_length[of n "l - 1"] by (simp add: oct_def Let_def pad_start_def)

lemma tar_round_trip_witness:
  "let e = \<lparr>e_name = js ''a'', e_type = 48, e_link = [], e_mode = 420, e_uid = 0, e_gid = 0, e_data = [7]\<rparr> in
   \<exists>b. deterministicTar (map item_of [e]) 0 = Inr b \<and> tarEntries (\<lambda>_. []) UstarClosed b = Inr [e]"
proof -
  let ?e = "\<lparr>e_name = js ''a'', e_type = 48, e_link = [], e_mode = 420, e_uid = 0, e_gid = 0, e_data = [7]\<rparr>"
  have n: "archiveName (js ''a'') = Inr (js ''a'')"
    by (simp add: archiveName_Inr js_def utf8_encode.simps utf8_point_def starts_with_def forbidden_char_def strip_name_def
        good_component_def)
  have a: "archivable ?e"
    using n by (simp add: archivable_def js_def is_ascii_def)
  have "is_ascii (js ''a'')" by (simp add: is_ascii_def js_def)
  then have u: "utf8_encode (js ''a'') = js ''a''" by (rule utf8_encode_ascii)
  have l: "length (js ''a'') \<le> 100" "utf8_encode [] = []" by (simp_all add: js_def)
  obtain h where h: "tarHeader 0 (item_of ?e) = Inr h"
    using n by (simp add: tarHeader_def item_of_def oct_fits Let_def u l not_less requireThat_def)
  then obtain b where b: "deterministicTar (map item_of [?e]) 0 = Inr b"
    by (simp add: deterministicTar_def is_safe_def tarItem_def padding_def Let_def)
  moreover have "tarEntries (\<lambda>_. []) UstarClosed b = Inr [?e]"
    by (rule tar_round_trip[OF b]) (use a in simp_all)
  ultimately show ?thesis by (simp only: Let_def) blast
qed

section \<open>Gzip members\<close>

definition sound_member :: "zlib \<Rightarrow> gzip_member \<Rightarrow> bool" where
  "sound_member z m \<longleftrightarrow>
     (\<exists>cap. z_gunzip z (g_compressed m) cap = Some (g_data m)) \<and> take 3 (g_compressed m) = [31, 139, 8]"

lemma gzipMember_sound:
  assumes "gzipMember z k b = Inr m"
  shows "sound_member z m \<and> g_compressed m = take (length (g_compressed m)) b
     \<and> k + length (g_data m) \<le> 200000000"
proof -
  from assms obtain off buffer written where h: "gzipHeader b = Inr off"
    and m: "off + written + 8 \<le> length b" "z_gunzip z (take (off + written + 8) b) (200000000 - k) = Some (g_data m)"
      "k + length (g_data m) \<le> 200000000" "g_compressed m = take (off + written + 8) b"
    unfolding gzipMember_def Let_def zlibR_def bindR_eq_Inr requireThat_Inr
    by (elim exE conjE) (auto split: prod.splits option.splits)
  from h have "10 \<le> length b" "b ! 0 = 31" "b ! 1 = 139" "b ! 2 = 8" by (auto simp: gzipHeader_def)
  then have "take 3 (take (off + written + 8) b) = [31, 139, 8]"
    by (intro nth_equalityI) (auto simp: nth_Cons less_Suc_eq numeral_3_eq_3 numeral_2_eq_2 split: nat.splits)
  with m show ?thesis by (auto simp: sound_member_def)
qed

definition gzip_inv :: "zlib \<Rightarrow> gzip_member list \<Rightarrow> nat \<Rightarrow> bool" where
  "gzip_inv z out n \<longleftrightarrow> list_all (sound_member z) out \<and> n = sum_list (map (\<lambda>m. length (g_data m)) out) \<and> n \<le> 200000000
     \<and> length out \<le> 4"

lemma gzipLoop_inv:
  assumes "gzipLoop z out n b = Inr ms" "gzip_inv z out n"
  shows "gzip_inv z ms (sum_list (map (\<lambda>m. length (g_data m)) ms))
     \<and> concat (map g_compressed ms) = concat (map g_compressed out) @ b"
  using assms
proof (induction z out n b rule: gzipLoop.induct)
  case (1 z out n b)
  show ?case
  proof (cases "b = []")
    case True
    then show ?thesis using 1 by (simp add: gzipLoop.simps gzip_inv_def)
  next
    case False
    then obtain m where l: "length out < 4" and m: "gzipMember z n b = Inr m"
      and r: "gzipLoop z (out @ [m]) (n + length (g_data m)) (drop (length (g_compressed m)) b) = Inr ms"
      using 1(2) by (subst (asm) gzipLoop.simps) (auto split: sum.splits if_splits)
    note s = gzipMember_sound[OF m]
    have "gzip_inv z (out @ [m]) (n + length (g_data m))" using 1(3) s l by (simp add: gzip_inv_def)
    from 1(1)[OF False _ m r this] l have "gzip_inv z ms (sum_list (map (\<lambda>m. length (g_data m)) ms))"
      "concat (map g_compressed ms) = concat (map g_compressed (out @ [m])) @ drop (length (g_compressed m)) b"
      by simp_all
    moreover have "g_compressed m @ drop (length (g_compressed m)) b = b"
      using s append_take_drop_id[of "length (g_compressed m)" b] by simp
    ultimately show ?thesis by simp
  qed
qed

text \<open>C23: An accepted gzip file is cut into at most four members that join to the file byte for
  byte, each starts with the gzip magic and inflates to its data, and all of them together inflate
  to no more than two hundred million bytes.\<close>

theorem gzip_members_partition_the_file:
  "case gzipMembers z b of
     Inl _ \<Rightarrow> True
   | Inr ms \<Rightarrow> ms \<noteq> [] \<and> length ms \<le> 4 \<and> concat (map g_compressed ms) = b \<and> list_all (sound_member z) ms
       \<and> sum_list (map (\<lambda>m. length (g_data m)) ms) \<le> 200000000"
proof (cases "gzipMembers z b")
  case (Inr ms)
  then have l: "gzipLoop z [] 0 b = Inr ms" "b \<noteq> []" by (auto simp: gzipMembers_def)
  have "gzip_inv z [] 0" by (simp add: gzip_inv_def)
  from gzipLoop_inv[OF l(1) this] show ?thesis using Inr l(2) by (auto simp: gzip_inv_def)
qed simp

end
