(* ===== verification/Virtual_Tree.thy ===== *)
theory Virtual_Tree
  imports Archive_Props
begin

text \<open>
  The link resolver of \<open>validateVirtualTree\<close> as a step relation, the agreement of the loop with
  it, and what an accepted tree guarantees for every link.
\<close>

section \<open>Resolution steps\<close>

definition is_link :: "(jstring \<Rightarrow> tar_entry option) \<Rightarrow> jstring \<Rightarrow> bool" where
  "is_link m n \<longleftrightarrow> has_type m n 49 \<or> has_type m n 50"

definition ordinary :: "jstring \<Rightarrow> bool" where
  "ordinary p \<longleftrightarrow> p \<noteq> [] \<and> p \<noteq> js ''.'' \<and> p \<noteq> js ''..''"

type_synonym resolution = "nat \<times> jstring list \<times> jstring list"

text \<open>A state holds the links that may still be followed, the pending components and the resolved
  ones.\<close>

inductive link_step :: "(jstring \<Rightarrow> tar_entry option) \<Rightarrow> resolution \<Rightarrow> resolution \<Rightarrow> bool" for m where
  stay: "not_a_file m r \<Longrightarrow> p = [] \<or> p = js ''.'' \<Longrightarrow> link_step m (k, p # ps, r) (k, ps, r)"
| up: "not_a_file m r \<Longrightarrow> p = js ''..'' \<Longrightarrow> r \<noteq> [] \<Longrightarrow> link_step m (k, p # ps, r) (k, ps, butlast r)"
| down: "not_a_file m r \<Longrightarrow> ordinary p \<Longrightarrow> \<not> is_link m (path (r @ [p])) \<Longrightarrow>
    link_step m (k, p # ps, r) (k, ps, r @ [p])"
| hard: "not_a_file m r \<Longrightarrow> ordinary p \<Longrightarrow> m (path (r @ [p])) = Some e \<Longrightarrow> e_type e = 49 \<Longrightarrow>
    archiveName (e_link e) = Inr (e_link e) \<Longrightarrow> has_type m (e_link e) 48 \<Longrightarrow>
    link_step m (k, p # ps, r) (k, ps, split_on 47 (e_link e))"
| soft: "not_a_file m r \<Longrightarrow> ordinary p \<Longrightarrow> m (path (r @ [p])) = Some e \<Longrightarrow> e_type e = 50 \<Longrightarrow>
    link_step m (Suc k, p # ps, r)
      (k, split_on 47 (e_link e) @ ps, if starts_with (e_link e) (js ''/'') then [] else r)"

inductive_cases link_stepE: "link_step m (k, ps, r) t"
inductive_simps link_step_done [simp]: "link_step m (k, [], r) t"

lemma dots [simp]: "js ''.'' \<noteq> []" "js ''..'' \<noteq> []" "js ''.'' \<noteq> js ''..''" "js ''..'' \<noteq> js ''.''"
  by (simp_all add: js_def)

lemma is_link_iff: "is_link m n \<longleftrightarrow> (\<exists>e. m n = Some e \<and> (e_type e = 49 \<or> e_type e = 50))"
  by (auto simp: is_link_def has_type_def split: option.splits)

lemma follow_step: "link_step m (k, ps, r) (k', ps', r') \<Longrightarrow> follow m k ps r = follow m k' ps' r'"
proof (erule link_stepE, goal_cases)
  case (3 p qs)
  then show ?case by (auto simp: ordinary_def is_link_iff split: option.splits)
qed (auto simp: ordinary_def)

lemma follow_steps: "(link_step m)\<^sup>*\<^sup>* s t \<Longrightarrow>
    follow m (fst s) (fst (snd s)) (snd (snd s)) = follow m (fst t) (fst (snd t)) (snd (snd t))"
proof (induction rule: rtranclp_induct)
  case (step t u)
  then show ?case using follow_step by (metis prod.collapse)
qed simp

lemma follow_reaches:
  "follow m k ps r = Inr n \<Longrightarrow> \<exists>k' f. (link_step m)\<^sup>*\<^sup>* (k, ps, r) (k', [], f) \<and> f \<noteq> [] \<and> n = path f"
proof (induction m k ps r rule: follow.induct)
  case (1 m k r)
  then show ?case by auto
next
  case (2 m k p ps r)
  have nf: "not_a_file m r" using 2(7) by (auto split: if_splits)
  have go: "?case" if "link_step m (k, p # ps, r) (k', ps', r')"
    "\<exists>k'' f. (link_step m)\<^sup>*\<^sup>* (k', ps', r') (k'', [], f) \<and> f \<noteq> [] \<and> n = path f" for k' ps' r'
    using that converse_rtranclp_into_rtranclp[of "link_step m"] by blast
  consider "p = [] \<or> p = js ''.''" | "p = js ''..''" | "ordinary p" by (auto simp: ordinary_def)
  then show ?case
  proof cases
    case 1
    then show ?thesis using 2 nf by (intro go[OF stay]) auto
  next
    case up': 2
    then show ?thesis using 2 nf by (intro go[OF up]) (auto split: if_splits)
  next
    case o: 3
    show ?thesis
    proof (cases "m (path (r @ [p]))")
      case None
      then show ?thesis using 2 nf o by (intro go[OF down]) (auto simp: is_link_iff ordinary_def)
    next
      case (Some e)
      consider "e_type e = 49" | "e_type e = 50" | "e_type e \<noteq> 49" "e_type e \<noteq> 50" by blast
      then show ?thesis
      proof cases
        case 1
        then show ?thesis using 2 nf o Some
          by (intro go[OF hard]) (auto simp: ordinary_def split: if_splits sum.splits)
      next
        case soft': 2
        then obtain k0 where k: "k = Suc k0" using 2(7) nf o Some by (cases k) (auto simp: ordinary_def)
        show ?thesis
        proof (rule go)
          show "link_step m (k, p # ps, r)
            (k0, split_on 47 (e_link e) @ ps, if starts_with (e_link e) (js ''/'') then [] else r)"
            unfolding k using nf o Some soft' by (rule link_step.soft)
        qed (use 2 nf o Some soft' k in \<open>auto simp: ordinary_def split: if_splits\<close>)
      next
        case 3
        then show ?thesis using 2 nf o Some by (intro go[OF down]) (auto simp: is_link_iff ordinary_def)
      qed
    qed
  qed
qed

lemma follow_iff_steps:
  "follow m k ps r = Inr n
     \<longleftrightarrow> (\<exists>k' f. (link_step m)\<^sup>*\<^sup>* (k, ps, r) (k', [], f) \<and> f \<noteq> [] \<and> n = path f)"
proof
  assume "\<exists>k' f. (link_step m)\<^sup>*\<^sup>* (k, ps, r) (k', [], f) \<and> f \<noteq> [] \<and> n = path f"
  then show "follow m k ps r = Inr n" using follow_steps by fastforce
qed (rule follow_reaches)


lemma link_step_measure:
  "link_step m s t \<Longrightarrow>
     (t, s) \<in> measures [\<lambda>(k, _, _). k, \<lambda>(_, ps, _). length ps]"
  by (erule link_step.cases) auto

lemma wf_link_step: "wf {(t, s). link_step m s t}"
  by (rule wf_subset[OF wf_measures]) (use link_step_measure in blast)

text \<open>Resolution terminates whatever the archive holds: no infinite sequence of resolution
  steps exists, even through cyclic links.\<close>

theorem resolution_terminates: "wf {(t, s). link_step m s t}"
  by (rule wf_link_step)

lemma link_step_deterministic: "link_step m s t \<Longrightarrow> link_step m s t' \<Longrightarrow> t = t'"
  by (erule link_step.cases; erule link_step.cases) (auto simp: ordinary_def is_link_iff)

text \<open>Every resolution reaches, by steps that leave no choice, either its end or a state where
  it is refused.\<close>

theorem resolution_reaches_an_end:
  "\<exists>!t. (link_step m)\<^sup>*\<^sup>* s t \<and> \<not> (\<exists>u. link_step m t u)"
proof (rule ex_ex1I)
  show "\<exists>t. (link_step m)\<^sup>*\<^sup>* s t \<and> \<not> (\<exists>u. link_step m t u)"
  proof (induction s rule: wf_induct_rule[OF wf_link_step[of m]])
    case (1 s)
    then show ?case by (metis (mono_tags, lifting) CollectI case_prodI converse_rtranclp_into_rtranclp rtranclp.rtrancl_refl)
  qed
next
  fix t t'
  assume "(link_step m)\<^sup>*\<^sup>* s t \<and> \<not> (\<exists>u. link_step m t u)" "(link_step m)\<^sup>*\<^sup>* s t' \<and> \<not> (\<exists>u. link_step m t' u)"
  then have "(link_step m)\<^sup>*\<^sup>* s t" "(link_step m)\<^sup>*\<^sup>* s t'" "\<not> (\<exists>u. link_step m t u)" "\<not> (\<exists>u. link_step m t' u)"
    by blast+
  then show "t = t'"
  proof (induction rule: converse_rtranclp_induct)
    case base
    then show ?case by (metis converse_rtranclpE)
  next
    case (step y z)
    then show ?case by (metis converse_rtranclpE link_step_deterministic)
  qed
qed

section \<open>Where links lead\<close>

definition plain :: "jstring \<Rightarrow> bool" where
  "plain p \<longleftrightarrow> ordinary p \<and> 47 \<notin> set p"

definition no_links :: "(jstring \<Rightarrow> tar_entry option) \<Rightarrow> jstring list \<Rightarrow> bool" where
  "no_links m r \<longleftrightarrow> (\<forall>i. 0 < i \<and> i \<le> length r \<longrightarrow> \<not> is_link m (path (take i r)))"

definition resolution_inv :: "(jstring \<Rightarrow> tar_entry option) \<Rightarrow> resolution \<Rightarrow> bool" where
  "resolution_inv m s \<longleftrightarrow>
     (case s of (k, ps, r) \<Rightarrow>
        (\<forall>p \<in> set ps. 47 \<notin> set p) \<and> (\<forall>p \<in> set r. plain p) \<and> (no_links m r \<or> has_type m (path r) 48))"

lemma no_links_butlast: "no_links m r \<Longrightarrow> no_links m (butlast r)"
  by (auto simp: no_links_def take_butlast)

lemma no_links_snoc: "no_links m r \<Longrightarrow> \<not> is_link m (path (r @ [p])) \<Longrightarrow> no_links m (r @ [p])"
  by (auto simp: no_links_def le_Suc_eq)

lemma file_blocks: "not_a_file m r \<Longrightarrow> \<not> has_type m (path r) 48"
  by (auto simp: not_a_file_def has_type_def split: option.splits)

lemma path_split [simp]: "path (split_on 47 n) = n"
  by (simp add: path_def)

lemma good_plain: "p \<in> set (split_on 47 n) \<Longrightarrow> good_component p \<Longrightarrow> plain p"
  using split_on_no_sep by (auto simp: plain_def ordinary_def good_component_def)

lemma resolution_inv_step: "link_step m s t \<Longrightarrow> resolution_inv m s \<Longrightarrow> resolution_inv m t"
proof (induction rule: link_step.induct)
  case (hard r p e k ps)
  then show ?case
    using good_plain by (auto simp: resolution_inv_def archiveName_Inr list_all_iff)
next
  case (soft r p e k ps)
  then show ?case
    by (auto simp: resolution_inv_def file_blocks no_links_def dest: split_on_no_sep)
qed (auto simp: resolution_inv_def file_blocks no_links_butlast no_links_snoc plain_def dest: in_set_butlastD)

definition link_resolves :: "(jstring \<Rightarrow> tar_entry option) \<Rightarrow> tar_entry \<Rightarrow> bool" where
  "link_resolves m e \<longleftrightarrow>
     (\<exists>f. follow m 40 (split_on 47 (e_name e)) [] = Inr (path f) \<and> f \<noteq> [] \<and> (\<forall>p \<in> set f. plain p)
        \<and> split_on 47 (path f) = f \<and> \<not> is_link m (path f) \<and> (e_type e = 49 \<longrightarrow> has_type m (path f) 48))"

lemma follow_plain:
  assumes "follow m k (split_on 47 s) [] = Inr n"
  shows "\<exists>f. n = path f \<and> f \<noteq> [] \<and> (\<forall>p \<in> set f. plain p) \<and> split_on 47 (path f) = f \<and> \<not> is_link m (path f)"
proof -
  from assms obtain k' f where f: "(link_step m)\<^sup>*\<^sup>* (k, split_on 47 s, []) (k', [], f)" "f \<noteq> []" "n = path f"
    unfolding follow_iff_steps by blast
  have "resolution_inv m (k, split_on 47 s, [])"
    by (auto simp: resolution_inv_def no_links_def dest: split_on_no_sep)
  with f(1) have "resolution_inv m (k', [], f)"
    by (induction rule: rtranclp_induct) (auto intro: resolution_inv_step)
  then have i: "\<forall>p \<in> set f. plain p" "no_links m f \<or> has_type m (path f) 48" by (simp_all add: resolution_inv_def)
  have "\<not> is_link m (path f)"
    using i(2) f(2) by (auto simp: no_links_def is_link_iff has_type_def split: option.splits)
  moreover have "split_on 47 (path f) = f"
    unfolding path_def using f(2) i(1) by (intro split_on_join) (auto simp: plain_def)
  ultimately show ?thesis using f i(1) by blast
qed

text \<open>C24: In an accepted tree every link resolves from the root, through at most forty symbolic
  links, to a path of plain components that is not itself a link, so nothing points outside; a
  hard link ends at a regular file.\<close>

theorem accepted_links_stay_inside:
  "case validateVirtualTree es of
     Inl _ \<Rightarrow> True
   | Inr (n, links) \<Rightarrow> distinct (map e_name es) \<and> n = length es
       \<and> list_all (link_resolves (tree_map es)) (filter (\<lambda>e. e_type e \<in> {49, 50}) es)"
proof (cases "validateVirtualTree es")
  case (Inr r)
  let ?m = "tree_map es"
  have d: "distinct (map e_name es)" and r: "fst r = length es" and f: "foldR (\<lambda>_. treeEntry ?m) () es = Inr ()"
    using Inr by (auto simp: validateVirtualTree_def Let_def card_distinct length_remdups_card_conv)
  have "\<forall>e \<in> set xs. treeEntry m e = Inr ()" if "foldR (\<lambda>_. treeEntry m) () xs = Inr ()" for m xs
    using that by (induction xs) auto
  from this[OF f] have "\<forall>e \<in> set es. treeEntry ?m e = Inr ()" .
  then have "link_resolves ?m e" if "e \<in> set es" "e_type e \<in> {49, 50}" for e
    using that follow_plain by (fastforce simp: treeEntry_def link_resolves_def Let_def)
  then show ?thesis using Inr d r by (cases r) (auto simp: list_all_iff)
qed simp

end
