(* ===== verification/Repository.thy ===== *)
theory Repository
  imports Policy Js_Objects
begin

text \<open>
  The checks of \<^verbatim>\<open>src/scripts/supply-chain/contracts.mjs\<close> on what the gate reads from a
  repository: the use boundary and context, the OSV configuration, the captured Git index and its
  flags, blob identities, the selection of Semgrep sources, the \<^verbatim>\<open>go.mod\<close> edit and the parity of
  scanned paths, with the small requirements the other contracts share.
\<close>

section \<open>Failures\<close>

text \<open>A \<^verbatim>\<open>ContractError\<close>, with a short form of its message, or any other exception.\<close>

datatype cexn = Refused string | Thrown

definition requireC :: "bool \<Rightarrow> string \<Rightarrow> cexn + unit" where
  "requireC c m = guardR c (Refused m)"

lemma requireC_Inr [simp, res_simps]: "requireC c m = Inr u \<longleftrightarrow> c"
  by (simp add: requireC_def)

lemma requireC_True [simp]: "requireC True m = Inr ()"
  by (simp add: requireC_def)

definition jsonR :: "json_error + 'a \<Rightarrow> cexn + 'a" where
  "jsonR r = (case r of Inl _ \<Rightarrow> Inl (Refused ''json'') | Inr x \<Rightarrow> Inr x)"

lemma jsonR_Inr [simp]: "jsonR r = Inr x \<longleftrightarrow> r = Inr x"
  by (auto simp: jsonR_def split: sum.splits)

definition canonR :: "jsenv \<Rightarrow> jsval \<Rightarrow> cexn + jstring" where
  "canonR E v = jsonR (canonicalJson E v)"

section \<open>Shared requirements\<close>

definition needRecord :: "jsval \<Rightarrow> cexn + unit" where
  "needRecord v = requireC (is_record v) ''must be an object''"

definition needNonemptyString :: "jsval \<Rightarrow> cexn + jstring" where
  "needNonemptyString v =
     (case v of JStr s \<Rightarrow> bindR (requireC (s \<noteq> []) ''must be a nonempty string'') (\<lambda>_. Inr s)
      | _ \<Rightarrow> Inl (Refused ''must be a nonempty string''))"

definition keys_of :: "jsval \<Rightarrow> jstring list" where
  "keys_of v = (case v of JObj fs \<Rightarrow> map fst fs | _ \<Rightarrow> [])"

definition has_own :: "jsval \<Rightarrow> jstring \<Rightarrow> bool" where
  "has_own v k \<longleftrightarrow> k \<in> set (keys_of v)"

definition strings :: "jstring list \<Rightarrow> jsval" where
  "strings ss = JArr (map JStr ss)"

definition assertExactObjectKeys :: "jsenv \<Rightarrow> jsval \<Rightarrow> string list \<Rightarrow> cexn + unit" where
  "assertExactObjectKeys E v expected =
     bindR (needRecord v) (\<lambda>_.
     bindR (canonR E (strings (sort (keys_of v)))) (\<lambda>actual.
     bindR (canonR E (strings (sort (map js expected)))) (\<lambda>required.
       requireC (actual = required) ''exact required keys'')))"

text \<open>\<^verbatim>\<open>/^[0-9a-f]{64}$/u.test(value)\<close> converts its argument to a string.\<close>

definition sha256_text :: "jstring \<Rightarrow> bool" where
  "sha256_text s \<longleftrightarrow> length s = 64 \<and> list_all is_lower_hex s"

definition validateSha256 :: "jsenv \<Rightarrow> jsval \<Rightarrow> cexn + unit" where
  "validateSha256 E v = requireC (sha256_text (to_text E v)) ''digest is invalid''"

definition is_safe_number :: "jsval \<Rightarrow> bool" where
  "is_safe_number v \<longleftrightarrow> (case v of JNum x \<Rightarrow> is_safe_integer x | _ \<Rightarrow> False)"

definition is_negative :: "jsval \<Rightarrow> bool" where
  "is_negative v \<longleftrightarrow> (case v of JNum (Fin r) \<Rightarrow> r < 0 | JNum (Infinity neg) \<Rightarrow> neg | _ \<Rightarrow> False)"

definition requireNonnegativeSafeInteger :: "jsval \<Rightarrow> cexn + unit" where
  "requireNonnegativeSafeInteger v = requireC (is_safe_number v \<and> \<not> is_negative v) ''integer is invalid''"

section \<open>POSIX paths\<close>

text \<open>\<^verbatim>\<open>path.posix.normalize\<close>: one segment of the path on the stack of the segments before it.\<close>

definition normalize_step :: "bool \<Rightarrow> jstring list \<Rightarrow> jstring \<Rightarrow> jstring list" where
  "normalize_step allowAbove stack seg =
     (if seg = [] \<or> seg = js ''.'' then stack
      else if seg = js ''..'' then
        (if stack \<noteq> [] \<and> last stack \<noteq> js ''..'' then butlast stack
         else if allowAbove then stack @ [seg] else stack)
      else stack @ [seg])"

definition is_absolute :: "jstring \<Rightarrow> bool" where
  "is_absolute s \<longleftrightarrow> starts_with s (js ''/'')"

definition normalize :: "jstring \<Rightarrow> jstring" where
  "normalize s =
     (if s = [] then js ''.''
      else let absolute = is_absolute s; trailing = (last s = 47);
               p = join [47] (foldl (normalize_step (\<not> absolute)) [] (split_on 47 s))
           in if p = [] then (if absolute then js ''/'' else if trailing then js ''./'' else js ''.'')
              else (if absolute then js ''/'' else []) @ p @ (if trailing then js ''/'' else []))"

definition includes_text :: "jstring \<Rightarrow> jstring \<Rightarrow> bool" where
  "includes_text s t \<longleftrightarrow> list_ex (\<lambda>i. starts_with (drop i s) t) [0..<length s + 1]"

definition validateRepositoryPath :: "jsval \<Rightarrow> cexn + unit" where
  "validateRepositoryPath v =
     requireC (case v of
         JStr s \<Rightarrow> s \<noteq> [] \<and> 92 \<notin> set s \<and> 0 \<notin> set s \<and> \<not> is_absolute s \<and> normalize s = s \<and> s \<noteq> js ''.''
           \<and> \<not> starts_with s (js ''../'') \<and> \<not> includes_text s (js ''/../'')
       | _ \<Rightarrow> False) ''not a canonical repository path''"

text \<open>A \<^verbatim>\<open>Set\<close> of paths, in insertion order.\<close>

definition addPath :: "jstring list \<Rightarrow> jsval \<Rightarrow> cexn + jstring list" where
  "addPath found v =
     bindR (validateRepositoryPath v) (\<lambda>_.
       case v of
         JStr s \<Rightarrow> bindR (requireC (s \<notin> set found) ''paths contain duplicates'') (\<lambda>_. Inr (found @ [s]))
       | _ \<Rightarrow> Inl Thrown)"

definition exactPathSet :: "jsval \<Rightarrow> cexn + jstring list" where
  "exactPathSet v =
     (case v of JArr vs \<Rightarrow> foldR addPath [] vs | _ \<Rightarrow> Inl (Refused ''paths are invalid''))"

definition strip_slash :: "jstring \<Rightarrow> jstring" where
  "strip_slash s = (if s \<noteq> [] \<and> last s = 47 then butlast s else s)"

definition semgrepRepositoryPath :: "jstring \<Rightarrow> jsval \<Rightarrow> cexn + jstring" where
  "semgrepRepositoryPath containerRoot v =
     (case v of
        JStr s \<Rightarrow>
          bindR (requireC (92 \<notin> set s) ''scanned path is invalid'') (\<lambda>_.
          let canonicalRoot = strip_slash (normalize containerRoot) in
          case find (\<lambda>c. starts_with s c) [canonicalRoot @ js ''/'', tl canonicalRoot @ js ''/''] of
            None \<Rightarrow> Inl (Refused ''scanned path is outside the root'')
          | Some prefix \<Rightarrow>
              let p = drop (length prefix) s in
              bindR (validateRepositoryPath (JStr p)) (\<lambda>_. Inr p))
      | _ \<Rightarrow> Inl (Refused ''scanned path is invalid''))"

section \<open>Repository use\<close>

definition HEDEFORA_REPOSITORY_ID :: rat where
  "HEDEFORA_REPOSITORY_ID = 1349011765"

definition HEDEFORA_REPOSITORY_FULL_NAME :: string where
  "HEDEFORA_REPOSITORY_FULL_NAME = ''tahackr5/HedefOra-V1''"

definition is_str :: "jsval \<Rightarrow> string \<Rightarrow> bool" where
  "is_str v s \<longleftrightarrow> v = JStr (js s)"

definition validateRepositoryUseBoundary :: "jsenv \<Rightarrow> jsval \<Rightarrow> cexn + unit" where
  "validateRepositoryUseBoundary E boundary =
     bindR (needRecord boundary) (\<lambda>_.
     bindR (assertExactObjectKeys E boundary
              [''repository'', ''purpose'', ''targetRelation'', ''forkPullRequests'', ''externalRepositoryScanning'',
               ''scanningAsAService'', ''ruleDistribution'', ''ruleContentPersistence'']) (\<lambda>_.
     let repository = getp boundary ''repository''; differs = ''repository use boundary differs'' in
     bindR (needRecord repository) (\<lambda>_.
     bindR (assertExactObjectKeys E repository [''id'', ''fullName'', ''allowedVisibilities'']) (\<lambda>_.
     bindR (requireC (getp repository ''id'' = JNum (Fin HEDEFORA_REPOSITORY_ID)
              \<and> is_str (getp repository ''fullName'') HEDEFORA_REPOSITORY_FULL_NAME) differs) (\<lambda>_.
     bindR (canonR E (getp repository ''allowedVisibilities'')) (\<lambda>a.
     bindR (canonR E (strings (map js [''private'', ''public'']))) (\<lambda>b.
       requireC (a = b
         \<and> is_str (getp boundary ''purpose'') ''owner-controlled-internal-ci''
         \<and> is_str (getp boundary ''targetRelation'') ''same-repository-only''
         \<and> is_str (getp boundary ''forkPullRequests'') ''reject-before-acquisition''
         \<and> is_str (getp boundary ''externalRepositoryScanning'') ''prohibited''
         \<and> is_str (getp boundary ''scanningAsAService'') ''prohibited''
         \<and> is_str (getp boundary ''ruleDistribution'') ''prohibited''
         \<and> is_str (getp boundary ''ruleContentPersistence'') ''ephemeral-temp-only'') differs)))))))"

text \<open>\<^verbatim>\<open>v.includes(x)\<close> of an array or a string.\<close>

definition includesR :: "jsenv \<Rightarrow> jsval \<Rightarrow> jsval \<Rightarrow> cexn + bool" where
  "includesR E v x =
     (case v of JArr xs \<Rightarrow> Inr (list_ex (same_value x) xs) | JStr s \<Rightarrow> Inr (includes_text s (to_text E x))
      | _ \<Rightarrow> Inl Thrown)"

definition useIdentity :: "jsenv \<Rightarrow> jsval \<Rightarrow> jsval \<Rightarrow> cexn + unit" where
  "useIdentity E expected identity =
     (let outside = ''outside the locked first-party boundary'' in
      bindR (requireC (strict_eq (getp identity ''repositoryId'') (getp expected ''id'')
               \<and> strict_eq (getp identity ''repositoryFullName'') (getp expected ''fullName'')) outside) (\<lambda>_.
      bindR (includesR E (getp expected ''allowedVisibilities'') (getp identity ''visibility'')) (\<lambda>ok.
        requireC ok outside)))"

definition validateRepositoryUseContext :: "jsenv \<Rightarrow> jsval \<Rightarrow> jsval \<Rightarrow> jsval \<Rightarrow> cexn + jsval" where
  "validateRepositoryUseContext E ctxt boundary githubActions =
     bindR (validateRepositoryUseBoundary E boundary) (\<lambda>_.
     bindR (needRecord ctxt) (\<lambda>_.
     bindR (assertExactObjectKeys E ctxt
              [''authority'', ''visibilityProof'', ''eventName'', ''base'', ''target'', ''relation'']) (\<lambda>_.
     let base = getp ctxt ''base''; target = getp ctxt ''target'';
         authority = getp ctxt ''authority''; proof = getp ctxt ''visibilityProof'';
         event = getp ctxt ''eventName''; expected = getp boundary ''repository'' in
     bindR (needRecord base) (\<lambda>_.
     bindR (needRecord target) (\<lambda>_.
     bindR (assertExactObjectKeys E base [''repositoryId'', ''repositoryFullName'', ''visibility'']) (\<lambda>_.
     bindR (assertExactObjectKeys E target [''repositoryId'', ''repositoryFullName'', ''visibility'', ''fork'']) (\<lambda>_.
     bindR (useIdentity E expected base) (\<lambda>_.
     bindR (useIdentity E expected target) (\<lambda>_.
     bindR (requireC (strict_eq (getp base ''visibility'') (getp target ''visibility'')
              \<and> getp target ''fork'' = JBool False \<and> is_str (getp ctxt ''relation'') ''same-repository'')
              ''target must be a non-fork source in the same repository'') (\<lambda>_.
     bindR (if is_str authority ''github-context-claim'' then
              requireC (proof = JBool False \<and> (is_str event ''push'' \<or> is_str event ''pull_request_target'')
                \<and> is_str githubActions ''true'') ''must remain an externally unverified claim''
            else
              requireC (is_str authority ''local-declaration'' \<and> proof = JBool False \<and> is_str event ''local''
                \<and> \<not> is_str githubActions ''true'') ''must remain an untrusted local declaration'') (\<lambda>_.
       Inr (JObj [(js ''authority'', authority), (js ''visibilityProof'', proof), (js ''eventName'', event),
                  (js ''base'', base), (js ''target'', target), (js ''relation'', getp ctxt ''relation'')]))))))))))))"

section \<open>OSV configuration\<close>

definition EXPECTED_OSV_CONFIGURATION :: jstring where
  "EXPECTED_OSV_CONFIGURATION = concat (map (\<lambda>l. js l @ [10])
     [''[[PackageOverrides]]'', ''name = \"reserved\"'', ''version = \"0.1.2\"'', ''ecosystem = \"npm\"'',
      ''license.override = [\"MIT\"]'', ''effectiveUntil = 2027-08-28'',
      ''reason = \"Exact npm registry metadata and the package LICENSE-MIT identify reserved@0.1.2 as MIT; deps.dev currently reports UNKNOWN.\"''])"

definition validateOsvConfiguration :: "jsenv \<Rightarrow> jsval \<Rightarrow> cexn + jsval" where
  "validateOsvConfiguration E text =
     bindR (requireC (text = JStr EXPECTED_OSV_CONFIGURATION) ''license-only override'') (\<lambda>_.
       Inr (JObj [(js ''sha256'', JStr (sha256Hex E EXPECTED_OSV_CONFIGURATION)),
                  (js ''package'', JObj [(js ''ecosystem'', JStr (js ''npm'')), (js ''name'', JStr (js ''reserved'')),
                                         (js ''version'', JStr (js ''0.1.2''))]),
                  (js ''licenseOverride'', strings [js ''MIT'']),
                  (js ''effectiveUntil'', JStr (js ''2027-08-28''))]))"

section \<open>The captured Git index\<close>

definition hex_object_id :: "jstring \<Rightarrow> bool" where
  "hex_object_id s \<longleftrightarrow> (length s = 40 \<or> length s = 64) \<and> list_all is_lower_hex s"

record git_entry =
  gi_mode :: jstring
  gi_object :: jstring
  gi_path :: jstring
  gi_stage :: nat

text \<open>\<^verbatim>\<open>/^(\d{6}) ([0-9a-f]+) ([0-3])\t([\s\S]+)$/u\<close>\<close>

definition git_record :: "jstring \<Rightarrow> git_entry option" where
  "git_record s =
     (let mode = take 6 s; r = drop 6 s; h = takeWhile is_lower_hex (tl r); q = dropWhile is_lower_hex (tl r) in
      if length mode = 6 \<and> list_all is_digit mode \<and> r \<noteq> [] \<and> hd r = 32 \<and> h \<noteq> []
         \<and> 3 < length q \<and> q ! 0 = 32 \<and> 48 \<le> q ! 1 \<and> q ! 1 \<le> 51 \<and> q ! 2 = 9
      then Some \<lparr>gi_mode = mode, gi_object = h, gi_path = drop 3 q, gi_stage = q ! 1 - 48\<rparr>
      else None)"

definition gitIndexEntry :: "git_entry list \<Rightarrow> jstring \<Rightarrow> cexn + git_entry list" where
  "gitIndexEntry entries s =
     (case git_record s of
        None \<Rightarrow> Inl (Refused ''index entry is malformed'')
      | Some e \<Rightarrow>
          bindR (validateRepositoryPath (JStr (gi_path e))) (\<lambda>_.
          bindR (requireC (hex_object_id (gi_object e)) ''object ID is invalid'') (\<lambda>_.
          bindR (requireC (gi_stage e = 0) ''unmerged stage'') (\<lambda>_.
          bindR (requireC (gi_path e \<notin> gi_path ` set entries) ''duplicate path'') (\<lambda>_.
            Inr (entries @ [e]))))))"

definition parseGitIndex :: "jsval \<Rightarrow> cexn + git_entry list" where
  "parseGitIndex v =
     (case v of
        JStr text \<Rightarrow>
          bindR (requireC (text \<noteq> []) ''index is empty'') (\<lambda>_.
          bindR (requireC (ends_with text [0]) ''index is not NUL terminated'') (\<lambda>_.
          bindR (foldR gitIndexEntry [] (split_on 0 (butlast text))) (\<lambda>entries.
          bindR (requireC (entries \<noteq> []) ''index has no entries'') (\<lambda>_. Inr entries))))
      | _ \<Rightarrow> Inl (Refused ''index is empty''))"

definition gitIndexFlag :: "jstring \<Rightarrow> cexn + unit" where
  "gitIndexFlag s =
     bindR (requireC (3 \<le> length s \<and> s ! 1 = 32) ''flag entry is malformed'') (\<lambda>_.
     bindR (validateRepositoryPath (JStr (drop 2 s))) (\<lambda>_.
       requireC (s ! 0 = 72) ''unsupported hidden or nonstandard flag''))"

definition validateGitIndexFlags :: "jsval \<Rightarrow> cexn + unit" where
  "validateGitIndexFlags v =
     (case v of
        JStr text \<Rightarrow>
          bindR (requireC (text \<noteq> [] \<and> ends_with text [0]) ''flags are empty or not NUL terminated'') (\<lambda>_.
            foldR (\<lambda>_. gitIndexFlag) () (split_on 0 (butlast text)))
      | _ \<Rightarrow> Inl (Refused ''flags are empty or not NUL terminated''))"

text \<open>Two updates of a digest hash the concatenation of their arguments.\<close>

definition gitBlobObjectId :: "jsenv \<Rightarrow> nat list \<Rightarrow> nat \<Rightarrow> cexn + jstring" where
  "gitBlobObjectId E body objectIdLength =
     (let hash = (\<lambda>a. js_hash E a (js ''blob '' @ nat_text (length body) @ [0] @ body)) in
      if objectIdLength = 40 then Inr (hash (js ''sha1''))
      else if objectIdLength = 64 then Inr (hash (js ''sha256''))
      else Inl (Refused ''object ID length is unsupported''))"

definition assertGitBlobObjectId :: "jsenv \<Rightarrow> nat list \<Rightarrow> jsval \<Rightarrow> cexn + unit" where
  "assertGitBlobObjectId E body objectId =
     (case objectId of
        JStr s \<Rightarrow>
          bindR (requireC (hex_object_id s) ''Git object ID is invalid'') (\<lambda>_.
          bindR (gitBlobObjectId E body (length s)) (\<lambda>calculated.
            requireC (calculated = s) ''bytes differ from captured Git object''))
      | _ \<Rightarrow> Inl (Refused ''Git object ID is invalid''))"

definition regular_mode :: "jstring \<Rightarrow> bool" where
  "regular_mode m \<longleftrightarrow> m = js ''100644'' \<or> m = js ''100755''"

definition requireTrackedRegularFile :: "(jstring \<times> git_entry) list \<Rightarrow> jstring \<Rightarrow> cexn + git_entry" where
  "requireTrackedRegularFile indexByPath p =
     (case map_of indexByPath p of
        None \<Rightarrow> Inl (Refused ''is not tracked'')
      | Some e \<Rightarrow> bindR (requireC (regular_mode (gi_mode e)) ''must be a tracked regular file'') (\<lambda>_. Inr e))"

section \<open>Semgrep sources\<close>

definition addExtension ::
  "jstring \<Rightarrow> (jstring \<times> jstring) list \<Rightarrow> jsval \<Rightarrow> cexn + (jstring \<times> jstring) list" where
  "addExtension languageGroup m x =
     (case x of
        JStr s \<Rightarrow> bindR (requireC (extension_pattern s \<and> s \<notin> fst ` set m) ''extension is invalid or duplicated'') (\<lambda>_.
                    Inr (m @ [(s, languageGroup)]))
      | _ \<Rightarrow> Inl (Refused ''extension is invalid or duplicated''))"

definition addGroup ::
  "(jstring \<times> jstring) list \<Rightarrow> jstring \<times> jsval \<Rightarrow> cexn + (jstring \<times> jstring) list" where
  "addGroup m g =
     (case g of
        (name, JArr extensions) \<Rightarrow>
          bindR (requireC (name \<noteq> [] \<and> extensions \<noteq> []) ''language group is invalid'') (\<lambda>_.
            foldR (addExtension name) m extensions)
      | _ \<Rightarrow> Inl (Refused ''language group is invalid''))"

text \<open>The selected files with their groups, and the counts.\<close>

definition selectFile ::
  "jsenv \<Rightarrow> (jstring \<times> jstring) list \<Rightarrow> (git_entry \<times> jstring) list \<times> jstring counts \<Rightarrow> git_entry
   \<Rightarrow> cexn + (git_entry \<times> jstring) list \<times> jstring counts" where
  "selectFile E extensionToGroup st entry =
     (case st of (selected, groupCounts) \<Rightarrow>
     (case map_of extensionToGroup (js_lower E (extname (gi_path entry))) of
        None \<Rightarrow> Inr st
      | Some languageGroup \<Rightarrow>
          bindR (requireC (regular_mode (gi_mode entry)) ''source must be a tracked regular file'') (\<lambda>_.
            Inr (selected @ [(entry, languageGroup)], bump groupCounts languageGroup))))"

definition selectTrackedSourceFiles ::
  "jsenv \<Rightarrow> git_entry list \<Rightarrow> jsval \<Rightarrow> cexn + (git_entry \<times> jstring) list \<times> jstring counts" where
  "selectTrackedSourceFiles E entries requiredLanguageGroups =
     (case requiredLanguageGroups of
        JObj groups \<Rightarrow>
          bindR (foldR addGroup [] groups) (\<lambda>extensionToGroup.
          bindR (foldR (selectFile E extensionToGroup)
                   ([], map (\<lambda>g. (g, 0)) (uniq (map snd extensionToGroup))) entries) (\<lambda>(selected, groupCounts).
          bindR (requireC (list_all (\<lambda>c. snd c \<noteq> 0) groupCounts) ''source inventory has zero files'') (\<lambda>_.
            Inr (sort_by (\<lambda>a b. js_locale_le E (gi_path (fst a)) (gi_path (fst b))) selected, groupCounts))))
      | _ \<Rightarrow> Inl (Refused ''language groups are invalid''))"

section \<open>The go.mod edit\<close>

definition validateGoModEdit :: "jsval \<Rightarrow> cexn + jsval" where
  "validateGoModEdit document =
     bindR (requireC (is_record document) ''edit JSON root is invalid'') (\<lambda>_.
     let module = getp document ''Module''; replacement = getp document ''Replace'' in
     bindR (requireC (is_record module) ''has no canonical module path'') (\<lambda>_.
     bindR (case getp module ''Path'' of
              JStr s \<Rightarrow> bindR (requireC (s \<noteq> []) ''has no canonical module path'') (\<lambda>_. Inr s)
            | _ \<Rightarrow> Inl (Refused ''has no canonical module path'')) (\<lambda>modulePath.
     bindR (requireC (replacement = JNull \<or> replacement = JArr []) ''unsupported replace directives'') (\<lambda>_.
     bindR (requireC (has_own document (js ''Replace'')) ''omits Replace inventory'') (\<lambda>_.
       Inr (JObj [(js ''modulePath'', JStr modulePath), (js ''replaceCount'', JNum (Fin 0))]))))))"

section \<open>Parity of scanned paths\<close>

definition sortedPaths :: "jsenv \<Rightarrow> jstring list \<Rightarrow> jstring list" where
  "sortedPaths E ps = sort_by (js_locale_le E) ps"

definition semgrepResult :: "jstring \<Rightarrow> jstring list \<Rightarrow> jsval \<Rightarrow> cexn + unit" where
  "semgrepResult containerRoot expected f =
     bindR (requireC (is_record f) ''result is invalid'') (\<lambda>_.
     bindR (semgrepRepositoryPath containerRoot (getp f ''path'')) (\<lambda>p.
       requireC (p \<in> set expected) ''finding path is outside exact targets''))"

definition assertSemgrepSourceParity ::
  "jsenv \<Rightarrow> jsval \<Rightarrow> jsval \<Rightarrow> jstring \<Rightarrow> cexn + nat \<times> jstring" where
  "assertSemgrepSourceParity E document expectedRepositoryPaths containerRoot =
     bindR (case document of JStr s \<Rightarrow> jsonR (parseStrictJson (DocText s)) | _ \<Rightarrow> Inr document) (\<lambda>parsed.
     bindR (requireC (is_record parsed) ''parity JSON root is invalid'') (\<lambda>_.
     bindR (case getp (getp parsed ''paths'') ''scanned'' of JArr xs \<Rightarrow> Inr xs
            | _ \<Rightarrow> Inl (Refused ''scanned path inventory is absent'')) (\<lambda>scanned.
     bindR (exactPathSet expectedRepositoryPaths) (\<lambda>expected.
     bindR (mapR (semgrepRepositoryPath containerRoot) scanned) (\<lambda>actual.
     bindR (exactPathSet (strings actual)) (\<lambda>actualSet.
     bindR (canonR E (strings (sortedPaths E actualSet))) (\<lambda>a.
     bindR (canonR E (strings (sortedPaths E expected))) (\<lambda>b.
     bindR (requireC (a = b) ''source parity failed'') (\<lambda>_.
     bindR (case coalesce (getp parsed ''results'') (JArr []) of JArr fs \<Rightarrow> Inr fs | _ \<Rightarrow> Inl Thrown) (\<lambda>findings.
     bindR (foldR (\<lambda>_. semgrepResult containerRoot expected) () findings) (\<lambda>_.
       Inr (length actual, sha256Hex E a))))))))))))"

end
