(* ===== verification/Schema.thy ===== *)
theory Schema
  imports Repository
begin

text \<open>
  The JSON-schema subset of \<^verbatim>\<open>src/scripts/supply-chain/contracts.mjs\<close>: the check that a schema uses
  supported keywords only, and the validator of a value against a schema with local references.
  The validator recurses as deep as the schema and the references lead, which may be without end;
  an argument is the depth of the call stack that is left, and exhausting it, in the validator or in
  \<^verbatim>\<open>canonicalJson\<close> below it, is the \<^verbatim>\<open>RangeError\<close> of the runtime.  The depth counts nested calls of the two
  functions, not the frames of the callbacks between them.  Regular expressions and the URL parser are parameters.
\<close>

section \<open>Exceptions and runtime\<close>

datatype sexn = SchemaError string | NativeError | StackOverflow

record webenv =
  re_test :: "jstring \<Rightarrow> jstring \<Rightarrow> bool option"
  url_protocol :: "jstring \<Rightarrow> jstring option"

definition requireS :: "bool \<Rightarrow> string \<Rightarrow> sexn + unit" where
  "requireS c m = guardR c (SchemaError m)"

lemma requireS_Inr [simp, res_simps]: "requireS c m = Inr u \<longleftrightarrow> c"
  by (simp add: requireS_def)

lemma requireS_Inl [simp, res_simps]: "requireS c m = Inl e \<longleftrightarrow> \<not> c \<and> e = SchemaError m"
  by (auto simp: requireS_def)

text \<open>\<^verbatim>\<open>canonicalJson\<close> on the stack that is left: its \<^verbatim>\<open>serialize\<close> recurses into the value as well, so a value
  that is nested deeper than the stack is a \<^verbatim>\<open>RangeError\<close>, no \<^verbatim>\<open>ContractError\<close>.  One unit of the stack stands
  for the frames of one level of nesting.\<close>

definition canonLeaf :: "json_error + 'a \<Rightarrow> sexn + 'a" where
  "canonLeaf r = (case r of Inl _ \<Rightarrow> Inl (SchemaError ''json'') | Inr t \<Rightarrow> Inr t)"

primrec canonS :: "jsenv \<Rightarrow> nat \<Rightarrow> jsval \<Rightarrow> sexn + jstring" where
  "canonS E 0 v = Inl StackOverflow"
| "canonS E (Suc n) v =
     (case v of
        JArr xs \<Rightarrow> bindR (mapR (canonS E n) xs) (\<lambda>ts. Inr ([91] @ join [44] ts @ [93]))
      | JObj fs \<Rightarrow> bindR (mapR (\<lambda>f. bindR (canonS E n (snd f)) (\<lambda>t. Inr (quote (fst f) @ [58] @ t))) (sort_key fst fs))
          (\<lambda>ts. Inr ([123] @ join [44] ts @ [125]))
      | _ \<Rightarrow> canonLeaf (canonicalJson E v))"

text \<open>\<^verbatim>\<open>xs.some(f)\<close> and the length of \<^verbatim>\<open>xs.filter(f)\<close> where \<open>f\<close> may throw.\<close>

fun someR :: "('a \<Rightarrow> 'e + bool) \<Rightarrow> 'a list \<Rightarrow> 'e + bool" where
  "someR f [] = Inr False"
| "someR f (x # xs) = bindR (f x) (\<lambda>b. if b then Inr True else someR f xs)"

fun countR :: "('a \<Rightarrow> 'e + bool) \<Rightarrow> 'a list \<Rightarrow> 'e + nat" where
  "countR f [] = Inr 0"
| "countR f (x # xs) = bindR (f x) (\<lambda>b. bindR (countR f xs) (\<lambda>n. Inr (if b then Suc n else n)))"

text \<open>\<^verbatim>\<open><\<close> on numbers.\<close>

definition num_less :: "jnum \<Rightarrow> jnum \<Rightarrow> bool" where
  "num_less x y \<longleftrightarrow>
     (case (x, y) of
        (Fin a, Fin b) \<Rightarrow> a < b | (Fin _, Infinity neg) \<Rightarrow> \<not> neg | (Infinity neg, Fin _) \<Rightarrow> neg
      | (Infinity n1, Infinity n2) \<Rightarrow> n1 \<and> \<not> n2 | _ \<Rightarrow> False)"

definition of_length :: "'a list \<Rightarrow> jnum" where
  "of_length xs = Fin (of_nat (length xs))"

section \<open>Supported keywords\<close>

definition SUPPORTED_SCHEMA_KEYWORDS :: "string list" where
  "SUPPORTED_SCHEMA_KEYWORDS =
     [''$defs'', ''$id'', ''$ref'', ''$schema'', ''additionalProperties'', ''allOf'', ''const'', ''else'',
      ''enum'', ''format'', ''if'', ''items'', ''maxItems'', ''maximum'', ''minItems'', ''minLength'',
      ''minProperties'', ''minimum'', ''not'', ''oneOf'', ''pattern'', ''properties'', ''required'', ''then'',
      ''title'', ''type'', ''uniqueItems'']"

definition values_of :: "jsval \<Rightarrow> jsval list" where
  "values_of v = (case v of JObj fs \<Rightarrow> map snd fs | _ \<Rightarrow> [])"

definition elements_of :: "jsval \<Rightarrow> jsval list" where
  "elements_of v = (case v of JArr xs \<Rightarrow> xs | _ \<Rightarrow> [])"

definition isArray :: "jsval \<Rightarrow> bool" where
  "isArray v \<longleftrightarrow> (case v of JArr _ \<Rightarrow> True | _ \<Rightarrow> False)"

text \<open>\<^verbatim>\<open>typeof v === "object"\<close>\<close>

definition is_object_type :: "jsval \<Rightarrow> bool" where
  "is_object_type v \<longleftrightarrow> v = JNull \<or> isArray v \<or> is_record v"

lemma size_getp: "getp v k \<noteq> JUndef \<Longrightarrow> size (getp v k) < size v"
proof -
  assume a: "getp v k \<noteq> JUndef"
  then obtain fs where v: "v = JObj fs" by (cases v) (auto simp: getp_def)
  with a obtain x where m: "map_of fs (js k) = Some x" and g: "getp v k = x"
    by (auto simp: getp_def split: option.splits)
  from m have "(js k, x) \<in> set fs" by (rule map_of_SomeD)
  from size_list_mem[OF this, of snd] have "size x < size_list (\<lambda>y. size (snd y)) fs" by simp
  also have "\<dots> \<le> size_list (size_prod (\<lambda>_. 0) size) fs"
    by (rule size_list_pointwise) (auto simp: size_prod_simp)
  finally show ?thesis unfolding g unfolding v by simp
qed

lemma size_values_of: "x \<in> set (values_of v) \<Longrightarrow> size x < size v"
proof -
  assume a: "x \<in> set (values_of v)"
  then obtain fs p where v: "v = JObj fs" and p: "p \<in> set fs" "x = snd p" by (cases v) (auto simp: values_of_def)
  from size_list_mem[OF p(1), of snd] have "size x < size_list (\<lambda>y. size (snd y)) fs" using p(2) by simp
  also have "\<dots> \<le> size_list (size_prod (\<lambda>_. 0) size) fs"
    by (rule size_list_pointwise) (auto simp: size_prod_simp)
  finally show ?thesis by (simp add: v)
qed

lemma size_elements_of: "x \<in> set (elements_of v) \<Longrightarrow> size x < size v"
proof -
  assume a: "x \<in> set (elements_of v)"
  then obtain xs where v: "v = JArr xs" "x \<in> set xs" by (cases v) (auto simp: elements_of_def)
  then show ?thesis using size_list_mem[of x xs "\<lambda>y. y"] by simp
qed

function validateSupportedSchemaKeywords :: "jsval \<Rightarrow> cexn + unit" where
  "validateSupportedSchemaKeywords c =
     bindR (needRecord c) (\<lambda>_.
     bindR (requireC (list_all (\<lambda>k. k \<in> set (map js SUPPORTED_SCHEMA_KEYWORDS)) (keys_of c))
              ''unsupported keyword'') (\<lambda>_.
     bindR (foldR (\<lambda>_ name.
              if getp c name = JUndef then Inr ()
              else bindR (needRecord (getp c name)) (\<lambda>_.
                foldR (\<lambda>_ child. validateSupportedSchemaKeywords child) () (values_of (getp c name))))
              () [''$defs'', ''properties'']) (\<lambda>_.
     bindR (if getp c ''items'' = JUndef then Inr () else validateSupportedSchemaKeywords (getp c ''items'')) (\<lambda>_.
     bindR (if getp c ''additionalProperties'' \<noteq> JUndef \<and> is_object_type (getp c ''additionalProperties'')
            then validateSupportedSchemaKeywords (getp c ''additionalProperties'') else Inr ()) (\<lambda>_.
     bindR (foldR (\<lambda>_ name.
              if getp c name = JUndef then Inr ()
              else bindR (requireC (isArray (getp c name)) ''must be an array'') (\<lambda>_.
                foldR (\<lambda>_ child. validateSupportedSchemaKeywords child) () (elements_of (getp c name))))
              () [''allOf'', ''oneOf'']) (\<lambda>_.
       foldR (\<lambda>_ name. if getp c name = JUndef then Inr () else validateSupportedSchemaKeywords (getp c name))
         () [''if'', ''then'', ''else'', ''not'']))))))"
  by pat_completeness auto
termination
  by (relation "measure size")
    (auto dest: size_getp size_values_of size_elements_of intro: less_trans[OF size_values_of size_getp]
      less_trans[OF size_elements_of size_getp])

declare validateSupportedSchemaKeywords.simps [simp del]

section \<open>References\<close>

text \<open>\<^verbatim>\<open>s.replaceAll("~1", "/")\<close> for a pair of units and one unit.\<close>

fun replace_pair :: "nat \<Rightarrow> nat \<Rightarrow> nat \<Rightarrow> jstring \<Rightarrow> jstring" where
  "replace_pair a b d (x # y # s) =
     (if x = a \<and> y = b then d # replace_pair a b d s else x # replace_pair a b d (y # s))"
| "replace_pair a b d s = s"

definition pointer_segment :: "jstring \<Rightarrow> jstring" where
  "pointer_segment s = replace_pair 126 48 126 (replace_pair 126 49 47 s)"

text \<open>The own property of an object or an array.\<close>

definition own_property :: "jsval \<Rightarrow> jstring \<Rightarrow> jsval option" where
  "own_property v k =
     (case v of
        JObj fs \<Rightarrow> map_of fs k
      | JArr xs \<Rightarrow>
          if k = js ''length'' then Some (JNum (of_length xs))
          else map_option (nth xs) (find (\<lambda>i. nat_text i = k) [0..<length xs])
      | _ \<Rightarrow> None)"

definition resolveSegment :: "jsval \<Rightarrow> jstring \<Rightarrow> sexn + jsval" where
  "resolveSegment resolved raw =
     (case own_property resolved (pointer_segment raw) of
        None \<Rightarrow> Inl (SchemaError ''schema reference is unresolved'')
      | Some v \<Rightarrow> Inr v)"

definition resolveReference :: "jsval \<Rightarrow> jsval \<Rightarrow> sexn + jsval" where
  "resolveReference rootSchema ref =
     (case ref of
        JStr s \<Rightarrow>
          bindR (requireS (starts_with s (js ''#/'')) ''unsupported schema reference'') (\<lambda>_.
            foldR resolveSegment rootSchema (split_on 47 (drop 2 s)))
      | _ \<Rightarrow> Inl (SchemaError ''unsupported schema reference''))"

section \<open>The validator\<close>

text \<open>\<open>rec\<close> validates a value against a subschema; \<open>n\<close> is the stack left for \<^verbatim>\<open>canonicalJson\<close>.\<close>

type_synonym validator = "jsval \<Rightarrow> jsval \<Rightarrow> sexn + unit"

definition schemaMatches :: "validator \<Rightarrow> jsval \<Rightarrow> jsval \<Rightarrow> sexn + bool" where
  "schemaMatches rec v c =
     (case rec v c of Inr _ \<Rightarrow> Inr True | Inl (SchemaError _) \<Rightarrow> Inr False | Inl e \<Rightarrow> Inl e)"

definition schemaTypeMatches :: "jsval \<Rightarrow> jsval \<Rightarrow> sexn + bool" where
  "schemaTypeMatches v type =
     (if is_str type ''null'' then Inr (v = JNull)
      else if is_str type ''array'' then Inr (isArray v)
      else if is_str type ''object'' then Inr (is_record v)
      else if is_str type ''integer'' then Inr (case v of JNum x \<Rightarrow> is_integer x | _ \<Rightarrow> False)
      else if is_str type ''number'' then Inr (case v of JNum x \<Rightarrow> is_finite x | _ \<Rightarrow> False)
      else if is_str type ''string'' then Inr (case v of JStr _ \<Rightarrow> True | _ \<Rightarrow> False)
      else if is_str type ''boolean'' then Inr (case v of JBool _ \<Rightarrow> True | _ \<Rightarrow> False)
      else Inl (SchemaError ''unsupported schema type''))"

definition checkReference :: "jsval \<Rightarrow> validator \<Rightarrow> jsval \<Rightarrow> jsval \<Rightarrow> sexn + unit" where
  "checkReference rootSchema rec v c =
     (let ref = getp c ''$ref'' in
      if ref = JUndef then Inr () else bindR (resolveReference rootSchema ref) (\<lambda>r. rec v r))"

definition checkAllOf :: "validator \<Rightarrow> jsval \<Rightarrow> jsval \<Rightarrow> sexn + unit" where
  "checkAllOf rec v c = foldR (\<lambda>_. rec v) () (elements_of (getp c ''allOf''))"

definition checkConditional :: "validator \<Rightarrow> jsval \<Rightarrow> jsval \<Rightarrow> sexn + unit" where
  "checkConditional rec v c =
     (if getp c ''if'' = JUndef then Inr ()
      else bindR (schemaMatches rec v (getp c ''if'')) (\<lambda>b.
           let branch = getp c (if b then ''then'' else ''else'') in
           if branch = JUndef then Inr () else rec v branch))"

definition checkOneOf :: "validator \<Rightarrow> jsval \<Rightarrow> jsval \<Rightarrow> sexn + unit" where
  "checkOneOf rec v c =
     (case getp c ''oneOf'' of
        JArr cs \<Rightarrow> bindR (countR (schemaMatches rec v) cs) (\<lambda>n. requireS (n = 1) ''violates schema oneOf'')
      | _ \<Rightarrow> Inr ())"

definition checkNot :: "validator \<Rightarrow> jsval \<Rightarrow> jsval \<Rightarrow> sexn + unit" where
  "checkNot rec v c =
     (if getp c ''not'' = JUndef then Inr ()
      else bindR (schemaMatches rec v (getp c ''not'')) (\<lambda>b. requireS (\<not> b) ''violates schema not''))"

definition checkType :: "jsval \<Rightarrow> jsval \<Rightarrow> sexn + unit" where
  "checkType v c =
     (let type = getp c ''type''; types = (case type of JArr ts \<Rightarrow> ts | _ \<Rightarrow> [type]) in
      if type = JUndef then Inr ()
      else bindR (someR (schemaTypeMatches v) types) (\<lambda>b. requireS b ''violates schema type''))"

definition checkConst :: "jsenv \<Rightarrow> nat \<Rightarrow> jsval \<Rightarrow> jsval \<Rightarrow> sexn + unit" where
  "checkConst E n v c =
     (if \<not> has_own c (js ''const'') then Inr ()
      else bindR (canonS E n v) (\<lambda>a. bindR (canonS E n (getp c ''const'')) (\<lambda>b.
           requireS (a = b) ''violates schema const'')))"

definition checkEnum :: "jsenv \<Rightarrow> nat \<Rightarrow> jsval \<Rightarrow> jsval \<Rightarrow> sexn + unit" where
  "checkEnum E n v c =
     (case getp c ''enum'' of
        JArr cs \<Rightarrow> bindR (someR (\<lambda>x. bindR (canonS E n x) (\<lambda>a. bindR (canonS E n v) (\<lambda>b. Inr (a = b)))) cs) (\<lambda>b.
                     requireS b ''violates schema enum'')
      | _ \<Rightarrow> Inr ())"

text \<open>Bounds: \<open>below\<close> is the comparison with a keyword that, when the keyword is there, must fail.\<close>

definition checkBelow :: "jsenv \<Rightarrow> jnum \<Rightarrow> jsval \<Rightarrow> string \<Rightarrow> sexn + unit" where
  "checkBelow E x c k =
     requireS (getp c k = JUndef \<or> \<not> num_less x (to_number E (getp c k))) k"

definition checkAbove :: "jsenv \<Rightarrow> jnum \<Rightarrow> jsval \<Rightarrow> string \<Rightarrow> sexn + unit" where
  "checkAbove E x c k =
     requireS (getp c k = JUndef \<or> \<not> num_less (to_number E (getp c k)) x) k"

definition checkText :: "jsenv \<Rightarrow> webenv \<Rightarrow> jsval \<Rightarrow> jsval \<Rightarrow> sexn + unit" where
  "checkText E W v c =
     (case v of
        JStr s \<Rightarrow>
          bindR (checkBelow E (of_length s) c ''minLength'') (\<lambda>_.
          if getp c ''pattern'' = JUndef then Inr ()
          else case re_test W (to_text E (getp c ''pattern'')) s of
            None \<Rightarrow> Inl NativeError
          | Some b \<Rightarrow> requireS b ''violates schema pattern'')
      | _ \<Rightarrow> Inr ())"

definition checkNumber :: "jsenv \<Rightarrow> jsval \<Rightarrow> jsval \<Rightarrow> sexn + unit" where
  "checkNumber E v c =
     (case v of
        JNum x \<Rightarrow> bindR (checkBelow E x c ''minimum'') (\<lambda>_. checkAbove E x c ''maximum'')
      | _ \<Rightarrow> Inr ())"

definition checkArray :: "jsenv \<Rightarrow> nat \<Rightarrow> jsval \<Rightarrow> jsval \<Rightarrow> sexn + unit" where
  "checkArray E n v c =
     (case v of
        JArr xs \<Rightarrow>
          bindR (checkBelow E (of_length xs) c ''minItems'') (\<lambda>_.
          bindR (checkAbove E (of_length xs) c ''maxItems'') (\<lambda>_.
          if getp c ''uniqueItems'' = JBool True
          then bindR (mapR (canonS E n) xs) (\<lambda>identities.
               requireS (length (uniq identities) = length identities) ''violates schema uniqueItems'')
          else Inr ()))
      | _ \<Rightarrow> Inr ())"

definition checkMinProperties :: "jsenv \<Rightarrow> jsval \<Rightarrow> jsval \<Rightarrow> sexn + unit" where
  "checkMinProperties E v c =
     (if is_record v then checkBelow E (of_length (keys_of v)) c ''minProperties'' else Inr ())"

definition checkFormat :: "jsenv \<Rightarrow> webenv \<Rightarrow> jsval \<Rightarrow> jsval \<Rightarrow> sexn + unit" where
  "checkFormat E W v c =
     bindR (if is_str (getp c ''format'') ''date-time''
            then requireS (case v of JStr s \<Rightarrow> is_finite (js_date_parse E s) \<and> js_iso E (js_date_parse E s) = s
                           | _ \<Rightarrow> False) ''violates schema date-time format''
            else Inr ()) (\<lambda>_.
     if is_str (getp c ''format'') ''uri''
     then requireS (case v of JStr s \<Rightarrow> (case url_protocol W s of None \<Rightarrow> False | Some p \<Rightarrow> p \<noteq> [])
                    | _ \<Rightarrow> True) ''violates schema uri format''
     else Inr ())"

definition checkItems :: "validator \<Rightarrow> jsval \<Rightarrow> jsval \<Rightarrow> sexn + unit" where
  "checkItems rec v c =
     (if isArray v \<and> getp c ''items'' \<noteq> JUndef
      then foldR (\<lambda>_ x. rec x (getp c ''items'')) () (elements_of v) else Inr ())"

definition checkRequired :: "jsval \<Rightarrow> jsval \<Rightarrow> sexn + unit" where
  "checkRequired v c =
     (let required = getp c ''required'' in
      if required = JUndef then Inr ()
      else bindR (requireS (isArray required
                      \<and> list_all (\<lambda>x. case x of JStr _ \<Rightarrow> True | _ \<Rightarrow> False) (elements_of required)
                      \<and> distinct (elements_of required)) ''schema required fields are invalid'') (\<lambda>_.
           requireS (list_all (\<lambda>x. case x of JStr name \<Rightarrow> has_own v name | _ \<Rightarrow> False) (elements_of required))
             ''schema requires a property''))"

definition checkProperties :: "validator \<Rightarrow> jsval \<Rightarrow> jsval \<Rightarrow> sexn + unit" where
  "checkProperties rec v c =
     foldR (\<lambda>_ p. case own_property v (fst p) of None \<Rightarrow> Inr () | Some x \<Rightarrow> rec x (snd p))
       () (case getp c ''properties'' of JObj ps \<Rightarrow> ps | _ \<Rightarrow> [])"

definition checkAdditional :: "jsval \<Rightarrow> jsval \<Rightarrow> sexn + unit" where
  "checkAdditional v c =
     requireS (getp c ''additionalProperties'' = JBool False \<longrightarrow>
                 set (keys_of v) \<subseteq> set (keys_of (getp c ''properties''))) ''schema rejects property''"

definition checkObject :: "validator \<Rightarrow> jsval \<Rightarrow> jsval \<Rightarrow> sexn + unit" where
  "checkObject rec v c =
     (if is_record v
      then bindR (checkRequired v c) (\<lambda>_. bindR (checkProperties rec v c) (\<lambda>_. checkAdditional v c))
      else Inr ())"

definition schemaBody :: "jsenv \<Rightarrow> webenv \<Rightarrow> nat \<Rightarrow> jsval \<Rightarrow> validator \<Rightarrow> validator" where
  "schemaBody E W n rootSchema rec v c =
     bindR (requireS (is_record c) ''must be an object'') (\<lambda>_.
     bindR (checkReference rootSchema rec v c) (\<lambda>_.
     bindR (checkAllOf rec v c) (\<lambda>_.
     bindR (checkConditional rec v c) (\<lambda>_.
     bindR (checkOneOf rec v c) (\<lambda>_.
     bindR (checkNot rec v c) (\<lambda>_.
     bindR (checkType v c) (\<lambda>_.
     bindR (checkConst E n v c) (\<lambda>_.
     bindR (checkEnum E n v c) (\<lambda>_.
     bindR (checkText E W v c) (\<lambda>_.
     bindR (checkNumber E v c) (\<lambda>_.
     bindR (checkArray E n v c) (\<lambda>_.
     bindR (checkMinProperties E v c) (\<lambda>_.
     bindR (checkFormat E W v c) (\<lambda>_.
     bindR (checkItems rec v c) (\<lambda>_.
       checkObject rec v c)))))))))))))))"

primrec validateSchemaValue :: "jsenv \<Rightarrow> webenv \<Rightarrow> jsval \<Rightarrow> nat \<Rightarrow> validator" where
  "validateSchemaValue E W rootSchema 0 = (\<lambda>v c. Inl StackOverflow)"
| "validateSchemaValue E W rootSchema (Suc n) = schemaBody E W n rootSchema (validateSchemaValue E W rootSchema n)"

definition liftS :: "sexn + 'a \<Rightarrow> cexn + 'a" where
  "liftS r = (case r of Inr x \<Rightarrow> Inr x | Inl (SchemaError m) \<Rightarrow> Inl (Refused m) | Inl _ \<Rightarrow> Inl Thrown)"

definition validateEvidenceAgainstSchema :: "jsenv \<Rightarrow> webenv \<Rightarrow> nat \<Rightarrow> jsval \<Rightarrow> jsval \<Rightarrow> cexn + unit" where
  "validateEvidenceAgainstSchema E W stack evidence schema =
     bindR (needRecord schema) (\<lambda>_.
     bindR (validateSupportedSchemaKeywords schema) (\<lambda>_.
       liftS (validateSchemaValue E W schema stack evidence schema)))"

end
