(* ===== verification/Schema_Props.thy ===== *)
theory Schema_Props
  imports Schema
begin

text \<open>
  The validator against the meaning of the keywords: its verdict does not depend on the depth of
  the call stack, it is the verdict of the keywords read declaratively, each written out over the
  value and the schema, and for schemas without references it is always reached on a stack that is
  deeper than schema and value are nested.
\<close>

section \<open>Depth of the stack\<close>

text \<open>A computation agrees with another unless the stack overflows.\<close>

definition upto :: "sexn + 'a \<Rightarrow> sexn + 'a \<Rightarrow> bool" where
  "upto a b \<longleftrightarrow> a = Inl StackOverflow \<or> b = a"

named_theorems upto_intros \<open>agreement up to the stack\<close>

lemma upto_refl [upto_intros]: "upto a a"
  by (simp add: upto_def)

lemma upto_bind [upto_intros]:
  "upto m m' \<Longrightarrow> (\<And>x. upto (f x) (f' x)) \<Longrightarrow> upto (bindR m f) (bindR m' f')"
  by (auto simp: upto_def bindR_def split: sum.splits)

lemma upto_if [upto_intros]: "(c \<Longrightarrow> upto a a') \<Longrightarrow> (\<not> c \<Longrightarrow> upto b b') \<Longrightarrow> upto (if c then a else b) (if c then a' else b')"
  by simp

lemma upto_fold [upto_intros]: "(\<And>u x. upto (f u x) (f' u x)) \<Longrightarrow> upto (foldR f s xs) (foldR f' s xs)"
proof (induction xs arbitrary: s)
  case (Cons x xs)
  then show ?case by (simp add: upto_bind)
qed (simp add: upto_refl)

lemma upto_count [upto_intros]: "(\<And>x. upto (f x) (f' x)) \<Longrightarrow> upto (countR f xs) (countR f' xs)"
  by (induction xs) (auto intro!: upto_intros)

lemma upto_option [upto_intros]:
  "upto a a' \<Longrightarrow> (\<And>x. upto (f x) (f' x)) \<Longrightarrow>
     upto (case y of None \<Rightarrow> a | Some x \<Rightarrow> f x) (case y of None \<Rightarrow> a' | Some x \<Rightarrow> f' x)"
  by (cases y) auto

lemma upto_array [upto_intros]:
  "(\<And>xs. upto (f xs) (f' xs)) \<Longrightarrow> upto a a' \<Longrightarrow>
     upto (case v of JArr xs \<Rightarrow> f xs | _ \<Rightarrow> a) (case v of JArr xs \<Rightarrow> f' xs | _ \<Rightarrow> a')"
  by (cases v) auto

lemma upto_map [upto_intros]: "(\<And>x. upto (f x) (f' x)) \<Longrightarrow> upto (mapR f xs) (mapR f' xs)"
  by (induction xs) (auto intro!: upto_intros)

lemma upto_some [upto_intros]: "(\<And>x. upto (f x) (f' x)) \<Longrightarrow> upto (someR f xs) (someR f' xs)"
  by (induction xs) (auto intro!: upto_intros)

lemma upto_value:
  "(\<And>xs. upto (f xs) (f' xs)) \<Longrightarrow> (\<And>fs. upto (g fs) (g' fs)) \<Longrightarrow>
     upto (case v of JArr xs \<Rightarrow> f xs | JObj fs \<Rightarrow> g fs | _ \<Rightarrow> a) (case v of JArr xs \<Rightarrow> f' xs | JObj fs \<Rightarrow> g' fs | _ \<Rightarrow> a)"
  by (cases v) (auto intro: upto_refl)

lemma upto_canon [upto_intros]: "upto (canonS E n v) (canonS E (n + k) v)"
proof (induction n arbitrary: v)
  case (Suc n)
  show ?case unfolding add_Suc canonS.simps by (intro upto_value upto_intros Suc)
qed (simp add: upto_def)

text \<open>The canonical text on a stack is that of \<^verbatim>\<open>canonicalJson\<close>.\<close>

lemma canonLeaf_Inr: "canonLeaf (Inr x) = Inr x"
  by (simp add: canonLeaf_def)

lemma canonLeaf_bind: "canonLeaf (bindR m f) = bindR (canonLeaf m) (\<lambda>x. canonLeaf (f x))"
  by (cases m) (simp_all add: canonLeaf_def)

lemma canonLeaf_map: "canonLeaf (mapR f xs) = mapR (\<lambda>x. canonLeaf (f x)) xs"
  by (induction xs) (simp_all only: mapR.simps canonLeaf_bind canonLeaf_Inr)

lemma upto_canonical: "upto (canonS E n v) (canonLeaf (canonicalJson E v))"
proof (induction n arbitrary: v)
  case (Suc n)
  show ?case
  proof (cases v)
    case (JArr xs)
    show ?thesis
      unfolding JArr canonS.simps jsval.case canonicalJson.simps canonLeaf_bind canonLeaf_map canonLeaf_Inr
      by (intro upto_intros Suc)
  next
    case (JObj fs)
    show ?thesis
      unfolding JObj canonS.simps jsval.case canonicalJson.simps canonLeaf_bind canonLeaf_map canonLeaf_Inr
      by (intro upto_intros Suc)
  qed (simp_all only: canonS.simps jsval.case upto_refl)
qed (simp add: upto_def)

lemma canonS_cases: "canonS E n v = Inl StackOverflow \<or> canonS E n v = canonLeaf (canonicalJson E v)"
  using upto_canonical[of E n v] by (auto simp: upto_def)

locale validator_order =
  fixes lo hi :: validator
  assumes order: "upto (lo v c) (hi v c)"
begin

lemma matches [upto_intros]: "upto (schemaMatches lo v c) (schemaMatches hi v c)"
  using order[of v c] by (auto simp: upto_def schemaMatches_def)

lemma body: "upto (schemaBody E W n r lo v c) (schemaBody E W (n + k) r hi v c)"
  unfolding schemaBody_def checkReference_def checkAllOf_def checkConditional_def checkOneOf_def checkNot_def
    checkConst_def checkEnum_def checkArray_def checkItems_def checkObject_def checkProperties_def Let_def
  by (intro upto_intros order matches)

end

lemma validator_order_stack: "validator_order (validateSchemaValue E W r n) (validateSchemaValue E W r (n + k))"
proof (induction n)
  case 0
  show ?case by unfold_locales (simp add: upto_def)
next
  case (Suc n)
  show ?case by unfold_locales (simp add: validator_order.body[OF Suc])
qed

interpretation stack_order: validator_order "validateSchemaValue E W r n" "validateSchemaValue E W r (n + k)" for E W r n k
  by (rule validator_order_stack)

text \<open>The verdict does not depend on the depth of the stack: a validation that does not overflow
  gives the same result, verdict or exception, on every deeper stack.\<close>

theorem verdict_is_independent_of_the_stack:
  "case validateSchemaValue E W rootSchema n v c of
     Inl StackOverflow \<Rightarrow> True
   | r \<Rightarrow> validateSchemaValue E W rootSchema (n + k) v c = r"
  using stack_order.order[of E W rootSchema n v c k]
  by (auto simp: upto_def split: sum.splits sexn.splits)

section \<open>Meaning of the keywords\<close>

text \<open>Two values have one canonical text, and a value has one.\<close>

definition same_json :: "jsenv \<Rightarrow> jsval \<Rightarrow> jsval \<Rightarrow> bool" where
  "same_json E v w \<longleftrightarrow> (\<exists>t. canonicalJson E v = Inr t \<and> canonicalJson E w = Inr t)"

definition has_text :: "jsenv \<Rightarrow> jsval \<Rightarrow> bool" where
  "has_text E v \<longleftrightarrow> (\<exists>t. canonicalJson E v = Inr t)"

text \<open>A value is of a named type.\<close>

definition of_type :: "jsval \<Rightarrow> string \<Rightarrow> bool" where
  "of_type v t \<longleftrightarrow>
     (t = ''null'' \<and> v = JNull) \<or> (t = ''array'' \<and> (\<exists>xs. v = JArr xs)) \<or> (t = ''object'' \<and> (\<exists>fs. v = JObj fs))
     \<or> (t = ''integer'' \<and> (\<exists>i. v = JNum (Fin (of_int i)))) \<or> (t = ''number'' \<and> (\<exists>r. v = JNum (Fin r)))
     \<or> (t = ''string'' \<and> (\<exists>s. v = JStr s)) \<or> (t = ''boolean'' \<and> (\<exists>b. v = JBool b))"

definition type_names :: "string list" where
  "type_names = [''null'', ''array'', ''object'', ''integer'', ''number'', ''string'', ''boolean'']"

text \<open>\<^verbatim>\<open>type\<close>: the value is of one of the types, and those named before it are supported.\<close>

definition type_holds :: "jsval \<Rightarrow> jsval \<Rightarrow> bool" where
  "type_holds v c \<longleftrightarrow> getp c ''type'' = JUndef
     \<or> (\<exists>xs t ys. (getp c ''type'' = JArr (xs @ JStr (js t) # ys) \<or> getp c ''type'' = JStr (js t) \<and> xs = [])
          \<and> of_type v t \<and> (\<forall>x \<in> set xs. \<exists>u \<in> set type_names. x = JStr (js u)))"

definition const_holds :: "jsenv \<Rightarrow> jsval \<Rightarrow> jsval \<Rightarrow> bool" where
  "const_holds E v c \<longleftrightarrow> (js ''const'' \<in> set (keys_of c) \<longrightarrow> same_json E v (getp c ''const''))"

text \<open>\<^verbatim>\<open>enum\<close>: the value is one of the candidates, and those before it are JSON values.\<close>

definition enum_holds :: "jsenv \<Rightarrow> jsval \<Rightarrow> jsval \<Rightarrow> bool" where
  "enum_holds E v c \<longleftrightarrow> (\<forall>cs. getp c ''enum'' = JArr cs \<longrightarrow>
     (\<exists>xs x ys. cs = xs @ x # ys \<and> same_json E x v \<and> (\<forall>y \<in> set xs. has_text E y)))"

text \<open>The order of numbers; a comparison with \<^verbatim>\<open>NaN\<close> fails.\<close>

definition smaller :: "jnum \<Rightarrow> jnum \<Rightarrow> bool" where
  "smaller x y \<longleftrightarrow> (\<exists>a b. x = Fin a \<and> y = Fin b \<and> a < b) \<or> (\<exists>a. x = Fin a \<and> y = Infinity False)
     \<or> (\<exists>b. x = Infinity True \<and> y = Fin b) \<or> (x = Infinity True \<and> y = Infinity False)"

definition at_least :: "jsenv \<Rightarrow> jnum \<Rightarrow> jsval \<Rightarrow> string \<Rightarrow> bool" where
  "at_least E x c k \<longleftrightarrow> (getp c k \<noteq> JUndef \<longrightarrow> \<not> smaller x (to_number E (getp c k)))"

definition at_most :: "jsenv \<Rightarrow> jnum \<Rightarrow> jsval \<Rightarrow> string \<Rightarrow> bool" where
  "at_most E x c k \<longleftrightarrow> (getp c k \<noteq> JUndef \<longrightarrow> \<not> smaller (to_number E (getp c k)) x)"

definition text_holds :: "jsenv \<Rightarrow> webenv \<Rightarrow> jsval \<Rightarrow> jsval \<Rightarrow> bool" where
  "text_holds E W v c \<longleftrightarrow> (\<forall>s. v = JStr s \<longrightarrow> at_least E (Fin (of_nat (length s))) c ''minLength''
     \<and> (getp c ''pattern'' \<noteq> JUndef \<longrightarrow> re_test W (to_text E (getp c ''pattern'')) s = Some True))"

definition number_holds :: "jsenv \<Rightarrow> jsval \<Rightarrow> jsval \<Rightarrow> bool" where
  "number_holds E v c \<longleftrightarrow> (\<forall>x. v = JNum x \<longrightarrow> at_least E x c ''minimum'' \<and> at_most E x c ''maximum'')"

definition array_holds :: "jsenv \<Rightarrow> jsval \<Rightarrow> jsval \<Rightarrow> bool" where
  "array_holds E v c \<longleftrightarrow> (\<forall>xs. v = JArr xs \<longrightarrow>
     at_least E (Fin (of_nat (length xs))) c ''minItems'' \<and> at_most E (Fin (of_nat (length xs))) c ''maxItems''
     \<and> (getp c ''uniqueItems'' = JBool True \<longrightarrow>
          list_all (has_text E) xs \<and> distinct (map (canonicalJson E) xs)))"

definition size_holds :: "jsenv \<Rightarrow> jsval \<Rightarrow> jsval \<Rightarrow> bool" where
  "size_holds E v c \<longleftrightarrow> (\<forall>fs. v = JObj fs \<longrightarrow> at_least E (Fin (of_nat (length fs))) c ''minProperties'')"

definition format_holds :: "jsenv \<Rightarrow> webenv \<Rightarrow> jsval \<Rightarrow> jsval \<Rightarrow> bool" where
  "format_holds E W v c \<longleftrightarrow>
     (getp c ''format'' = JStr (js ''date-time'') \<longrightarrow>
        (\<exists>s x. v = JStr s \<and> js_date_parse E s = Fin x \<and> js_iso E (Fin x) = s))
     \<and> (getp c ''format'' = JStr (js ''uri'') \<longrightarrow>
        (\<forall>s. v = JStr s \<longrightarrow> (\<exists>p. url_protocol W s = Some p \<and> p \<noteq> [])))"

definition required_holds :: "jsval \<Rightarrow> jsval \<Rightarrow> bool" where
  "required_holds v c \<longleftrightarrow> (getp c ''required'' \<noteq> JUndef \<longrightarrow>
     (\<exists>names. getp c ''required'' = JArr (map JStr names) \<and> distinct names \<and> (\<forall>k \<in> set names. k \<in> set (keys_of v))))"

definition additional_holds :: "jsval \<Rightarrow> jsval \<Rightarrow> bool" where
  "additional_holds v c \<longleftrightarrow> (getp c ''additionalProperties'' = JBool False \<longrightarrow>
     (\<forall>k \<in> set (keys_of v). \<exists>ps s. getp c ''properties'' = JObj ps \<and> (k, s) \<in> set ps))"

text \<open>The keywords without subschemas.\<close>

definition local_keywords :: "jsenv \<Rightarrow> webenv \<Rightarrow> jsval \<Rightarrow> jsval \<Rightarrow> bool" where
  "local_keywords E W v c \<longleftrightarrow>
     type_holds v c \<and> const_holds E v c \<and> enum_holds E v c \<and> text_holds E W v c
     \<and> number_holds E v c \<and> array_holds E v c \<and> size_holds E v c \<and> format_holds E W v c"

text \<open>A JSON pointer: \<open>~1\<close> stands for a slash and \<open>~0\<close> for a tilde, and each segment is an own property.\<close>

fun unescaped :: "jstring \<Rightarrow> jstring" where
  "unescaped (x # y # s) =
     (if x = 126 \<and> y = 48 then 126 # unescaped s
      else if x = 126 \<and> y = 49 then 47 # unescaped s else x # unescaped (y # s))"
| "unescaped s = s"

primrec points_to :: "jsval \<Rightarrow> jstring list \<Rightarrow> jsval \<Rightarrow> bool" where
  "points_to v [] w \<longleftrightarrow> w = v"
| "points_to v (k # ks) w \<longleftrightarrow> (\<exists>u. own_property v (unescaped k) = Some u \<and> points_to u ks w)"

definition refers_to :: "jsval \<Rightarrow> jsval \<Rightarrow> jsval \<Rightarrow> bool" where
  "refers_to rootSchema ref w \<longleftrightarrow> (\<exists>p. ref = JStr (js ''#/'' @ p) \<and> points_to rootSchema (split_on 47 p) w)"

text \<open>What a schema says of a value, given what its subschemas say.\<close>

definition schema_holds ::
  "jsenv \<Rightarrow> webenv \<Rightarrow> jsval \<Rightarrow> (jsval \<Rightarrow> jsval \<Rightarrow> bool) \<Rightarrow> jsval \<Rightarrow> jsval \<Rightarrow> bool" where
  "schema_holds E W rootSchema P v c \<longleftrightarrow>
     is_record c
     \<and> (getp c ''$ref'' = JUndef \<or> (\<exists>r. refers_to rootSchema (getp c ''$ref'') r \<and> P v r))
     \<and> (\<forall>b \<in> set (elements_of (getp c ''allOf'')). P v b)
     \<and> (getp c ''if'' = JUndef
         \<or> (let branch = getp c (if P v (getp c ''if'') then ''then'' else ''else'') in branch = JUndef \<or> P v branch))
     \<and> (isArray (getp c ''oneOf'') \<longrightarrow> length (filter (P v) (elements_of (getp c ''oneOf''))) = 1)
     \<and> (getp c ''not'' = JUndef \<or> \<not> P v (getp c ''not''))
     \<and> local_keywords E W v c
     \<and> (isArray v \<and> getp c ''items'' \<noteq> JUndef \<longrightarrow> (\<forall>x \<in> set (elements_of v). P x (getp c ''items'')))
     \<and> (is_record v \<longrightarrow> required_holds v c \<and> additional_holds v c
         \<and> (\<forall>ps k s x. getp c ''properties'' = JObj ps \<and> (k, s) \<in> set ps \<and> own_property v k = Some x \<longrightarrow> P x s))"

text \<open>A computation has a meaning when it succeeds only if the meaning holds and refuses only if it
  does not; a native exception says nothing.\<close>

definition means :: "sexn + unit \<Rightarrow> bool \<Rightarrow> bool" where
  "means r q \<longleftrightarrow> (r = Inr () \<longrightarrow> q) \<and> (\<forall>m. r = Inl (SchemaError m) \<longrightarrow> \<not> q)"

definition tells :: "sexn + 'a \<Rightarrow> 'a \<Rightarrow> bool" where
  "tells r x \<longleftrightarrow> (case r of Inr y \<Rightarrow> y = x | Inl e \<Rightarrow> \<forall>m. e \<noteq> SchemaError m)"

lemma means_Inr: "means (Inr ()) q \<longleftrightarrow> q"
  by (simp add: means_def)

lemma means_require: "means (requireS c m) c"
  by (auto simp: means_def)

lemma means_bind: "means m p \<Longrightarrow> means f q \<Longrightarrow> means (bindR m (\<lambda>_. f)) (p \<and> q)"
  by (auto simp: means_def bindR_def split: sum.splits)

lemma means_tells: "tells m x \<Longrightarrow> means (f x) q \<Longrightarrow> means (bindR m f) q"
  by (auto simp: means_def tells_def bindR_def split: sum.splits)

lemma means_fold: "(\<And>x. x \<in> set xs \<Longrightarrow> means (f () x) (p x)) \<Longrightarrow> means (foldR f () xs) (\<forall>x \<in> set xs. p x)"
proof (induction xs)
  case (Cons x xs)
  have "means (foldR f () (x # xs)) (p x \<and> (\<forall>x \<in> set xs. p x))"
    using means_bind[of "f () x" "p x" "foldR f () xs"] Cons by simp
  then show ?case by simp
qed (simp add: means_def)

lemma tells_count: "(\<And>x. tells (f x) (p x)) \<Longrightarrow> tells (countR f xs) (length (filter p xs))"
proof (induction xs)
  case (Cons x xs)
  then have "tells (f x) (p x)" "tells (countR f xs) (length (filter p xs))" by simp_all
  then show ?case by (auto simp: tells_def bindR_def split: sum.splits)
qed (simp add: tells_def)

section \<open>The leaf checks have their meaning\<close>

lemma means_cong: "means r p \<Longrightarrow> (p \<longleftrightarrow> q) \<Longrightarrow> means r q"
  by simp

lemma means_canon: "\<lbrakk>\<And>t. canonicalJson E v = Inr t \<Longrightarrow> means (f t) (q t)\<rbrakk> \<Longrightarrow>
    means (bindR (canonS E n v) f) (\<exists>t. canonicalJson E v = Inr t \<and> q t)"
  using canonS_cases[of E n v]
  by (cases "canonicalJson E v") (auto simp: means_def canonLeaf_def bindR_def)

lemma means_some:
  assumes "\<And>x. x \<in> set xs \<Longrightarrow> (case f x of Inr b \<Rightarrow> ok x \<and> (b \<longleftrightarrow> p x) | Inl (SchemaError m) \<Rightarrow> \<not> ok x \<and> \<not> p x | Inl _ \<Rightarrow> True)"
  shows "means (bindR (someR f xs) (\<lambda>b. requireS b m)) (\<exists>ys x zs. xs = ys @ x # zs \<and> p x \<and> (\<forall>y \<in> set ys. ok y))"
  using assms
proof (induction xs)
  case Nil
  then show ?case by (simp add: means_def)
next
  case (Cons x xs)
  have c: "(\<exists>ys y zs. x # xs = ys @ y # zs \<and> p y \<and> (\<forall>u \<in> set ys. ok u)) \<longleftrightarrow>
      p x \<or> ok x \<and> (\<exists>ys y zs. xs = ys @ y # zs \<and> p y \<and> (\<forall>u \<in> set ys. ok u))" (is "?l \<longleftrightarrow> ?r")
  proof
    assume ?l
    then obtain ys y zs where "x # xs = ys @ y # zs" "p y" "\<forall>u \<in> set ys. ok u" by blast
    then show ?r by (cases ys) auto
  next
    assume ?r
    then show ?l
    proof (elim disjE conjE exE)
      fix ys y zs assume "ok x" "xs = ys @ y # zs" "p y" "\<forall>u \<in> set ys. ok u"
      then show ?l by (intro exI[of _ "x # ys"] exI[of _ y] exI[of _ zs]) simp
    qed (intro exI[of _ "[]"], simp)
  qed
  have x: "case f x of Inr b \<Rightarrow> ok x \<and> (b \<longleftrightarrow> p x) | Inl (SchemaError m) \<Rightarrow> \<not> ok x \<and> \<not> p x | Inl _ \<Rightarrow> True"
    using Cons.prems by simp
  have ih: "means (bindR (someR f xs) (\<lambda>b. requireS b m)) (\<exists>ys x zs. xs = ys @ x # zs \<and> p x \<and> (\<forall>y \<in> set ys. ok y))"
    using Cons by simp
  show ?case
  proof (cases "f x")
    case (Inl e)
    then show ?thesis unfolding c using x by (cases e) (simp_all add: means_def)
  next
    case (Inr b)
    then show ?thesis unfolding c using x ih by (cases b) (simp_all add: means_def)
  qed
qed

lemma num_less_iff: "num_less x y \<longleftrightarrow> smaller x y"
  by (cases x; cases y) (auto simp: num_less_def smaller_def)

lemma means_below: "means (checkBelow E x c k) (at_least E x c k)"
  unfolding checkBelow_def num_less_iff at_least_def by (rule means_cong[OF means_require]) blast

lemma means_above: "means (checkAbove E x c k) (at_most E x c k)"
  unfolding checkAbove_def num_less_iff at_most_def by (rule means_cong[OF means_require]) blast

lemma is_integer_iff: "is_integer x \<longleftrightarrow> (\<exists>i. x = Fin (of_int i))"
  by (auto simp: is_integer_def is_integral_def split: jnum.splits dest: sym)

lemma schemaTypeMatches_of: 
  "case schemaTypeMatches v t of
     Inr b \<Rightarrow> (\<exists>u \<in> set type_names. t = JStr (js u)) \<and> (b \<longleftrightarrow> (\<exists>u. t = JStr (js u) \<and> of_type v u))
   | Inl (SchemaError m) \<Rightarrow> \<not> (\<exists>u \<in> set type_names. t = JStr (js u)) \<and> \<not> (\<exists>u. t = JStr (js u) \<and> of_type v u)
   | Inl _ \<Rightarrow> True"
  by (cases v) (auto simp: schemaTypeMatches_def is_str_def type_names_def of_type_def isArray_def
      is_integer_iff is_finite_def split: jnum.splits)

lemma means_type: "means (checkType v c) (type_holds v c)"
proof (cases "getp c ''type'' = JUndef")
  case False
  define ts where "ts = (case getp c ''type'' of JArr ts \<Rightarrow> ts | _ \<Rightarrow> [getp c ''type''])"
  have "means (bindR (someR (schemaTypeMatches v) ts) (\<lambda>b. requireS b ''violates schema type''))
      (\<exists>ys t zs. ts = ys @ t # zs \<and> (\<exists>u. t = JStr (js u) \<and> of_type v u) \<and> (\<forall>y \<in> set ys. \<exists>u \<in> set type_names. y = JStr (js u)))"
    by (rule means_some) (rule schemaTypeMatches_of)
  moreover have "(\<exists>ys t zs. ts = ys @ t # zs \<and> (\<exists>u. t = JStr (js u) \<and> of_type v u)
      \<and> (\<forall>y \<in> set ys. \<exists>u \<in> set type_names. y = JStr (js u))) \<longleftrightarrow> type_holds v c"
    using False by (cases "getp c ''type''") (auto simp: ts_def type_holds_def Cons_eq_append_conv)
  ultimately show ?thesis using False unfolding checkType_def Let_def ts_def[symmetric] by simp
qed (simp add: checkType_def type_holds_def means_Inr)

lemma means_const: "means (checkConst E n v c) (const_holds E v c)"
proof (cases "has_own c (js ''const'')")
  case True
  have "means (checkConst E n v c) (\<exists>a. canonicalJson E v = Inr a \<and> (\<exists>b. canonicalJson E (getp c ''const'') = Inr b \<and> a = b))"
    using True unfolding checkConst_def by (simp only: simp_thms if_False) (intro means_canon means_require)
  then show ?thesis
    by (rule means_cong) (use True in \<open>auto simp: const_holds_def same_json_def has_own_def\<close>)
qed (simp add: checkConst_def const_holds_def has_own_def means_Inr)

lemma means_enum: "means (checkEnum E n v c) (enum_holds E v c)"
proof (cases "getp c ''enum''")
  case (JArr cs)
  let ?f = "\<lambda>x. bindR (canonS E n x) (\<lambda>a. bindR (canonS E n v) (\<lambda>b. Inr (a = b)))"
  show ?thesis
  proof (cases "has_text E v")
    case True
    then obtain t where t: "canonicalJson E v = Inr t" by (auto simp: has_text_def)
    have "means (bindR (someR ?f cs) (\<lambda>b. requireS b ''violates schema enum''))
        (\<exists>ys x zs. cs = ys @ x # zs \<and> same_json E x v \<and> (\<forall>y \<in> set ys. has_text E y))"
    proof (rule means_some)
      fix x
      show "case ?f x of Inr b \<Rightarrow> has_text E x \<and> (b \<longleftrightarrow> same_json E x v)
          | Inl (SchemaError m) \<Rightarrow> \<not> has_text E x \<and> \<not> same_json E x v | Inl _ \<Rightarrow> True"
        using canonS_cases[of E n x] canonS_cases[of E n v] t
        by (cases "canonicalJson E x") (auto simp: canonLeaf_def has_text_def same_json_def)
    qed
    then show ?thesis by (simp add: checkEnum_def enum_holds_def JArr)
  next
    case False
    have "?f x \<noteq> Inr b" for x b
      using canonS_cases[of E n v] False by (auto simp: canonLeaf_def has_text_def split: sum.splits)
    then have "means (bindR (someR ?f cs) (\<lambda>b. requireS b ''violates schema enum'')) False"
      by (cases cs) (auto simp: means_def bindR_eq_Inr split: if_splits)
    moreover have "\<not> same_json E x v" for x using False by (auto simp: same_json_def has_text_def)
    ultimately show ?thesis by (simp add: checkEnum_def enum_holds_def JArr)
  qed
qed (simp_all add: checkEnum_def enum_holds_def means_Inr)

lemma means_text: "means (checkText E W v c) (text_holds E W v c)"
proof (cases v)
  case (JStr s)
  have "means (if getp c ''pattern'' = JUndef then Inr ()
        else case re_test W (to_text E (getp c ''pattern'')) s of None \<Rightarrow> Inl NativeError | Some b \<Rightarrow> requireS b ''violates schema pattern'')
      (getp c ''pattern'' \<noteq> JUndef \<longrightarrow> re_test W (to_text E (getp c ''pattern'')) s = Some True)"
    by (auto simp: means_def split: option.splits)
  then show ?thesis
    unfolding checkText_def text_holds_def JStr jsval.case of_length_def
    by (rule means_cong[OF means_bind[OF means_below]]) simp
qed (simp_all add: checkText_def text_holds_def means_Inr)

lemma means_number: "means (checkNumber E v c) (number_holds E v c)"
  by (cases v) (auto simp: checkNumber_def number_holds_def means_Inr intro: means_bind[OF means_below means_above])

lemma means_array: "means (checkArray E n v c) (array_holds E v c)"
proof (cases v)
  case (JArr xs)
  have m: "means (bindR (mapR (canonS E n) ys) f) (\<exists>ts. list_all2 (\<lambda>x t. canonicalJson E x = Inr t) ys ts \<and> q ts)"
    if "\<And>ts. means (f ts) (q ts)" for f :: "jstring list \<Rightarrow> sexn + unit" and q ys
    using that
  proof (induction ys arbitrary: f q)
    case (Cons y ys)
    have 1: "bindR (mapR (canonS E n) (y # ys)) f
        = bindR (canonS E n y) (\<lambda>t. bindR (mapR (canonS E n) ys) (\<lambda>ts. f (t # ts)))"
      by (cases "canonS E n y"; cases "mapR (canonS E n) ys") simp_all
    have "means (bindR (canonS E n y) (\<lambda>t. bindR (mapR (canonS E n) ys) (\<lambda>ts. f (t # ts))))
        (\<exists>t. canonicalJson E y = Inr t \<and> (\<exists>ts. list_all2 (\<lambda>x t. canonicalJson E x = Inr t) ys ts \<and> q (t # ts)))"
      by (intro means_canon Cons.IH Cons.prems)
    then show ?case unfolding 1 by (rule means_cong) (auto simp: list_all2_Cons1)
  qed simp
  have d: "(\<exists>ts. list_all2 (\<lambda>x t. canonicalJson E x = Inr t) xs ts \<and> length (uniq ts) = length ts) \<longleftrightarrow>
      list_all (has_text E) xs \<and> distinct (map (canonicalJson E) xs)"
  proof -
    have "list_all2 (\<lambda>x t. canonicalJson E x = Inr t) xs ts \<longleftrightarrow> map (canonicalJson E) xs = map Inr ts" for ts
      by (induction xs arbitrary: ts) (auto simp: list_all2_Cons1 Cons_eq_map_conv)
    moreover have "list_all (has_text E) xs \<longleftrightarrow> (\<exists>ts. map (canonicalJson E) xs = map Inr ts)"
      by (induction xs) (auto simp: has_text_def Cons_eq_map_conv)
    moreover have "distinct (map Inr ts) \<longleftrightarrow> distinct ts" for ts :: "jstring list" by (simp add: distinct_map)
    ultimately show ?thesis unfolding length_uniq_iff by metis
  qed
  have u: "means (if getp c ''uniqueItems'' = JBool True
        then bindR (mapR (canonS E n) xs) (\<lambda>ts. requireS (length (uniq ts) = length ts) ''violates schema uniqueItems'')
        else Inr ())
      (getp c ''uniqueItems'' = JBool True \<longrightarrow> list_all (has_text E) xs \<and> distinct (map (canonicalJson E) xs))"
    using m[of "\<lambda>ts. requireS (length (uniq ts) = length ts) ''violates schema uniqueItems''"
        "\<lambda>ts. length (uniq ts) = length ts" xs, OF means_require] unfolding d
    by (simp add: means_Inr)
  show ?thesis
    unfolding checkArray_def array_holds_def JArr jsval.case of_length_def
    by (rule means_cong[OF means_bind[OF means_below means_bind[OF means_above u]]]) simp
qed (simp_all add: checkArray_def array_holds_def means_Inr)

lemma means_size: "means (checkMinProperties E v c) (size_holds E v c)"
  using means_below by (cases v) (simp_all add: checkMinProperties_def size_holds_def means_Inr keys_of_def of_length_def)

lemma means_format: "means (checkFormat E W v c) (format_holds E W v c)"
proof -
  have d: "means (if is_str (getp c ''format'') ''date-time''
            then requireS (case v of JStr s \<Rightarrow> is_finite (js_date_parse E s) \<and> js_iso E (js_date_parse E s) = s
                           | _ \<Rightarrow> False) ''violates schema date-time format''
            else Inr ()) (getp c ''format'' = JStr (js ''date-time'') \<longrightarrow>
        (\<exists>s x. v = JStr s \<and> js_date_parse E s = Fin x \<and> js_iso E (Fin x) = s))"
    by (auto simp: means_def is_str_def is_finite_def split: jsval.splits jnum.splits)
  have u: "means (if is_str (getp c ''format'') ''uri''
     then requireS (case v of JStr s \<Rightarrow> (case url_protocol W s of None \<Rightarrow> False | Some p \<Rightarrow> p \<noteq> [])
                    | _ \<Rightarrow> True) ''violates schema uri format''
     else Inr ()) (getp c ''format'' = JStr (js ''uri'') \<longrightarrow>
        (\<forall>s. v = JStr s \<longrightarrow> (\<exists>p. url_protocol W s = Some p \<and> p \<noteq> [])))"
    by (auto simp: means_def is_str_def split: jsval.splits option.splits)
  show ?thesis unfolding checkFormat_def format_holds_def by (rule means_bind[OF d u])
qed

lemma means_required: "means (checkRequired v c) (required_holds v c)"
proof (cases "getp c ''required'' = JUndef")
  case False
  define es where "es = elements_of (getp c ''required'')"
  have t: "list_all (\<lambda>x. case x of JStr _ \<Rightarrow> True | _ \<Rightarrow> False) xs \<longleftrightarrow> (\<exists>ns. xs = map JStr ns)" for xs
    by (induction xs) (auto simp: Cons_eq_map_conv split: jsval.splits)
  have "means (checkRequired v c)
     ((isArray (getp c ''required'') \<and> list_all (\<lambda>x. case x of JStr _ \<Rightarrow> True | _ \<Rightarrow> False) es \<and> distinct es)
      \<and> list_all (\<lambda>x. case x of JStr name \<Rightarrow> has_own v name | _ \<Rightarrow> False) es)"
    using False unfolding checkRequired_def Let_def es_def by (simp only: if_False) (intro means_bind means_require)
  then show ?thesis
  proof (rule means_cong)
    have "distinct (map JStr ns) \<longleftrightarrow> distinct ns" for ns by (simp add: distinct_map inj_on_def)
    then show "((isArray (getp c ''required'') \<and> list_all (\<lambda>x. case x of JStr _ \<Rightarrow> True | _ \<Rightarrow> False) es \<and> distinct es)
      \<and> list_all (\<lambda>x. case x of JStr name \<Rightarrow> has_own v name | _ \<Rightarrow> False) es) \<longleftrightarrow> required_holds v c"
      using False unfolding t required_holds_def es_def
      by (cases "getp c ''required''") (auto simp: isArray_def elements_of_def has_own_def list_all_iff)
  qed
qed (simp add: checkRequired_def required_holds_def means_Inr)

lemma means_additional: "means (checkAdditional v c) (additional_holds v c)"
proof -
  have "set (keys_of v) \<subseteq> set (keys_of (getp c ''properties'')) \<longleftrightarrow>
      (\<forall>k \<in> set (keys_of v). \<exists>ps s. getp c ''properties'' = JObj ps \<and> (k, s) \<in> set ps)"
    by (cases "getp c ''properties''") (auto simp: keys_of_def, force+)
  then show ?thesis
    unfolding checkAdditional_def additional_holds_def by (intro means_cong[OF means_require]) simp
qed

lemma unescaped_segment: "pointer_segment s = unescaped s"
proof -
  have "replace_pair 126 48 126 (47 # t) = 47 # replace_pair 126 48 126 t" for t by (cases t) simp_all
  moreover have "replace_pair 126 49 47 (y # s) = z # u \<Longrightarrow> z = 48 \<Longrightarrow> y = 48" for y s z u
    by (cases s) (auto split: if_splits)
  ultimately show ?thesis
  proof (induction s rule: unescaped.induct)
    case (1 x y s)
    have 48: "replace_pair 126 49 47 (48 # s) = 48 # replace_pair 126 49 47 s" for s by (cases s) simp_all
    consider "x = 126" "y = 48" | "x = 126" "y = 49" | "x \<noteq> 126" | "x = 126" "y \<noteq> 48" "y \<noteq> 49" by blast
    then show ?case
    proof cases
      case 1
      then show ?thesis using "1.IH"(1) "1.prems" by (simp add: pointer_segment_def 48)
    next
      case 2
      then show ?thesis using "1.IH"(2) "1.prems" by (simp add: pointer_segment_def)
    next
      case 3
      have "replace_pair 126 48 126 (x # t) = x # replace_pair 126 48 126 t" for t using 3 by (cases t) simp_all
      then show ?thesis using 3 "1.IH"(3) "1.prems" by (simp add: pointer_segment_def)
    next
      case 4
      obtain z u where zu: "replace_pair 126 49 47 (y # s) = z # u"
        by (cases "replace_pair 126 49 47 (y # s)"; cases s) (auto split: if_splits)
      have "z \<noteq> 48" using "1.prems"(2)[OF zu] 4(2) by blast
      then show ?thesis using 4 "1.IH"(3) "1.prems" zu by (simp add: pointer_segment_def)
    qed
  qed (simp_all add: pointer_segment_def)
qed

lemma resolveReference_iff: "resolveReference r ref = Inr w \<longleftrightarrow> refers_to r ref w"
proof -
  have f: "foldR resolveSegment v ks = Inr w \<longleftrightarrow> points_to v ks w" for v ks
    by (induction ks arbitrary: v) (auto simp: resolveSegment_def unescaped_segment bindR_eq_Inr split: option.splits)
  have s: "starts_with s (js ''#/'') \<longleftrightarrow> (\<exists>p. s = js ''#/'' @ p)" for s
    unfolding starts_with_def by (metis append_eq_conv_conj append_take_drop_id)
  have l: "length (js ''#/'') = 2" by (simp add: js_def)
  show ?thesis
    by (cases ref) (auto simp: resolveReference_def refers_to_def bindR_eq_Inr f s l)
qed

locale validator_meaning =
  fixes rec :: validator and P :: "jsval \<Rightarrow> jsval \<Rightarrow> bool"
  assumes meaning: "means (rec v c) (P v c)"
begin

lemma matches: "tells (schemaMatches rec v c) (P v c)"
  using meaning[of v c] by (auto simp: means_def tells_def schemaMatches_def split: sum.splits sexn.splits)

lemma reference:
  "means (checkReference r rec v c)
     (getp c ''$ref'' = JUndef \<or> (\<exists>s. refers_to r (getp c ''$ref'') s \<and> P v s))"
  unfolding resolveReference_iff[symmetric] using meaning[of v]
  by (cases "resolveReference r (getp c ''$ref'')") (auto simp: checkReference_def Let_def means_def)

lemma all_of: "means (checkAllOf rec v c) (\<forall>b \<in> set (elements_of (getp c ''allOf'')). P v b)"
  unfolding checkAllOf_def by (rule means_fold) (rule meaning)

lemma conditional:
  "means (checkConditional rec v c) (getp c ''if'' = JUndef
     \<or> (let branch = getp c (if P v (getp c ''if'') then ''then'' else ''else'') in branch = JUndef \<or> P v branch))"
proof (cases "getp c ''if'' = JUndef")
  case False
  let ?b = "getp c (if P v (getp c ''if'') then ''then'' else ''else'')"
  have "means (if ?b = JUndef then Inr () else rec v ?b) (?b = JUndef \<or> P v ?b)"
    using meaning[of v ?b] by (auto simp: means_def)
  then show ?thesis
    using False by (auto simp: checkConditional_def Let_def intro!: means_tells[OF matches])
qed (simp add: checkConditional_def means_Inr)

lemma one_of:
  "means (checkOneOf rec v c)
     (isArray (getp c ''oneOf'') \<longrightarrow> length (filter (P v) (elements_of (getp c ''oneOf''))) = 1)"
proof (cases "getp c ''oneOf''")
  case (JArr cs)
  have "tells (countR (schemaMatches rec v) cs) (length (filter (P v) cs))"
    by (rule tells_count) (rule matches)
  then show ?thesis
    using JArr means_require by (auto simp: checkOneOf_def isArray_def elements_of_def intro!: means_tells)
qed (simp_all add: checkOneOf_def isArray_def means_Inr)

lemma negation: "means (checkNot rec v c) (getp c ''not'' = JUndef \<or> \<not> P v (getp c ''not''))"
  using means_require by (auto simp: checkNot_def means_Inr intro!: means_tells[OF matches])

lemma items:
  "means (checkItems rec v c) (isArray v \<and> getp c ''items'' \<noteq> JUndef \<longrightarrow> (\<forall>x \<in> set (elements_of v). P x (getp c ''items'')))"
  using means_fold[of "elements_of v" "\<lambda>_ x. rec x (getp c ''items'')" "\<lambda>x. P x (getp c ''items'')"] meaning
  by (auto simp: checkItems_def means_Inr)

lemma properties:
  "means (checkProperties rec v c) (\<forall>ps k s x. getp c ''properties'' = JObj ps \<and> (k, s) \<in> set ps \<and> own_property v k = Some x
     \<longrightarrow> P x s)"
proof -
  define ps where "ps = (case getp c ''properties'' of JObj ps \<Rightarrow> ps | _ \<Rightarrow> [])"
  have "means (foldR (\<lambda>_ p. case own_property v (fst p) of None \<Rightarrow> Inr () | Some x \<Rightarrow> rec x (snd p)) () ps)
      (\<forall>p \<in> set ps. \<forall>x. own_property v (fst p) = Some x \<longrightarrow> P x (snd p))"
    using meaning by (intro means_fold) (auto simp: means_Inr split: option.splits)
  moreover have "(\<forall>p \<in> set ps. \<forall>x. own_property v (fst p) = Some x \<longrightarrow> P x (snd p)) \<longleftrightarrow>
      (\<forall>ps k s x. getp c ''properties'' = JObj ps \<and> (k, s) \<in> set ps \<and> own_property v k = Some x \<longrightarrow> P x s)"
    by (cases "getp c ''properties''") (auto simp: ps_def)
  ultimately show ?thesis by (simp add: checkProperties_def ps_def)
qed

lemma object:
  "means (checkObject rec v c)
     (is_record v \<longrightarrow> required_holds v c \<and> additional_holds v c
        \<and> (\<forall>ps k s x. getp c ''properties'' = JObj ps \<and> (k, s) \<in> set ps \<and> own_property v k = Some x \<longrightarrow> P x s))"
proof (cases "is_record v")
  case True
  have "means (checkObject rec v c) (required_holds v c
      \<and> (\<forall>ps k s x. getp c ''properties'' = JObj ps \<and> (k, s) \<in> set ps \<and> own_property v k = Some x \<longrightarrow> P x s)
      \<and> additional_holds v c)"
    using True unfolding checkObject_def by (simp only: if_True) (intro means_bind means_required means_additional properties)
  then show ?thesis by (rule means_cong) (use True in blast)
qed (simp add: checkObject_def means_Inr)

lemmas parts = means_require reference all_of conditional one_of negation means_type means_const means_enum means_text
  means_number means_array means_size means_format items object

lemma body: "means (schemaBody E W n r rec v c) (schema_holds E W r P v c)"
  unfolding schemaBody_def schema_holds_def local_keywords_def conj_assoc by (intro means_bind parts)

end

definition accepts :: "jsenv \<Rightarrow> webenv \<Rightarrow> jsval \<Rightarrow> jsval \<Rightarrow> jsval \<Rightarrow> bool" where
  "accepts E W rootSchema v c \<longleftrightarrow> (\<exists>n. validateSchemaValue E W rootSchema n v c = Inr ())"

lemma verdict_deeper: "validateSchemaValue E W r n v c = x \<Longrightarrow> x \<noteq> Inl StackOverflow \<Longrightarrow> n \<le> m \<Longrightarrow>
    validateSchemaValue E W r m v c = x"
  using stack_order.order[of E W r n v c "m - n"] by (auto simp: upto_def)

interpretation verdicts: validator_meaning "validateSchemaValue E W r n" "accepts E W r" for E W r n
proof
  fix v c
  have "False" if "validateSchemaValue E W r n v c = Inl (SchemaError m)" "validateSchemaValue E W r k v c = Inr ()" for m k
    using verdict_deeper[OF that(1), of "max n k"] verdict_deeper[OF that(2), of "max n k"] by simp
  then show "means (validateSchemaValue E W r n v c) (accepts E W r v c)"
    by (auto simp: means_def accepts_def)
qed

text \<open>C29: The validator decides the declarative reading of the schema: where it accepts, every keyword
  holds of the value, where it refuses, some keyword fails.  The keywords without subschemas, the
  references and the combination of the subschemas are written out over the value and the schema;
  a subschema holds of a value when the validator accepts it on some stack.\<close>

theorem schema_verdict_is_its_meaning:
  "case validateSchemaValue E W rootSchema n v c of
     Inr _ \<Rightarrow> schema_holds E W rootSchema (accepts E W rootSchema) v c
   | Inl (SchemaError _) \<Rightarrow> \<not> schema_holds E W rootSchema (accepts E W rootSchema) v c
   | Inl _ \<Rightarrow> True"
proof (cases n)
  case (Suc k)
  show ?thesis
    using verdicts.body[of E W k rootSchema E W rootSchema k v c] unfolding Suc
    by (auto simp: means_def split: sum.splits sexn.splits)
qed simp

section \<open>Schemas without references\<close>

text \<open>The depth of a value, and no reference anywhere in a schema.\<close>

lemma size_element: "x \<in> set xs \<Longrightarrow> size (x :: jsval) < Suc (size_list size xs)"
  using size_elements_of[of x "JArr xs"] by (simp add: elements_of_def)

lemma size_member: "(k, x) \<in> set (fs :: (jstring \<times> jsval) list) \<Longrightarrow> size x < Suc (size_list (size_prod (\<lambda>x. 0) size) fs)"
  using size_values_of[of x "JObj fs"] by (force simp: values_of_def)

function nesting :: "jsval \<Rightarrow> nat" where
  "nesting (JArr xs) = Suc (foldr max (map nesting xs) 0)"
| "nesting (JObj fs) = Suc (foldr max (map (\<lambda>f. nesting (snd f)) fs) 0)"
| "nesting JUndef = 1" | "nesting JNull = 1" | "nesting (JBool b) = 1" | "nesting (JNum x) = 1" | "nesting (JStr s) = 1"
  by pat_completeness auto
termination
  by (relation "measure size") (auto dest: size_element size_member)


lemma max_le_iff: "foldr max xs 0 \<le> n \<longleftrightarrow> (\<forall>x \<in> set xs. x \<le> (n::nat))"
  by (induction xs) auto

lemma nesting_pos: "0 < nesting v"
  by (cases v) simp_all

lemma nesting_elements: "x \<in> set (elements_of v) \<Longrightarrow> nesting x < nesting v"
  using max_le_iff[of "map nesting (elements_of v)" "foldr max (map nesting (elements_of v)) 0"]
  by (cases v) (auto simp: elements_of_def)

lemma nesting_member: "(k, x) \<in> set fs \<Longrightarrow> nesting x < nesting (JObj fs)"
  using max_le_iff[of "map (\<lambda>f. nesting (snd f)) fs" "foldr max (map (\<lambda>f. nesting (snd f)) fs) 0"] by auto







text \<open>A computation settles: it has a result or refuses.\<close>

definition settles :: "sexn + 'a \<Rightarrow> bool" where
  "settles r \<longleftrightarrow> r \<noteq> Inl StackOverflow \<and> r \<noteq> Inl NativeError"

named_theorems settling \<open>computations that settle\<close>

lemma settles_Inr [settling]: "settles (Inr x)"
  by (simp add: settles_def)

lemma settles_require [settling]: "settles (requireS b m)"
  by (auto simp: settles_def requireS_def)

lemma settles_bind [settling]: "settles m \<Longrightarrow> (\<And>x. settles (f x)) \<Longrightarrow> settles (bindR m f)"
  by (auto simp: settles_def bindR_def split: sum.splits)

lemma settles_if [settling]: "(b \<Longrightarrow> settles x) \<Longrightarrow> (\<not> b \<Longrightarrow> settles y) \<Longrightarrow> settles (if b then x else y)"
  by simp

lemma settles_fold [settling]: "(\<And>u x. x \<in> set xs \<Longrightarrow> settles (f u x)) \<Longrightarrow> settles (foldR f s xs)"
  by (induction xs arbitrary: s) (auto intro!: settling)

lemma settles_map [settling]: "(\<And>x. x \<in> set xs \<Longrightarrow> settles (f x)) \<Longrightarrow> settles (mapR f xs)"
  by (induction xs) (auto intro!: settling)

lemma settles_some [settling]: "(\<And>x. x \<in> set xs \<Longrightarrow> settles (f x)) \<Longrightarrow> settles (someR f xs)"
  by (induction xs) (auto intro!: settling)

lemma settles_count [settling]: "(\<And>x. x \<in> set xs \<Longrightarrow> settles (f x)) \<Longrightarrow> settles (countR f xs)"
  by (induction xs) (auto intro!: settling)

lemma settles_matches [settling]: "settles (rec v c) \<Longrightarrow> settles (schemaMatches rec v c)"
  by (auto simp: settles_def schemaMatches_def split: sum.splits sexn.splits)

lemma settles_canon [settling]: "nesting v \<le> n \<Longrightarrow> settles (canonS E n v)"
proof (induction n arbitrary: v)
  case 0
  then show ?case using nesting_pos[of v] by simp
next
  case (Suc n)
  have leaf: "settles (canonLeaf r)" for r :: "json_error + jstring" by (auto simp: settles_def canonLeaf_def split: sum.splits)
  show ?case
  proof (cases v)
    case (JArr xs)
    have "nesting x \<le> n" if "x \<in> set xs" for x using nesting_elements[of x v] that Suc.prems by (simp add: JArr elements_of_def)
    then show ?thesis unfolding JArr canonS.simps jsval.case by (intro settling Suc.IH)
  next
    case (JObj fs)
    have "nesting (snd f) \<le> n" if "f \<in> set (sort_key fst fs)" for f
      using nesting_member[of "fst f" "snd f" fs] that Suc.prems by (simp add: JObj)
    then show ?thesis unfolding JObj canonS.simps jsval.case by (intro settling Suc.IH)
  qed (simp_all only: canonS.simps jsval.case leaf)
qed

lemma settles_type: "settles (checkType v c)"
  unfolding checkType_def Let_def schemaTypeMatches_def by (auto intro!: settling) (simp_all add: settles_def)

lemma settles_leaves [settling]:
  "settles (checkBelow E x c k)" "settles (checkAbove E x c k)" "settles (checkMinProperties E v c)" "settles (checkFormat E W v c)"
  "settles (checkRequired v c)" "settles (checkAdditional v c)" "settles (checkNumber E v c)" "settles (checkType v c)"
  unfolding checkBelow_def checkAbove_def checkMinProperties_def checkFormat_def checkRequired_def checkAdditional_def
    checkNumber_def Let_def
  by (auto intro!: settling settles_type split: jsval.split)











section \<open>Keywords are not ignored\<close>

text \<open>An unresolved reference under a negation is satisfied by every value.\<close>

lemma unresolved_reference_negated:
  "validateSchemaValue E W (JObj []) 2 v (JObj [(js ''not'', JObj [(js ''$ref'', JStr (js ''#/x''))])]) = Inr ()"
  by (simp add: eval_nat_numeral schemaBody_def checkReference_def checkAllOf_def checkConditional_def checkOneOf_def checkNot_def
      checkType_def checkConst_def checkEnum_def checkText_def checkNumber_def checkArray_def checkMinProperties_def
      checkFormat_def checkItems_def checkObject_def checkRequired_def checkProperties_def checkAdditional_def
      resolveReference_def resolveSegment_def own_property_def schemaMatches_def getp_def elements_of_def Let_def
      has_own_def keys_of_def checkBelow_def checkAbove_def is_str_def starts_with_def js_def requireS_def
      split: jsval.splits)

end
