(* ===== verification/Docker_Run.thy ===== *)
theory Docker_Run
  imports Repository
begin

text \<open>
  The recorded container commands of \<^verbatim>\<open>src/scripts/supply-chain/contracts.mjs\<close>: the reader of a
  \<^verbatim>\<open>docker run\<close> argument vector with its fixed security prefix, mounts and environment, the utility
  commands and the raw exits each process may have.  Paths are POSIX paths; the working directory of
  the host process is a parameter.
\<close>

section \<open>Host paths\<close>

definition resolve_segments :: "jstring \<Rightarrow> jstring \<Rightarrow> jstring list" where
  "resolve_segments cwd s =
     foldl (normalize_step False) [] (split_on 47 (if is_absolute s then s else cwd @ js ''/'' @ s))"

definition resolve_path :: "jstring \<Rightarrow> jstring \<Rightarrow> jstring" where
  "resolve_path cwd s = js ''/'' @ join [47] (resolve_segments cwd s)"

fun relative_segments :: "jstring list \<Rightarrow> jstring list \<Rightarrow> jstring list" where
  "relative_segments (a # as) (b # bs) =
     (if a = b then relative_segments as bs else map (\<lambda>_. js ''..'') (a # as) @ b # bs)"
| "relative_segments as bs = map (\<lambda>_. js ''..'') as @ bs"

definition relative_path :: "jstring \<Rightarrow> jstring \<Rightarrow> jstring \<Rightarrow> jstring" where
  "relative_path cwd origin target =
     join [47] (relative_segments (resolve_segments cwd origin) (resolve_segments cwd target))"

section \<open>Mounts and environment\<close>

text \<open>What \<^verbatim>\<open>.\<close> does not match.\<close>

definition line_end :: "nat \<Rightarrow> bool" where
  "line_end c \<longleftrightarrow> c = 10 \<or> c = 13 \<or> c = 8232 \<or> c = 8233"

record docker_mount =
  m_source :: jstring
  m_destination :: jstring
  m_readOnly :: bool

text \<open>\<^verbatim>\<open>/^type=bind,src=(.+),dst=(\/[^,]+)(,readonly)?$/u\<close>: the destination holds no comma, so the
  match splits at the last \<^verbatim>\<open>,dst=\<close>.\<close>

definition mount_entry :: "jstring \<Rightarrow> (jstring \<times> jstring \<times> jstring) option" where
  "mount_entry s =
     (if \<not> starts_with s (js ''type=bind,src='') then None
      else let r = drop 14 s in
        case find (\<lambda>i. starts_with (drop i r) (js '',dst='')) (rev [0..<length r]) of
          None \<Rightarrow> None
        | Some i \<Rightarrow>
            let src = take i r; d = drop (i + 5) r;
                dst = takeWhile (\<lambda>c. c \<noteq> 44) d; mode = dropWhile (\<lambda>c. c \<noteq> 44) d in
            if src \<noteq> [] \<and> \<not> list_ex line_end src \<and> starts_with dst (js ''/'') \<and> 2 \<le> length dst
               \<and> (mode = [] \<or> mode = js '',readonly'')
            then Some (src, dst, mode) else None)"

text \<open>\<^verbatim>\<open>/^([A-Z][A-Z0-9_]*)=(.*)$/u\<close>\<close>

definition environment_entry :: "jstring \<Rightarrow> (jstring \<times> jstring) option" where
  "environment_entry s =
     (case index_of 61 s of
        None \<Rightarrow> None
      | Some i \<Rightarrow>
          let k = take i s; v = drop (i + 1) s in
          if k \<noteq> [] \<and> is_upper (hd k) \<and> list_all (\<lambda>c. is_upper c \<or> is_digit c \<or> c = 95) (tl k)
             \<and> \<not> list_ex line_end v
          then Some (k, v) else None)"

definition addMount :: "jstring \<Rightarrow> docker_mount list \<Rightarrow> jstring \<Rightarrow> cexn + docker_mount list" where
  "addMount cwd mounts s =
     (case mount_entry s of
        None \<Rightarrow> Inl (Refused ''Docker mount grammar is invalid'')
      | Some (src, dst, mode) \<Rightarrow>
          bindR (requireC (is_absolute src \<and> dst \<notin> m_destination ` set mounts) ''Docker mount grammar is invalid'') (\<lambda>_.
            Inr (mounts @ [\<lparr>m_source = resolve_path cwd src, m_destination = dst, m_readOnly = (mode = js '',readonly'')\<rparr>])))"

definition addEnvironment ::
  "(jstring \<times> jstring) list \<Rightarrow> jstring \<Rightarrow> cexn + (jstring \<times> jstring) list" where
  "addEnvironment env s =
     (case environment_entry s of
        None \<Rightarrow> Inl (Refused ''Docker environment grammar is invalid'')
      | Some (k, v) \<Rightarrow>
          bindR (requireC (k \<notin> fst ` set env) ''Docker environment grammar is invalid'') (\<lambda>_. Inr (env @ [(k, v)])))"

text \<open>\<^verbatim>\<open>while (arguments_[index] === flag)\<close>: the accumulated values and the rest of the arguments.  An
  absent value is the empty string.\<close>

fun flagLoop :: "string \<Rightarrow> ('s \<Rightarrow> jstring \<Rightarrow> cexn + 's) \<Rightarrow> 's \<Rightarrow> jstring list \<Rightarrow> cexn + 's \<times> jstring list" where
  "flagLoop flag add st [] = Inr (st, [])"
| "flagLoop flag add st [a] =
     (if a = js flag then bindR (add st []) (\<lambda>st'. Inr (st', [])) else Inr (st, [a]))"
| "flagLoop flag add st (a # b # args) =
     (if a = js flag then bindR (add st b) (\<lambda>st'. flagLoop flag add st' args) else Inr (st, a # b # args))"

text \<open>\<^verbatim>\<open>if (arguments_[index] === flag)\<close>: the value and the rest.\<close>

definition optionalFlag :: "string \<Rightarrow> jstring list \<Rightarrow> jstring option \<times> jstring list" where
  "optionalFlag flag args =
     (if args \<noteq> [] \<and> hd args = js flag
      then (if tl args = [] then None else Some (hd (tl args)), drop 2 args)
      else (None, args))"

section \<open>The argument vector\<close>

record docker_run =
  d_cidFile :: jstring
  d_commandArguments :: "jstring list"
  d_containerName :: jstring
  d_environment :: "(jstring \<times> jstring) list"
  d_image :: jstring
  d_memory :: jstring
  d_mounts :: "docker_mount list"
  d_network :: jstring
  d_tmpfs :: jstring
  d_user :: "jstring option"
  d_workdir :: "jstring option"

definition nth_arg :: "jstring list \<Rightarrow> nat \<Rightarrow> jstring" where
  "nth_arg args i = (if i < length args then args ! i else [])"

definition container_name :: "jstring \<Rightarrow> bool" where
  "container_name s \<longleftrightarrow>
     (let h = drop 14 s in starts_with s (js ''hedefora-r016-'') \<and> length h = 24 \<and> list_all is_lower_hex h)"

definition security_prefix :: "jstring list \<Rightarrow> bool" where
  "security_prefix args \<longleftrightarrow>
     take 5 args = map js [''run'', ''--rm'', ''--platform'', ''linux/amd64'', ''--cidfile'']
     \<and> is_absolute (nth_arg args 5)
     \<and> nth_arg args 6 = js ''--name'' \<and> container_name (nth_arg args 7)
     \<and> nth_arg args 8 = js ''--network'' \<and> nth_arg args 10 = js ''--memory''
     \<and> nth_arg args 12 = js ''--pids-limit'' \<and> nth_arg args 13 = js ''256''
     \<and> nth_arg args 14 = js ''--cpus'' \<and> nth_arg args 15 = js ''2''
     \<and> nth_arg args 16 = js ''--cap-drop'' \<and> nth_arg args 17 = js ''ALL''
     \<and> nth_arg args 18 = js ''--security-opt'' \<and> nth_arg args 19 = js ''no-new-privileges''
     \<and> nth_arg args 20 = js ''--read-only'' \<and> nth_arg args 21 = js ''--tmpfs''"

definition entersRepository :: "jstring \<Rightarrow> jstring \<Rightarrow> docker_mount \<Rightarrow> bool" where
  "entersRepository cwd repositoryRoot m \<longleftrightarrow>
     (let relative = relative_path cwd (resolve_path cwd repositoryRoot) (m_source m) in
      relative = [] \<or> (\<not> starts_with relative (js ''../'') \<and> relative \<noteq> js ''..'' \<and> \<not> is_absolute relative))"

definition parseDockerRunArguments :: "jstring \<Rightarrow> jstring list \<Rightarrow> jstring \<Rightarrow> cexn + docker_run" where
  "parseDockerRunArguments cwd args repositoryRoot =
     bindR (requireC (security_prefix args) ''Docker security prefix is invalid'') (\<lambda>_.
     let (user, args1) = optionalFlag ''--user'' (drop 23 args);
         (workdir, args2) = optionalFlag ''--workdir'' args1 in
     bindR (flagLoop ''--mount'' (addMount cwd) [] args2) (\<lambda>(mounts, args3).
     bindR (flagLoop ''--env'' addEnvironment [] args3) (\<lambda>(environment, args4).
     bindR (requireC (2 \<le> length args4) ''Docker image/command is absent'') (\<lambda>_.
     let network = nth_arg args 9 in
     bindR (requireC (network \<noteq> js ''bridge'' \<or> \<not> list_ex (entersRepository cwd repositoryRoot) mounts)
              ''networked mount enters the repository'') (\<lambda>_.
       Inr \<lparr>d_cidFile = resolve_path cwd (nth_arg args 5), d_commandArguments = tl args4,
            d_containerName = nth_arg args 7, d_environment = environment, d_image = hd args4,
            d_memory = nth_arg args 11, d_mounts = mounts, d_network = network, d_tmpfs = nth_arg args 22,
            d_user = user, d_workdir = workdir\<rparr>)))))"

section \<open>Reading untyped documents\<close>

text \<open>\<^verbatim>\<open>v.k\<close>, a chain of them, and the elements of an array whose method is called.\<close>

definition accR :: "jsval \<Rightarrow> string \<Rightarrow> cexn + jsval" where
  "accR v k = (if nullish v then Inl Thrown else Inr (getp v k))"

definition accsR :: "jsval \<Rightarrow> string list \<Rightarrow> cexn + jsval" where
  "accsR v ks = foldR accR v ks"

definition arrayR :: "jsval \<Rightarrow> cexn + jsval list" where
  "arrayR v = (case v of JArr xs \<Rightarrow> Inr xs | _ \<Rightarrow> Inl Thrown)"

definition texts :: "string list \<Rightarrow> jsval list" where
  "texts ss = map (\<lambda>s. JStr (js s)) ss"

section \<open>Utility commands and exits\<close>

definition evidenceToolLock :: "jsval \<Rightarrow> string \<Rightarrow> cexn + jsval" where
  "evidenceToolLock scanners name =
     bindR (if name = ''osv-scanner'' then accR scanners ''osvScanner''
            else if name = ''semgrep-ce'' then accR scanners ''semgrep''
            else if name = ''go-toolchain'' then accR scanners ''goToolchainImage''
            else Inr JNull) (\<lambda>lock.
     bindR (needRecord lock) (\<lambda>_. Inr lock))"

definition utility_tools :: "(string \<times> string) list" where
  "utility_tools = [(''OSV-SCANNER'', ''osv-scanner''), (''SEMGREP-CE'', ''semgrep-ce''), (''GO-TOOLCHAIN'', ''go-toolchain'')]"

definition utility_ids :: "(jstring \<times> string \<times> string) list" where
  "utility_ids = concat (map (\<lambda>t. map (\<lambda>k. (js (''PROCESS-'' @ fst t @ ''-'' @ k), snd t, k))
                                    [''PULL'', ''INSPECT'', ''INDEX'']) utility_tools)"

definition expectedDockerUtilityArguments :: "jstring \<Rightarrow> jsval \<Rightarrow> cexn + jsval list" where
  "expectedDockerUtilityArguments pid configuration =
     (if pid = js ''PROCESS-DOCKER-VERSION'' then Inr (texts [''version'', ''--format'', ''{{json .}}''])
      else case map_of utility_ids pid of
        None \<Rightarrow> Inl (Refused ''not a supported Docker utility'')
      | Some (tool, action) \<Rightarrow>
          bindR (accR configuration ''scanners'') (\<lambda>scanners.
          bindR (evidenceToolLock scanners tool) (\<lambda>lock.
          let image = getp lock ''image'' in
          Inr (if action = ''PULL'' then texts [''pull'', ''--platform'', ''linux/amd64''] @ [image]
               else if action = ''INSPECT'' then texts [''image'', ''inspect''] @ [image]
               else texts [''manifest'', ''inspect''] @ [image]))))"

definition acceptedProcessRawExits :: "jstring \<Rightarrow> rat list" where
  "acceptedProcessRawExits pid =
     (if pid = js ''PROCESS-OSV-MISSING-DATABASE-NEGATIVE'' then [127]
      else if pid \<in> set (map js
          [''PROCESS-OSV-VULNERABILITY-CANARY'', ''PROCESS-OSV-VULNERABILITY-DEVELOPMENT-CANARY'',
           ''PROCESS-OSV-GO-ADVISORY-CANARY'', ''PROCESS-OSV-GO-TRANSITIVE-CANARY'',
           ''PROCESS-OSV-GO-LICENSE-DENIED-CANARY'', ''PROCESS-OSV-LICENSE-DENIED-CANARY'',
           ''PROCESS-OSV-LICENSE-UNKNOWN-CANARY'', ''PROCESS-SEMGREP-BLOCKING-FIXTURES'']) then [1]
      else if pid = js ''PROCESS-OSV-VULNERABILITY'' \<or> pid = js ''PROCESS-OSV-LICENSE'' then [0, 1]
      else [0])"

section \<open>Expected container contracts\<close>

text \<open>One argument of \<^verbatim>\<open>path.resolve\<close> after the path so far.\<close>

definition path_step :: "jstring \<Rightarrow> jstring \<Rightarrow> jstring" where
  "path_step p q = (if q = [] then p else if is_absolute q \<or> p = [] then q else p @ js ''/'' @ q)"

definition resolve_all :: "jstring \<Rightarrow> jstring list \<Rightarrow> jstring" where
  "resolve_all cwd parts = resolve_path cwd (foldl path_step [] parts)"

definition path_join :: "jstring list \<Rightarrow> jstring" where
  "path_join parts = normalize (join [47] (filter (\<lambda>p. p \<noteq> []) parts))"

text \<open>The named arguments of \<^verbatim>\<open>contract\<close>; a mount is a source below the temporary root with its
  destination, all of them read-only.\<close>

record contract_args =
  a_command :: "jsval list"
  a_environment :: "(string \<times> string) list"
  a_image :: jsval
  a_memory :: string
  a_mounts :: "(jstring \<times> string) list"
  a_network :: string
  a_temporaryStorage :: string
  a_tmpfsExecutable :: bool
  a_user :: "string option"
  a_workdir :: "string option"

definition plain_contract :: contract_args where
  "plain_contract = \<lparr>a_command = [], a_environment = [], a_image = JUndef, a_memory = [], a_mounts = [],
     a_network = ''none'', a_temporaryStorage = ''128m'', a_tmpfsExecutable = False, a_user = None, a_workdir = None\<rparr>"

definition nobody :: string where
  "nobody = ''65534:65534''"

definition osvBase :: "string list" where
  "osvBase = [''scan'', ''source'', ''--format'', ''json'', ''--all-packages'', ''--all-vulns'', ''--no-call-analysis=go'']"

definition offlineOsv :: "string list" where
  "offlineOsv = osvBase @ [''--offline'', ''--offline-vulnerabilities'']"

definition lockfileArguments :: "jsval list \<Rightarrow> jsval list" where
  "lockfileArguments sources = concat (map (\<lambda>s. texts [''--lockfile''] @ [s]) sources)"

definition semgrepBase :: "string list" where
  "semgrepBase = [''semgrep'', ''scan'', ''--oss-only'', ''--json'', ''--error'', ''--strict'', ''--metrics'', ''off'',
     ''--disable-version-check'', ''--disable-nosem'', ''--jobs'', ''2'', ''--max-memory'', ''1200'', ''--timeout'', ''20'',
     ''--timeout-threshold'', ''1'', ''--no-git-ignore'', ''--x-ignore-semgrepignore-files'',
     ''--max-target-bytes'', ''0'', ''--no-exclude-binary-files'']"

definition osvEnvironment :: "(string \<times> string) list" where
  "osvEnvironment = [(''HOME'', ''/tmp/home''), (''OSV_SCANNER_LOCAL_DB_CACHE_DIRECTORY'', ''/cache'')]"

definition semgrepEnvironment :: "(string \<times> string) list" where
  "semgrepEnvironment = [(''HOME'', ''/tmp/home''), (''SEMGREP_ENABLE_VERSION_CHECK'', ''0''),
     (''SEMGREP_SEND_METRICS'', ''off'')]"

definition goEnvironment :: "(string \<times> string) list" where
  "goEnvironment =
     [(''GOCACHE'', ''/tmp/gocache''), (''GOENV'', ''off''), (''GOFLAGS'', ''-mod=readonly''), (''GOINSECURE'', []),
      (''GOMODCACHE'', ''/tmp/gomodcache''), (''GONOPROXY'', []), (''GONOSUMDB'', []), (''GOPRIVATE'', []),
      (''GOPROXY'', ''https://proxy.golang.org''), (''GOSUMDB'', ''sum.golang.org''), (''GOTOOLCHAIN'', ''local''),
      (''GOVCS'', ''*:off''), (''GOWORK'', ''off''), (''HOME'', ''/tmp/home'')]"

text \<open>What the contracts take from the configuration and the evidence.\<close>

record contract_inputs =
  ci_licenses :: jstring
  ci_lockfiles :: "jsval list"
  ci_rules :: "jsval list"
  ci_scanners :: jsval

definition elementProperties :: "string \<Rightarrow> jsval \<Rightarrow> cexn + jsval list" where
  "elementProperties k v = bindR (arrayR v) (mapR (\<lambda>x. accR x k))"

definition contractInputs :: "jsenv \<Rightarrow> jsval \<Rightarrow> jsval \<Rightarrow> cexn + contract_inputs" where
  "contractInputs E inputs configuration =
     bindR (accR configuration ''scanners'') (\<lambda>scanners.
     bindR (bindR (accsR configuration [''policy'', ''licenses'', ''allowed'']) arrayR) (\<lambda>allowed.
     bindR (bindR (accsR inputs [''pnpm'', ''documents'']) (elementProperties ''source'')) (\<lambda>pnpm.
     bindR (bindR (accR inputs ''go'') (elementProperties ''source'')) (\<lambda>go.
     bindR (bindR (accsR scanners [''semgrepRules'', ''files'']) (elementProperties ''path'')) (\<lambda>rules.
       Inr \<lparr>ci_licenses = to_text E (JArr allowed), ci_lockfiles = pnpm @ go, ci_rules = rules,
            ci_scanners = scanners\<rparr>)))))"

definition semgrepArguments :: "jsenv \<Rightarrow> contract_inputs \<Rightarrow> jsval list" where
  "semgrepArguments E ci =
     texts semgrepBase @ concat (map (\<lambda>p. [JStr (js ''--config''), JStr (js ''/rules/'' @ to_text E p)]) (ci_rules ci))"

definition licenseArguments :: "contract_inputs \<Rightarrow> string \<Rightarrow> jsval list" where
  "licenseArguments ci configPath =
     texts (osvBase @ [''--config'', configPath, ''--data-source'', ''deps.dev''])
     @ [JStr (js ''--licenses='' @ ci_licenses ci)]"

text \<open>\<^verbatim>\<open>id.slice("PROCESS-".length).toLowerCase()\<close>\<close>

definition process_slug :: "jsenv \<Rightarrow> jstring \<Rightarrow> jstring" where
  "process_slug E pid = js_lower E (drop 8 pid)"

definition imageOf :: "contract_inputs \<Rightarrow> string \<Rightarrow> contract_args \<Rightarrow> cexn + contract_args" where
  "imageOf ci tool a = bindR (accsR (ci_scanners ci) [tool, ''image'']) (\<lambda>image. Inr (a\<lparr>a_image := image\<rparr>))"

definition versionContract :: "contract_inputs \<Rightarrow> jstring \<Rightarrow> (cexn + contract_args) option" where
  "versionContract ci pid =
     (if pid = js ''PROCESS-OSV-SCANNER-VERSION'' then
        Some (imageOf ci ''osvScanner'' (plain_contract\<lparr>a_command := texts [''--version''], a_memory := ''256m'',
          a_user := Some nobody\<rparr>))
      else if pid = js ''PROCESS-SEMGREP-CE-VERSION'' then
        Some (imageOf ci ''semgrep'' (plain_contract\<lparr>a_command := texts [''semgrep'', ''--version''],
          a_environment := semgrepEnvironment, a_memory := ''256m''\<rparr>))
      else if pid = js ''PROCESS-GO-TOOLCHAIN-VERSION'' then
        Some (imageOf ci ''goToolchainImage'' (plain_contract\<lparr>a_command := texts [''go'', ''version''],
          a_memory := ''256m'', a_user := Some nobody\<rparr>))
      else None)"

text \<open>The offline OSV scans.\<close>

definition osv_contract :: "contract_args" where
  "osv_contract = plain_contract\<lparr>a_environment := osvEnvironment, a_memory := ''768m'', a_user := Some nobody\<rparr>"

definition offlineContract :: "jsenv \<Rightarrow> contract_inputs \<Rightarrow> jstring \<Rightarrow> (cexn + contract_args) option" where
  "offlineContract E ci pid =
     (if pid = js ''PROCESS-OSV-MISSING-DATABASE-NEGATIVE'' then
        Some (imageOf ci ''osvScanner'' (osv_contract\<lparr>
          a_command := texts offlineOsv @ lockfileArguments (ci_lockfiles ci),
          a_mounts := [(js ''scan-input'', ''/scan''), (js ''osv-empty-cache'', ''/cache'')]\<rparr>))
      else if pid \<in> set (map js [''PROCESS-OSV-VULNERABILITY-CANARY'', ''PROCESS-OSV-VULNERABILITY-DEVELOPMENT-CANARY'',
                                 ''PROCESS-OSV-GO-ADVISORY-CANARY'']) then
        Some (imageOf ci ''osvScanner'' (osv_contract\<lparr>
          a_command := texts (offlineOsv @ [''--lockfile'',
            if pid = js ''PROCESS-OSV-GO-ADVISORY-CANARY'' then ''/fixture/go.mod'' else ''/fixture/pnpm-lock.yaml'']),
          a_mounts := [(process_slug E pid, ''/fixture''), (js ''osv-cache'', ''/cache'')]\<rparr>))
      else if pid = js ''PROCESS-OSV-GO-TRANSITIVE-CANARY'' then
        Some (imageOf ci ''osvScanner'' (osv_contract\<lparr>
          a_command := texts (offlineOsv @ [''--lockfile'', ''/scan/go-module-1/go.mod'']),
          a_mounts := [(js ''go-transitive-scan-input'', ''/scan''), (js ''osv-cache'', ''/cache'')]\<rparr>))
      else if pid = js ''PROCESS-OSV-VULNERABILITY'' then
        Some (imageOf ci ''osvScanner'' (osv_contract\<lparr>
          a_command := texts offlineOsv @ lockfileArguments (ci_lockfiles ci), a_memory := ''1536m'',
          a_mounts := [(js ''scan-input'', ''/scan''), (js ''osv-cache'', ''/cache'')]\<rparr>))
      else None)"

text \<open>The licence scans, which may use the network.\<close>

definition license_contract :: "contract_args" where
  "license_contract = plain_contract\<lparr>a_environment := [(''HOME'', ''/tmp/home'')], a_network := ''bridge'',
     a_user := Some nobody\<rparr>"

definition licenseContract :: "jsenv \<Rightarrow> contract_inputs \<Rightarrow> jstring \<Rightarrow> (cexn + contract_args) option" where
  "licenseContract E ci pid =
     (if pid \<in> set (map js [''PROCESS-OSV-LICENSE-DENIED-CANARY'', ''PROCESS-OSV-LICENSE-UNKNOWN-CANARY'',
                            ''PROCESS-OSV-GO-LICENSE-DENIED-CANARY'']) then
        Some (imageOf ci ''osvScanner'' (license_contract\<lparr>
          a_command := licenseArguments ci ''/fixture/osv-scanner.toml'' @ texts [''--lockfile'',
            if pid = js ''PROCESS-OSV-GO-LICENSE-DENIED-CANARY'' then ''/fixture/go.mod'' else ''/fixture/pnpm-lock.yaml''],
          a_memory := ''768m'', a_mounts := [(process_slug E pid, ''/fixture'')]\<rparr>))
      else if pid = js ''PROCESS-OSV-LICENSE'' then
        Some (imageOf ci ''osvScanner'' (license_contract\<lparr>
          a_command := licenseArguments ci ''/scan/osv-scanner.toml'' @ lockfileArguments (ci_lockfiles ci),
          a_memory := ''1536m'', a_mounts := [(js ''scan-input'', ''/scan'')]\<rparr>))
      else None)"

definition semgrepContract :: "jsenv \<Rightarrow> contract_inputs \<Rightarrow> jstring \<Rightarrow> (cexn + contract_args) option" where
  "semgrepContract E ci pid =
     (if pid = js ''PROCESS-SEMGREP-REPOSITORY'' then
        Some (imageOf ci ''semgrep'' (plain_contract\<lparr>
          a_command := semgrepArguments E ci @ texts [''/src''], a_environment := semgrepEnvironment,
          a_memory := ''1536m'',
          a_mounts := [(js ''semgrep-source'', ''/src''), (js ''semgrep-rules-stage'', ''/rules'')]\<rparr>))
      else if pid = js ''PROCESS-SEMGREP-BLOCKING-FIXTURES'' then
        Some (imageOf ci ''semgrep'' (plain_contract\<lparr>
          a_command := semgrepArguments E ci @ texts [''/fixtures''], a_environment := semgrepEnvironment,
          a_memory := ''768m'',
          a_mounts := [(js ''sast-fixtures'', ''/fixtures''), (js ''semgrep-rules-stage'', ''/rules'')]\<rparr>))
      else None)"

definition databaseContract :: "jsenv \<Rightarrow> contract_inputs \<Rightarrow> jstring \<Rightarrow> (cexn + contract_args) option" where
  "databaseContract E ci pid =
     (if pid = js ''PROCESS-OSV-DATABASE-ZIP-VALIDATION'' then
        Some (bindR (bindR (accR (ci_scanners ci) ''advisoryDatabases'') (elementProperties ''cachePath'')) (\<lambda>paths.
          imageOf ci ''goToolchainImage'' (plain_contract\<lparr>
            a_command := texts [''go'', ''run'', ''./tools/osvdbcheck/cmd/osvdbcheck'', ''--'']
              @ map (\<lambda>p. JStr (js ''/db/'' @ to_text E p)) paths,
            a_environment := goEnvironment, a_memory := ''1536m'',
            a_mounts := [(js ''dbcheck-source'', ''/validator''), (js ''osv-cache'', ''/db'')],
            a_temporaryStorage := ''512m'', a_tmpfsExecutable := True, a_user := Some nobody,
            a_workdir := Some ''/validator''\<rparr>)))
      else None)"

text \<open>\<^verbatim>\<open>/^PROCESS-GO-(MOD-EDIT|LIST)-(.+)$/u\<close>: whether it is a listing, and the module.\<close>

definition go_process :: "jstring \<Rightarrow> (bool \<times> jstring) option" where
  "go_process pid =
     (let edit = js ''PROCESS-GO-MOD-EDIT-''; listing = js ''PROCESS-GO-LIST-'' in
      if starts_with pid edit \<and> drop (length edit) pid \<noteq> [] \<and> \<not> list_ex line_end (drop (length edit) pid)
      then Some (False, drop (length edit) pid)
      else if starts_with pid listing \<and> drop (length listing) pid \<noteq> [] \<and> \<not> list_ex line_end (drop (length listing) pid)
      then Some (True, drop (length listing) pid)
      else None)"

text \<open>\<^verbatim>\<open>manifest.replaceAll(/[^A-Za-z0-9._-]/gu, "-").toUpperCase()\<close>\<close>

definition module_slug :: "jsenv \<Rightarrow> jsval \<Rightarrow> cexn + jstring" where
  "module_slug E manifest =
     (case manifest of
        JStr s \<Rightarrow> Inr (js_upper E (concat (map (\<lambda>p. if length p = 1 \<and> (is_alnum (hd p) \<or> hd p \<in> {46, 95, 45}) then p else [45])
                                         (code_points s))))
      | _ \<Rightarrow> Inl Thrown)"

text \<open>The position of the module with the given slug, counted from one.\<close>

fun findModule :: "jsenv \<Rightarrow> jstring \<Rightarrow> nat \<Rightarrow> jsval list \<Rightarrow> cexn + nat" where
  "findModule E slug n [] = Inl (Refused ''process has no Go input'')"
| "findModule E slug n (m # ms) =
     bindR (bindR (accR m ''manifest'') (module_slug E)) (\<lambda>s. if s = slug then Inr n else findModule E slug (n + 1) ms)"

definition goContract :: "jsenv \<Rightarrow> jsval \<Rightarrow> contract_inputs \<Rightarrow> jstring \<Rightarrow> (cexn + contract_args) option" where
  "goContract E inputs ci pid =
     (case go_process pid of
        None \<Rightarrow> None
      | Some (listing, moduleSlug) \<Rightarrow>
          Some (bindR (if moduleSlug = js ''TRANSITIVE-CANARY'' then Inr (js ''go-transitive-resolve-input/go-module-1'')
                       else bindR (bindR (accR inputs ''go'') arrayR) (\<lambda>ms.
                            bindR (findModule E moduleSlug 1 ms) (\<lambda>n. Inr (js ''go-resolve-input/go-module-'' @ nat_text n))))
            (\<lambda>source. imageOf ci ''goToolchainImage'' (plain_contract\<lparr>
               a_command := texts (if listing then [''go'', ''list'', ''-mod=readonly'', ''-m'', ''-json'', ''all'']
                                   else [''go'', ''mod'', ''edit'', ''-json'']),
               a_environment := goEnvironment, a_memory := ''768m'', a_mounts := [(source, ''/module'')],
               a_network := (if listing then ''bridge'' else ''none''), a_user := Some nobody,
               a_workdir := Some ''/module''\<rparr>))))"

text \<open>The run the contract stands for; a container name is no part of it.\<close>

record expected_run =
  x_args :: contract_args
  x_cidFile :: jstring
  x_mounts :: "docker_mount list"
  x_tmpfs :: jstring

definition contractRun :: "jsenv \<Rightarrow> jstring \<Rightarrow> jstring \<Rightarrow> jstring \<Rightarrow> contract_args \<Rightarrow> expected_run" where
  "contractRun E cwd temporaryRoot pid a =
     \<lparr>x_args = a,
      x_cidFile = resolve_all cwd [temporaryRoot, js ''container-ids'', process_slug E pid @ js ''.cid''],
      x_mounts = map (\<lambda>m. \<lparr>m_source = resolve_all cwd (temporaryRoot # split_on 47 (fst m)),
                            m_destination = js (snd m), m_readOnly = True\<rparr>) (a_mounts a),
      x_tmpfs = js (''/tmp:rw,'' @ (if a_tmpfsExecutable a then ''exec'' else ''noexec'') @ '',nosuid,size=''
                    @ a_temporaryStorage a)\<rparr>"

definition expectedDockerRunContract ::
  "jsenv \<Rightarrow> jstring \<Rightarrow> jstring \<Rightarrow> jsval \<Rightarrow> jsval \<Rightarrow> jstring \<Rightarrow> cexn + expected_run" where
  "expectedDockerRunContract E cwd pid inputs configuration temporaryRoot =
     bindR (contractInputs E inputs configuration) (\<lambda>ci.
       case find (\<lambda>c. \<not> Option.is_none c)
              [versionContract ci pid, offlineContract E ci pid, licenseContract E ci pid, semgrepContract E ci pid,
               databaseContract E ci pid, goContract E inputs ci pid] of
         Some (Some c) \<Rightarrow> bindR c (\<lambda>a. Inr (contractRun E cwd temporaryRoot pid a))
       | _ \<Rightarrow> Inl (Refused ''process has no Docker run contract''))"

section \<open>Recorded output\<close>

definition byteLength :: "jstring \<Rightarrow> jsval" where
  "byteLength s = JNum (Fin (of_nat (length (utf8_encode s))))"

definition find_stdout :: "jsval \<Rightarrow> jsval list \<Rightarrow> jsval option" where
  "find_stdout pid artifacts =
     find (\<lambda>a. strict_eq (getp a ''processId'') pid \<and> is_str (getp a ''stream'') ''stdout'') artifacts"

text \<open>The process identifier is undefined when the check is absent.\<close>

definition validateUnredactedProcessStdoutVariants ::
  "jsenv \<Rightarrow> jsval \<Rightarrow> jstring list \<Rightarrow> jsval list \<Rightarrow> cexn + unit" where
  "validateUnredactedProcessStdoutVariants E pid expectedValues artifacts =
     requireC (case find_stdout pid artifacts of
         None \<Rightarrow> False
       | Some stdout \<Rightarrow> getp stdout ''redacted'' = JBool False
           \<and> list_ex (\<lambda>x. getp stdout ''sha256'' = JStr (sha256Hex E x) \<and> getp stdout ''size'' = byteLength x)
               expectedValues) ''stdout identity is invalid''"

definition validateUnredactedProcessStdout :: "jsenv \<Rightarrow> jsval \<Rightarrow> jstring \<Rightarrow> jsval list \<Rightarrow> cexn + unit" where
  "validateUnredactedProcessStdout E pid expected artifacts =
     requireC (case find_stdout pid artifacts of
         None \<Rightarrow> False
       | Some stdout \<Rightarrow> getp stdout ''redacted'' = JBool False
           \<and> getp stdout ''sha256'' = JStr (sha256Hex E expected) \<and> getp stdout ''size'' = byteLength expected)
       ''stdout identity is invalid''"

section \<open>The shape of a command\<close>

text \<open>A process check whose identity, command and arguments were found to be strings.\<close>

record process_check =
  pc_id :: jstring
  pc_command :: jstring
  pc_arguments :: "jstring list"

text \<open>The trusted values a command is held against.\<close>

record trusted_roots =
  tr_root :: jstring
  tr_controlRoot :: jstring
  tr_temporaryRoot :: jstring
  tr_configuration :: jsval

definition program_named :: "jsenv \<Rightarrow> jstring \<Rightarrow> string \<Rightarrow> bool" where
  "program_named E command name \<longleftrightarrow>
     js_lower E (last_component command) \<in> {js name, js name @ js ''.exe''}"

definition rulesContract :: "jstring \<Rightarrow> jsval \<Rightarrow> (string \<times> jsval list) list" where
  "rulesContract rulesRoot lock =
     [(''PROCESS-RULES-GIT-INIT'', texts [''-C''] @ [JStr rulesRoot] @ texts [''init'', ''--quiet'']),
      (''PROCESS-RULES-GIT-REMOTE'',
        texts [''-C''] @ [JStr rulesRoot] @ texts [''remote'', ''add'', ''origin''] @ [getp lock ''repository'']),
      (''PROCESS-RULES-GIT-FETCH'',
        texts [''-c'', ''protocol.version=2'', ''-C''] @ [JStr rulesRoot]
        @ texts [''fetch'', ''--depth=1'', ''--no-tags'', ''origin''] @ [getp lock ''commit'']),
      (''PROCESS-RULES-COMMIT'', texts [''-C''] @ [JStr rulesRoot] @ texts [''rev-parse'', ''FETCH_HEAD'']),
      (''PROCESS-RULES-TREE'', texts [''-C''] @ [JStr rulesRoot] @ texts [''rev-parse'', ''FETCH_HEAD^{tree}''])]"

definition sameCanonical :: "jsenv \<Rightarrow> jsval \<Rightarrow> jsval \<Rightarrow> string \<Rightarrow> cexn + unit" where
  "sameCanonical E v w m = bindR (canonR E v) (\<lambda>a. bindR (canonR E w) (\<lambda>b. requireC (a = b) m))"

definition rulesShape :: "jsenv \<Rightarrow> process_check \<Rightarrow> jsval list \<Rightarrow> trusted_roots \<Rightarrow> cexn + unit" where
  "rulesShape E check artifacts trusted =
     bindR (accsR (tr_configuration trusted) [''scanners'', ''semgrepRules'']) (\<lambda>lock.
     bindR (if nullish lock then Inl Thrown else Inr ()) (\<lambda>_.
     let rulesRoot = path_join [tr_temporaryRoot trusted, js ''semgrep-rules''];
         pid = pc_id check; arguments = ''rules acquisition arguments are invalid'' in
     case map_of (map (\<lambda>(k, xs). (js k, xs)) (rulesContract rulesRoot lock)) pid of
       None \<Rightarrow> Inl (Refused arguments)
     | Some expected \<Rightarrow>
         bindR (sameCanonical E (strings (pc_arguments check)) (JArr expected) arguments) (\<lambda>_.
         bindR (if pid = js ''PROCESS-RULES-COMMIT''
                then validateUnredactedProcessStdout E (JStr pid) (to_text E (getp lock ''commit'') @ [10]) artifacts
                else Inr ()) (\<lambda>_.
           if pid = js ''PROCESS-RULES-TREE''
           then validateUnredactedProcessStdout E (JStr pid) (to_text E (getp lock ''tree'') @ [10]) artifacts
           else Inr ()))))"

definition cleanup_name :: "jstring \<Rightarrow> bool" where
  "cleanup_name s \<longleftrightarrow>
     (let p = js ''name=^/hedefora-r016-''; r = drop (length p) s in
      starts_with s p \<and> 2 \<le> length r \<and> last r = 36
      \<and> list_all (\<lambda>c. is_lower c \<or> is_digit c \<or> c = 45) (butlast r))"

definition container_id :: "jstring \<Rightarrow> bool" where
  "container_id s \<longleftrightarrow> 12 \<le> length s \<and> length s \<le> 64 \<and> list_all is_lower_hex s"

definition cleanupShape :: "string \<Rightarrow> jstring list \<Rightarrow> bool" where
  "cleanupShape phase args \<longleftrightarrow>
     (phase \<noteq> ''REMOVE'' \<and> length args = 5
        \<and> take 4 args = map js [''container'', ''ls'', ''-aq'', ''--filter''] \<and> cleanup_name (nth_arg args 4))
     \<or> (phase = ''REMOVE'' \<and> 3 \<le> length args \<and> take 2 args = map js [''rm'', ''--force'']
        \<and> list_all container_id (drop 2 args))"

definition cleanup_phase :: "jstring \<Rightarrow> string option" where
  "cleanup_phase pid = find (\<lambda>k. ends_with pid (js (''-CLEANUP-'' @ k))) [''BEFORE'', ''AFTER'', ''REMOVE'']"

definition mountJson :: "docker_mount \<Rightarrow> jsval" where
  "mountJson m = JObj [(js ''source'', JStr (m_source m)), (js ''destination'', JStr (m_destination m)),
                       (js ''readOnly'', JBool (m_readOnly m))]"

definition environmentJson :: "(jstring \<times> jstring) list \<Rightarrow> jsval" where
  "environmentJson env = JObj (map (\<lambda>(k, v). (k, JStr v)) env)"

definition matchesContract :: "jsenv \<Rightarrow> docker_run \<Rightarrow> expected_run \<Rightarrow> cexn + unit" where
  "matchesContract E actual x =
     (let a = x_args x; invalid = ''Docker run contract is invalid'' in
      bindR (requireC (d_cidFile actual = x_cidFile x \<and> a_image a = JStr (d_image actual)
               \<and> d_network actual = js (a_network a) \<and> d_memory actual = js (a_memory a)
               \<and> d_user actual = map_option js (a_user a) \<and> d_workdir actual = map_option js (a_workdir a)
               \<and> d_tmpfs actual = x_tmpfs x) invalid) (\<lambda>_.
      bindR (sameCanonical E (JArr (map mountJson (d_mounts actual))) (JArr (map mountJson (x_mounts x))) invalid) (\<lambda>_.
      bindR (sameCanonical E (environmentJson (d_environment actual))
               (environmentJson (map (\<lambda>(k, v). (js k, js v)) (a_environment a))) invalid) (\<lambda>_.
        sameCanonical E (strings (d_commandArguments actual)) (JArr (a_command a)) invalid))))"

definition dockerShape ::
  "jsenv \<Rightarrow> jstring \<Rightarrow> process_check \<Rightarrow> jsval \<Rightarrow> trusted_roots \<Rightarrow> cexn + unit" where
  "dockerShape E cwd check inputs trusted =
     (case cleanup_phase (pc_id check) of
        Some phase \<Rightarrow> requireC (cleanupShape phase (pc_arguments check)) ''cleanup arguments are invalid''
      | None \<Rightarrow>
          if pc_arguments check = [] \<or> hd (pc_arguments check) \<noteq> js ''run'' then
            bindR (expectedDockerUtilityArguments (pc_id check) (tr_configuration trusted)) (\<lambda>expected.
              sameCanonical E (strings (pc_arguments check)) (JArr expected) ''utility arguments are invalid'')
          else
            bindR (parseDockerRunArguments cwd (pc_arguments check) (tr_root trusted)) (\<lambda>actual.
            bindR (expectedDockerRunContract E cwd (pc_id check) inputs (tr_configuration trusted)
                     (tr_temporaryRoot trusted)) (\<lambda>expected.
              matchesContract E actual expected)))"

definition validateProcessCommandShape ::
  "jsenv \<Rightarrow> jstring \<Rightarrow> process_check \<Rightarrow> jsval \<Rightarrow> jsval list \<Rightarrow> trusted_roots \<Rightarrow> cexn + unit" where
  "validateProcessCommandShape E cwd check inputs artifacts trusted =
     (if list_ex (\<lambda>p. starts_with (pc_id check) (js p)) [''PROCESS-GIT-'', ''PROCESS-RULES-'', ''PROCESS-RULE-BLOB-''] then
        bindR (requireC (program_named E (pc_command check) ''git'') ''not a bound Git command'') (\<lambda>_.
        if starts_with (pc_id check) (js ''PROCESS-RULES-'') then rulesShape E check artifacts trusted
        else requireC (pc_arguments check \<noteq> [] \<and> hd (pc_arguments check) = js ''-C'') ''not a bound Git command'')
      else
        bindR (requireC (program_named E (pc_command check) ''docker'') ''not a Docker command'') (\<lambda>_.
          dockerShape E cwd check inputs trusted))"

end
