(* ===== verification/Repository_Props.thy ===== *)
theory Repository_Props
  imports Repository
begin

text \<open>
  What the repository checks guarantee: which paths are canonical, that the captured index is read
  without loss, and what an accepted use context and an accepted scan inventory imply.
\<close>

section \<open>Canonical paths\<close>

text \<open>A component that names an entry of its directory.\<close>

definition component :: "jstring \<Rightarrow> bool" where
  "component p \<longleftrightarrow> p \<noteq> [] \<and> p \<noteq> js ''.'' \<and> p \<noteq> js ''..''"

lemma dot_texts: "js ''.'' = [46]" "js ''..'' = [46, 46]" "js ''/'' = [47]" "js ''./'' = [46, 47]"
  "js ''../'' = [46, 46, 47]" "js ''/../'' = [47, 46, 46, 47]"
  by (simp_all add: js_def)

lemma split_on_append_sep: "split_on c (a @ c # b) = split_on c a @ split_on c b"
proof (induction a)
  case (Cons x a)
  obtain p ps where "split_on c a = p # ps" by (meson neq_Nil_conv split_on_not_Nil)
  with Cons show ?case by auto
qed simp

lemma split_on_snoc: "split_on c (s @ [c]) = split_on c s @ [[]]"
  using split_on_append_sep[of c s "[]"] by simp

text \<open>The stack is a row of parent steps followed by components.\<close>

definition stack_ok :: "jstring list \<Rightarrow> bool" where
  "stack_ok st \<longleftrightarrow> (\<exists>k cs. st = replicate k (js ''..'') @ cs \<and> list_all component cs)"

lemma stack_ok_step: "stack_ok st \<Longrightarrow> stack_ok (normalize_step True st seg)"
proof -
  assume "stack_ok st"
  then obtain k cs where st: "st = replicate k (js ''..'') @ cs" "list_all component cs"
    by (auto simp: stack_ok_def)
  consider "seg = [] \<or> seg = js ''.''" | "seg = js ''..''" | "component seg" by (auto simp: component_def)
  then show ?thesis
  proof cases
    case 1
    then show ?thesis using st by (auto simp: normalize_step_def stack_ok_def)
  next
    case 2
    show ?thesis
    proof (cases cs rule: rev_cases)
      case Nil
      then have "normalize_step True st seg = replicate (Suc k) (js ''..'') @ []"
        using st 2 by (cases "k = 0") (simp_all add: normalize_step_def dot_texts replicate_append_same)
      then show ?thesis unfolding stack_ok_def by (intro exI[of _ "Suc k"] exI[of _ "[]"]) simp
    next
      case (snoc cs' c)
      then have "normalize_step True st seg = replicate k (js ''..'') @ cs'"
        using st 2 by (simp add: normalize_step_def dot_texts component_def butlast_append)
      then show ?thesis using st snoc unfolding stack_ok_def by (metis list_all_append)
    qed
  next
    case 3
    then have "normalize_step True st seg = replicate k (js ''..'') @ (cs @ [seg])"
      using st by (simp add: normalize_step_def component_def)
    then show ?thesis using st 3 unfolding stack_ok_def by (intro exI[of _ k] exI[of _ "cs @ [seg]"]) simp
  qed
qed

lemma stack_ok_fold: "stack_ok st \<Longrightarrow> stack_ok (foldl (normalize_step True) st segs)"
  by (induction segs arbitrary: st) (auto simp: stack_ok_step)

lemma fold_components: "list_all component cs \<Longrightarrow> foldl (normalize_step b) st cs = st @ cs"
  by (induction cs arbitrary: st) (auto simp: normalize_step_def component_def)

lemma no_sep_step: "\<forall>p \<in> set st. c \<notin> set p \<Longrightarrow> c \<notin> set seg \<Longrightarrow> \<forall>p \<in> set (normalize_step b st seg). c \<notin> set p"
  by (auto simp: normalize_step_def dest: in_set_butlastD)

lemma no_sep_fold:
  "\<forall>p \<in> set st. c \<notin> set p \<Longrightarrow> \<forall>p \<in> set segs. c \<notin> set p \<Longrightarrow>
     \<forall>p \<in> set (foldl (normalize_step b) st segs). c \<notin> set p"
proof (induction segs arbitrary: st)
  case (Cons seg segs)
  have "\<forall>p \<in> set (normalize_step b st seg). c \<notin> set p"
    by (rule no_sep_step) (use Cons.prems in auto)
  from Cons.IH[OF this] Cons.prems(2) show ?case by simp
qed simp

lemma join_eq_Nil: "\<forall>p \<in> set ps. p \<noteq> [] \<Longrightarrow> join [c] ps = [] \<longleftrightarrow> ps = []"
  by (cases ps; cases "tl ps") auto

lemma includes_text_split: "includes_text s (47 # p @ [47]) \<Longrightarrow> 47 \<notin> set p \<Longrightarrow> p \<in> set (split_on 47 s)"
proof -
  assume i: "includes_text s (47 # p @ [47])" and p: "47 \<notin> set p"
  then obtain i where "take (length p + 2) (drop i s) = 47 # p @ [47]"
    by (auto simp: includes_text_def list_ex_iff starts_with_def)
  then have "s = take i s @ 47 # p @ 47 # drop (length p + 2) (drop i s)"
    by (metis append.assoc append_Cons append_Nil append_take_drop_id)
  then have "split_on 47 s = split_on 47 (take i s) @ p # split_on 47 (drop (length p + 2) (drop i s))"
    using p by (metis split_on_append_sep split_on_append)
  then show ?thesis by simp
qed

definition canonical_path :: "jstring \<Rightarrow> bool" where
  "canonical_path s \<longleftrightarrow> 92 \<notin> set s \<and> 0 \<notin> set s
     \<and> (strip_slash s \<noteq> [] \<and> list_all component (split_on 47 (strip_slash s)) \<or> s = js ''..'' \<or> s = js ''./'')"

lemma canonical_path_sound:
  assumes "s \<noteq> []" "\<not> is_absolute s" "normalize s = s" "s \<noteq> js ''.''"
    "\<not> starts_with s (js ''../'')"
  shows "strip_slash s \<noteq> [] \<and> list_all component (split_on 47 (strip_slash s)) \<or> s = js ''..'' \<or> s = js ''./''"
proof -
  define st where "st = foldl (normalize_step True) [] (split_on 47 s)"
  define p where "p = join [47] st"
  have "stack_ok []" by (auto simp: stack_ok_def)
  then have "stack_ok st" unfolding st_def by (rule stack_ok_fold)
  then obtain k cs where st: "st = replicate k (js ''..'') @ cs" "list_all component cs"
    by (auto simp: stack_ok_def)
  have ne: "\<forall>q \<in> set st. q \<noteq> []"
  proof
    fix q assume "q \<in> set st"
    then have "q = js ''..'' \<or> component q" using st by (auto simp: list_all_iff)
    then show "q \<noteq> []" by (auto simp: component_def dot_texts)
  qed
  have sep: "\<forall>q \<in> set st. 47 \<notin> set q" unfolding st_def using split_on_no_sep by (intro no_sep_fold) auto
  have st': "foldl (normalize_step (\<not> is_absolute s)) [] (split_on 47 s) = st"
    using assms(2) by (simp add: st_def)
  have n: "s = (if p = [] then (if last s = 47 then js ''./'' else js ''.'')
      else p @ (if last s = 47 then js ''/'' else []))"
    using assms(1,2) assms(3)[unfolded normalize_def Let_def st' p_def[symmetric]] by (auto split: if_splits)
  show ?thesis
  proof (cases "p = []")
    case True
    then show ?thesis using n assms(4) by (auto split: if_splits)
  next
    case False
    then have "st \<noteq> []" by (auto simp: p_def)
    have t: "strip_slash s = p"
      using n False by (auto simp: strip_slash_def dot_texts split: if_splits)
    have sp: "split_on 47 p = st" unfolding p_def using \<open>st \<noteq> []\<close> sep by (intro split_on_join) auto
    show ?thesis
    proof (cases k)
      case 0
      then show ?thesis using t sp st False by simp
    next
      case (Suc k')
      then have h: "st = js ''..'' # replicate k' (js ''..'') @ cs" using st by simp
      have "replicate k' (js ''..'') @ cs = [] \<and> last s \<noteq> 47"
      proof (rule ccontr)
        assume a: "\<not> ?thesis"
        have "\<exists>r. s = [46, 46, 47] @ r"
        proof (cases "replicate k' (js ''..'') @ cs")
          case Nil
          then show ?thesis using a n h False by (simp add: p_def dot_texts)
        next
          case (Cons q qs)
          then have "p = js ''..'' @ [47] @ join [47] (q # qs)" using h by (simp add: p_def)
          then have "s = [46, 46, 47] @ (join [47] (q # qs) @ (if last s = 47 then js ''/'' else []))"
            using n False by (simp add: dot_texts split: if_splits)
          then show ?thesis by blast
        qed
        then show False using assms(5) by (auto simp: starts_with_def dot_texts)
      qed
      then have "s = js ''..''" using n False h by (simp add: p_def)
      then show ?thesis by simp
    qed
  qed
qed

lemma canonical_path_complete:
  assumes "strip_slash s \<noteq> []" "list_all component (split_on 47 (strip_slash s))"
  shows "s \<noteq> []" "\<not> is_absolute s" "normalize s = s" "s \<noteq> js ''.''"
    "\<not> starts_with s (js ''../'')" "\<not> includes_text s (js ''/../'')"
proof -
  define t where "t = strip_slash s"
  define tail where "tail = (if last s = 47 then [47 :: nat] else [])"
  have t: "t \<noteq> []" "list_all component (split_on 47 t)" using assms by (simp_all add: t_def)
  show ne: "s \<noteq> []" using assms(1) by (auto simp: strip_slash_def)
  have s: "s = t @ tail" using ne by (auto simp: t_def tail_def strip_slash_def) (metis append_butlast_last_id)
  have segs: "split_on 47 s = split_on 47 t @ (if last s = 47 then [[]] else [])"
    using s by (auto simp: tail_def split_on_snoc split: if_splits)
  have hd: "hd t \<noteq> 47" using t by (cases t) (auto simp: component_def)
  then show ab: "\<not> is_absolute s" using s t(1) by (cases t) (auto simp: is_absolute_def starts_with_def dot_texts)
  have f: "foldl (normalize_step True) [] (split_on 47 s) = split_on 47 t"
    using t(2) by (simp add: segs fold_components) (simp add: normalize_step_def)
  show "normalize s = s"
    unfolding normalize_def Let_def using ne ab f t(1) s[symmetric] by (simp add: tail_def dot_texts split: if_splits)
  have dots: "js ''..'' \<notin> set (split_on 47 s)" "js ''.'' \<notin> set (split_on 47 s)"
    using t(2) segs by (auto simp: list_all_iff component_def dot_texts split: if_splits)
  show "s \<noteq> js ''.''"
    using dots(2) by (auto simp: dot_texts)
  show "\<not> starts_with s (js ''../'')"
  proof
    assume "starts_with s (js ''../'')"
    then have "s = js ''..'' @ 47 # drop 3 s"
      by (metis append.assoc append_Cons append_Nil append_take_drop_id dot_texts(2,5) length_Cons list.size(3) numeral_3_eq_3 starts_with_def)
    then have "split_on 47 s = js ''..'' # split_on 47 (drop 3 s)"
      by (metis dot_texts(2) empty_iff insert_iff list.set(1,2) numeral_eq_iff semiring_norm(85,88,89) split_on_append)
    with dots(1) show False by simp
  qed
  show "\<not> includes_text s (js ''/../'')"
    using dots(1) includes_text_split[of s "js ''..''"] by (auto simp: dot_texts)
qed

text \<open>A repository path is accepted exactly when it has no backslash and no NUL and its
  components, after one optional trailing slash, are neither empty nor dots, apart from the two
  texts of two dots and of a dot with a slash, which are accepted as well.\<close>

lemma validateRepositoryPath_iff:
  "validateRepositoryPath (JStr s) = Inr () \<longleftrightarrow> canonical_path s"
proof
  assume "validateRepositoryPath (JStr s) = Inr ()"
  then show "canonical_path s"
    using canonical_path_sound[of s] by (auto simp: validateRepositoryPath_def canonical_path_def)
next
  assume c: "canonical_path s"
  then consider "strip_slash s \<noteq> [] \<and> list_all component (split_on 47 (strip_slash s))" | "s = js ''..''" | "s = js ''./''"
    by (auto simp: canonical_path_def)
  then show "validateRepositoryPath (JStr s) = Inr ()"
  proof cases
    case 1
    then show ?thesis
      using canonical_path_complete[of s] c by (simp add: validateRepositoryPath_def canonical_path_def)
  next
    case 2
    then show ?thesis
      by (simp add: validateRepositoryPath_def is_absolute_def normalize_def normalize_step_def starts_with_def
          includes_text_def dot_texts upt_rec)
  next
    case 3
    then show ?thesis
      by (simp add: validateRepositoryPath_def is_absolute_def normalize_def normalize_step_def starts_with_def
          includes_text_def dot_texts upt_rec)
  qed
qed

text \<open>The parent directory is accepted as a canonical repository path.\<close>

lemma parent_directory_is_accepted: "validateRepositoryPath (JStr (js ''..'')) = Inr ()"
  by (simp add: validateRepositoryPath_iff canonical_path_def dot_texts)

section \<open>The captured index\<close>

definition index_record :: "git_entry \<Rightarrow> jstring" where
  "index_record e = gi_mode e @ 32 # gi_object e @ [32, 48 + gi_stage e, 9] @ gi_path e"

definition index_text :: "git_entry list \<Rightarrow> jstring" where
  "index_text es = concat (map (\<lambda>e. index_record e @ [0]) es)"

lemma git_record_written:
  assumes "length (gi_mode e) = 6" "list_all is_digit (gi_mode e)" "gi_object e \<noteq> []"
    "list_all is_lower_hex (gi_object e)" "gi_stage e \<le> 3" "gi_path e \<noteq> []"
  shows "git_record (index_record e) = Some e"
proof -
  let ?q = "[32, 48 + gi_stage e, 9] @ gi_path e"
  have h: "\<not> is_lower_hex 32" by (simp add: is_lower_hex_def is_digit_def)
  have w: "takeWhile is_lower_hex (gi_object e @ ?q) = gi_object e" "dropWhile is_lower_hex (gi_object e @ ?q) = ?q"
    using assms(4) h by (simp_all add: list_all_iff)
  have t: "take 6 (index_record e) = gi_mode e" "drop 6 (index_record e) = 32 # gi_object e @ ?q"
    using assms(1) by (simp_all add: index_record_def)
  show ?thesis
    unfolding git_record_def Let_def t using assms w by simp
qed

lemma git_record_read:
  assumes "git_record s = Some e"
  shows "length (gi_mode e) = 6 \<and> list_all is_digit (gi_mode e) \<and> gi_object e \<noteq> []
     \<and> list_all is_lower_hex (gi_object e) \<and> gi_stage e \<le> 3 \<and> gi_path e \<noteq> [] \<and> s = index_record e"
proof -
  define r where "r = drop 6 s"
  define h where "h = takeWhile is_lower_hex (tl r)"
  define q where "q = dropWhile is_lower_hex (tl r)"
  have c: "length (take 6 s) = 6" "list_all is_digit (take 6 s)" "r \<noteq> []" "hd r = 32" "h \<noteq> []" "3 < length q"
      "q ! 0 = 32" "48 \<le> q ! 1" "q ! 1 \<le> 51" "q ! 2 = 9"
    and e: "e = \<lparr>gi_mode = take 6 s, gi_object = h, gi_path = drop 3 q, gi_stage = q ! 1 - 48\<rparr>"
    using assms unfolding git_record_def Let_def r_def[symmetric] h_def[symmetric] q_def[symmetric]
    by (simp_all split: if_splits)
  have "s = take 6 s @ 32 # tl r"
    using c(3,4) by (metis append_take_drop_id list.collapse r_def)
  moreover have "tl r = h @ q" by (simp add: h_def q_def)
  moreover have "q = [32, q ! 1, 9] @ drop 3 q"
    using c(6,7,10) by (metis One_nat_def Suc_1 append_Cons append_Nil Cons_nth_drop_Suc drop0 eval_nat_numeral(3)
        less_trans lessI zero_less_Suc)
  ultimately have "s = take 6 s @ 32 # h @ [32, q ! 1, 9] @ drop 3 q" by simp
  moreover have "list_all is_lower_hex h"
    using set_takeWhileD[of _ is_lower_hex "tl r"] by (auto simp: h_def list_all_iff)
  ultimately show ?thesis using c e by (simp add: index_record_def)
qed

definition valid_entry :: "git_entry \<Rightarrow> bool" where
  "valid_entry e \<longleftrightarrow> length (gi_mode e) = 6 \<and> list_all is_digit (gi_mode e) \<and> hex_object_id (gi_object e)
     \<and> gi_stage e = 0 \<and> gi_path e \<noteq> [] \<and> canonical_path (gi_path e)"

lemma gitIndexEntry_iff:
  "gitIndexEntry es s = Inr es' \<longleftrightarrow>
     (\<exists>e. es' = es @ [e] \<and> s = index_record e \<and> valid_entry e \<and> gi_path e \<notin> gi_path ` set es)"
proof
  assume "gitIndexEntry es s = Inr es'"
  then obtain e where "git_record s = Some e" "canonical_path (gi_path e)" "hex_object_id (gi_object e)"
    "gi_stage e = 0" "gi_path e \<notin> gi_path ` set es" "es' = es @ [e]"
    by (auto simp: gitIndexEntry_def validateRepositoryPath_iff split: option.splits)
  with git_record_read show "\<exists>e. es' = es @ [e] \<and> s = index_record e \<and> valid_entry e \<and> gi_path e \<notin> gi_path ` set es"
    by (auto simp: valid_entry_def)
next
  assume "\<exists>e. es' = es @ [e] \<and> s = index_record e \<and> valid_entry e \<and> gi_path e \<notin> gi_path ` set es"
  then obtain e where e: "es' = es @ [e]" "s = index_record e" "valid_entry e" "gi_path e \<notin> gi_path ` set es" by blast
  have "git_record s = Some e"
    unfolding e(2) using e(3) by (intro git_record_written) (auto simp: valid_entry_def hex_object_id_def)
  then show "gitIndexEntry es s = Inr es'"
    using e by (simp add: gitIndexEntry_def validateRepositoryPath_iff valid_entry_def requireC_def)
qed

lemma gitIndex_fold:
  "foldR gitIndexEntry es rs = Inr es' \<longleftrightarrow>
     (\<exists>new. es' = es @ new \<and> rs = map index_record new \<and> list_all valid_entry new
        \<and> distinct (map gi_path new) \<and> gi_path ` set new \<inter> gi_path ` set es = {})"
proof (induction rs arbitrary: es)
  case (Cons r rs)
  have "foldR gitIndexEntry es (r # rs) = Inr es' \<longleftrightarrow>
      (\<exists>e. r = index_record e \<and> valid_entry e \<and> gi_path e \<notin> gi_path ` set es \<and> foldR gitIndexEntry (es @ [e]) rs = Inr es')"
    by (auto simp: gitIndexEntry_iff)
  also have "\<dots> \<longleftrightarrow> (\<exists>e new. r = index_record e \<and> valid_entry e \<and> gi_path e \<notin> gi_path ` set es
      \<and> es' = es @ e # new \<and> rs = map index_record new \<and> list_all valid_entry new
      \<and> distinct (map gi_path new) \<and> gi_path ` set new \<inter> gi_path ` set (es @ [e]) = {})"
    by (simp add: Cons.IH)
  also have "\<dots> \<longleftrightarrow> (\<exists>new. es' = es @ new \<and> r # rs = map index_record new \<and> list_all valid_entry new
        \<and> distinct (map gi_path new) \<and> gi_path ` set new \<inter> gi_path ` set es = {})" (is "?l \<longleftrightarrow> ?r")
  proof
    assume ?l
    then obtain e new where "r = index_record e" "valid_entry e" "gi_path e \<notin> gi_path ` set es"
      "es' = es @ e # new" "rs = map index_record new" "list_all valid_entry new"
      "distinct (map gi_path new)" "gi_path ` set new \<inter> gi_path ` set (es @ [e]) = {}" by blast
    then show ?r by (intro exI[of _ "e # new"]) auto
  next
    assume ?r
    then obtain new where n: "es' = es @ new" "r # rs = map index_record new" "list_all valid_entry new"
      "distinct (map gi_path new)" "gi_path ` set new \<inter> gi_path ` set es = {}" by (elim exE conjE) (rule that)
    then obtain e new' where "new = e # new'" by (cases new) auto
    with n show ?l by (intro exI[of _ e] exI[of _ new']) auto
  qed
  finally show ?case .
qed auto

lemma index_record_no_nul: "valid_entry e \<Longrightarrow> 0 \<notin> set (index_record e)"
  by (auto simp: valid_entry_def index_record_def canonical_path_def hex_object_id_def list_all_iff
      is_lower_hex_def is_digit_def)

lemma join_terminated: "ps \<noteq> [] \<Longrightarrow> join [c] ps @ [c] = concat (map (\<lambda>p. p @ [c]) ps)"
proof (induction ps)
  case (Cons p ps)
  then show ?case by (cases ps) auto
qed simp

text \<open>C26: The index reader is exact: it accepts a text precisely when the text is the listing, one
  NUL-terminated record per entry, of a nonempty list of stage-zero entries with six-digit modes, full
  object identities and distinct canonical paths, and it returns that very list.\<close>

theorem git_index_is_read_exactly:
  "parseGitIndex (JStr t) = Inr es \<longleftrightarrow>
     t = index_text es \<and> es \<noteq> [] \<and> list_all valid_entry es \<and> distinct (map gi_path es)"
proof
  assume "parseGitIndex (JStr t) = Inr es"
  then have t: "t \<noteq> []" "ends_with t [0]" "foldR gitIndexEntry [] (split_on 0 (butlast t)) = Inr es" "es \<noteq> []"
    by (auto simp: parseGitIndex_def)
  from t(3) have es: "split_on 0 (butlast t) = map index_record es" "list_all valid_entry es" "distinct (map gi_path es)"
    unfolding gitIndex_fold by auto
  have "t = butlast t @ [0]"
    using t(1,2) by (cases t rule: rev_cases) (auto simp: ends_with_def)
  also have "\<dots> = join [0] (map index_record es) @ [0]" using join_split_on[of 0 "butlast t"] es(1) by simp
  also have "\<dots> = index_text es" using t(4) by (simp add: join_terminated index_text_def comp_def)
  finally show "t = index_text es \<and> es \<noteq> [] \<and> list_all valid_entry es \<and> distinct (map gi_path es)"
    using es t(4) by blast
next
  assume a: "t = index_text es \<and> es \<noteq> [] \<and> list_all valid_entry es \<and> distinct (map gi_path es)"
  then have t: "t = join [0] (map index_record es) @ [0]" by (simp add: join_terminated index_text_def comp_def)
  have "split_on 0 (butlast t) = map index_record es"
    unfolding t using a index_record_no_nul by (simp add: split_on_join list_all_iff)
  moreover have "foldR gitIndexEntry [] (map index_record es) = Inr es"
    unfolding gitIndex_fold using a by (intro exI[of _ es]) auto
  moreover have "t \<noteq> []" "ends_with t [0]" unfolding t by (simp_all add: ends_with_def)
  ultimately show "parseGitIndex (JStr t) = Inr es"
    using a by (simp add: parseGitIndex_def requireC_def)
qed

section \<open>Semgrep inventories\<close>

lemma addPath_Inr:
  "addPath found v = Inr found' \<longleftrightarrow>
     (\<exists>s. v = JStr s \<and> canonical_path s \<and> s \<notin> set found \<and> found' = found @ [s])"
  using validateRepositoryPath_iff by (cases v) (auto simp: addPath_def validateRepositoryPath_def)

lemma addPath_fold:
  "foldR addPath found vs = Inr qs \<longleftrightarrow>
     (\<exists>ps. vs = map JStr ps \<and> qs = found @ ps \<and> distinct ps \<and> set ps \<inter> set found = {}
        \<and> list_all canonical_path ps)"
proof (induction vs arbitrary: found)
  case (Cons v vs)
  have "foldR addPath found (v # vs) = Inr qs \<longleftrightarrow>
      (\<exists>s. v = JStr s \<and> canonical_path s \<and> s \<notin> set found \<and> foldR addPath (found @ [s]) vs = Inr qs)"
    by (auto simp: addPath_Inr)
  also have "\<dots> \<longleftrightarrow> (\<exists>ps. v # vs = map JStr ps \<and> qs = found @ ps \<and> distinct ps \<and> set ps \<inter> set found = {}
        \<and> list_all canonical_path ps)" (is "?l \<longleftrightarrow> ?r")
  proof
    assume ?l
    then obtain s ps where "v = JStr s" "canonical_path s" "s \<notin> set found" "vs = map JStr ps" "qs = found @ s # ps"
      "distinct ps" "set ps \<inter> set (found @ [s]) = {}" "list_all canonical_path ps"
      by (auto simp: Cons.IH)
    then show ?r by (intro exI[of _ "s # ps"]) auto
  next
    assume ?r
    then obtain s ps where "v = JStr s" "vs = map JStr ps" "qs = found @ s # ps" "distinct (s # ps)"
      "set (s # ps) \<inter> set found = {}" "list_all canonical_path (s # ps)" by (auto simp: Cons_eq_map_conv)
    then show ?l unfolding Cons.IH by (intro exI[of _ s] exI[of _ ps] conjI) auto
  qed
  finally show ?case .
qed auto

lemma exactPathSet_Inr:
  "exactPathSet v = Inr qs \<longleftrightarrow> v = strings qs \<and> distinct qs \<and> list_all canonical_path qs"
  by (cases v) (auto simp: exactPathSet_def strings_def addPath_fold)

lemma canonR_writable: "writable E v \<Longrightarrow> \<exists>t. canonR E v = Inr t \<and> parse_text t = Inr (normal_form v)"
  using canonicalJson_Inr[of E v] parse_canonical(1)[of E v] by (auto simp: canonR_def jsonR_def)

lemma writable_strings [simp]: "writable E (strings ss)"
  by (simp add: strings_def list_all_iff)

lemma normal_form_strings: "normal_form (strings ss) = strings ss"
  by (induction ss) (simp_all add: strings_def)

lemma strings_inject [simp]: "strings a = strings b \<longleftrightarrow> a = b"
  by (auto simp: strings_def inj_map_eq_map inj_def)

lemma canonR_strings: "canonR E (strings a) = Inr t \<Longrightarrow> canonR E (strings b) = Inr t \<longleftrightarrow> a = b"
proof
  assume "canonR E (strings a) = Inr t" "canonR E (strings b) = Inr t"
  then have "strings a = strings b"
    using canonR_writable[OF writable_strings, of E a] canonR_writable[OF writable_strings, of E b]
    by (simp add: normal_form_strings)
  then show "a = b" by (simp add: strings_def inj_map_eq_map inj_def)
qed simp

lemma sort_eq_iff: "sort a = sort b \<longleftrightarrow> mset a = mset (b :: 'a :: linorder list)"
proof
  assume "sort a = sort b"
  then have "mset (sort a) = mset (sort b)" by (rule arg_cong)
  then show "mset a = mset b" by simp
next
  assume "mset a = mset b"
  then show "sort a = sort b" by (intro properties_for_sort) simp_all
qed

lemma assertExactObjectKeys_iff:
  "assertExactObjectKeys E v ks = Inr () \<longleftrightarrow> is_record v \<and> mset (keys_of v) = mset (map js ks)"
proof -
  obtain a b where ab: "canonR E (strings (sort (keys_of v))) = Inr a"
    "canonR E (strings (sort (map js ks))) = Inr b"
    using canonR_writable[OF writable_strings] by blast
  have "a = b \<longleftrightarrow> canonR E (strings (sort (map js ks))) = Inr a" using ab(2) by auto
  also have "\<dots> \<longleftrightarrow> sort (keys_of v) = sort (map js ks)" using canonR_strings[OF ab(1)] by blast
  also have "\<dots> \<longleftrightarrow> mset (keys_of v) = mset (map js ks)" by (rule sort_eq_iff)
  finally show ?thesis by (simp add: assertExactObjectKeys_def needRecord_def ab)
qed

lemma array_case: "(case v of JArr xs \<Rightarrow> Inr xs | _ \<Rightarrow> Inl e) = Inr ys \<longleftrightarrow> v = JArr ys"
  by (cases v) auto

text \<open>Where a scanned path points inside the repository.\<close>

definition scanned_at :: "jstring \<Rightarrow> jsval \<Rightarrow> jstring \<Rightarrow> bool" where
  "scanned_at containerRoot v p \<longleftrightarrow>
     (let r = strip_slash (normalize containerRoot) in
      (v = JStr (r @ js ''/'' @ p) \<or> v = JStr (tl r @ js ''/'' @ p)) \<and> canonical_path p)"

lemma starts_withD: "starts_with s p \<Longrightarrow> s = p @ drop (length p) s"
  by (metis append_take_drop_id starts_with_def)

lemma semgrepRepositoryPath_Inr: "semgrepRepositoryPath r v = Inr p \<Longrightarrow> scanned_at r v p"
proof -
  assume a: "semgrepRepositoryPath r v = Inr p"
  then obtain s where v: "v = JStr s" by (cases v) (auto simp: semgrepRepositoryPath_def)
  define c where "c = strip_slash (normalize r)"
  have f: "(case find (\<lambda>c. starts_with s c) [c @ js ''/'', tl c @ js ''/''] of
      None \<Rightarrow> Inl (Refused ''scanned path is outside the root'')
    | Some pre \<Rightarrow> bindR (validateRepositoryPath (JStr (drop (length pre) s))) (\<lambda>_. Inr (drop (length pre) s))) = Inr p"
    using a unfolding semgrepRepositoryPath_def Let_def c_def[symmetric] v by (simp del: find.simps)
  then obtain pre where pre: "find (\<lambda>c. starts_with s c) [c @ js ''/'', tl c @ js ''/''] = Some pre"
    by (cases "find (\<lambda>c. starts_with s c) [c @ js ''/'', tl c @ js ''/'']") (simp_all del: find.simps)
  have p: "validateRepositoryPath (JStr (drop (length pre) s)) = Inr ()" "p = drop (length pre) s"
    using f unfolding pre option.case by (auto simp del: drop_eq_Nil)
  have pr: "starts_with s pre" "pre = c @ js ''/'' \<or> pre = tl c @ js ''/''"
    using pre by (auto split: if_splits)
  have "s = pre @ p" using starts_withD[OF pr(1)] p(2) by simp
  with pr(2) have "s = c @ js ''/'' @ p \<or> s = tl c @ js ''/'' @ p" by (elim disjE) simp_all
  moreover have "canonical_path p" using p validateRepositoryPath_iff[of p] by simp
  ultimately show ?thesis unfolding scanned_at_def Let_def c_def[symmetric] v by simp
qed

text \<open>C28: When source parity is accepted, Semgrep scanned exactly the expected files: the scanned
  paths are, without repetition, the expected ones below the container root, every finding lies in
  one of them, and the count is the number of expected paths.\<close>

theorem semgrep_parity_is_exact:
  "case assertSemgrepSourceParity E document (strings expected) containerRoot of
     Inl _ \<Rightarrow> True
   | Inr (pathCount, digest) \<Rightarrow>
       (\<exists>parsed scanned actual. getp (getp parsed ''paths'') ''scanned'' = JArr scanned
          \<and> (document = parsed \<or> (\<exists>s. document = JStr s \<and> parseStrictJson (DocText s) = Inr parsed))
          \<and> list_all2 (scanned_at containerRoot) scanned actual \<and> mset actual = mset expected \<and> distinct expected
          \<and> list_all (\<lambda>f. \<exists>p. scanned_at containerRoot (getp f ''path'') p \<and> p \<in> set expected)
              (case getp parsed ''results'' of JArr fs \<Rightarrow> fs | _ \<Rightarrow> []))
       \<and> pathCount = length expected"
proof (cases "assertSemgrepSourceParity E document (strings expected) containerRoot")
  case (Inr r)
  obtain pathCount digest where r: "r = (pathCount, digest)" by (cases r)
  from Inr[unfolded r] obtain parsed scanned actual t fs u where
    doc: "(case document of JStr s \<Rightarrow> jsonR (parseStrictJson (DocText s)) | _ \<Rightarrow> Inr document) = Inr parsed"
    and sc: "getp (getp parsed ''paths'') ''scanned'' = JArr scanned"
    and ex: "distinct expected"
    and ac: "mapR (semgrepRepositoryPath containerRoot) scanned = Inr actual" "distinct actual"
    and t: "canonR E (strings (sortedPaths E actual)) = Inr t" "canonR E (strings (sortedPaths E expected)) = Inr t"
    and fs: "coalesce (getp parsed ''results'') (JArr []) = JArr fs"
      "foldR (\<lambda>_. semgrepResult containerRoot expected) () fs = Inr u"
    and n: "pathCount = length actual"
    unfolding assertSemgrepSourceParity_def bindR_eq_Inr requireC_Inr exactPathSet_Inr strings_inject
      array_case sum.inject prod.inject
    apply (elim exE conjE)
    apply hypsubst
    apply (rule that)
             apply assumption+
    done
  have "sortedPaths E actual = sortedPaths E expected" using canonR_strings[OF t(1)] t(2) by simp
  then have m: "mset actual = mset expected" unfolding sortedPaths_def by (metis mset_sort_by)
  have l: "list_all2 (scanned_at containerRoot) scanned actual"
    using ac(1) unfolding mapR_Inr_iff by (rule list_all2_mono) (rule semgrepRepositoryPath_Inr)
  have d: "document = parsed \<or> (\<exists>s. document = JStr s \<and> parseStrictJson (DocText s) = Inr parsed)"
    using doc by (cases document) auto
  have f: "list_all (\<lambda>f. \<exists>p. scanned_at containerRoot (getp f ''path'') p \<and> p \<in> set expected) fs"
    using fs(2) semgrepRepositoryPath_Inr unfolding unit_eq[of u] foldR_unit list_all_iff semgrepResult_def by fastforce
  have "(case getp parsed ''results'' of JArr fs \<Rightarrow> fs | _ \<Rightarrow> []) = fs"
    using fs(1) by (auto simp: coalesce_def nullish_def split: jsval.splits if_splits)
  with d sc l m ex f n show ?thesis
    unfolding Inr r by (auto dest: mset_eq_length)
qed simp

lemma addExtension_Inr:
  "addExtension g m v = Inr m' \<longleftrightarrow> (\<exists>s. v = JStr s \<and> extension_pattern s \<and> s \<notin> fst ` set m \<and> m' = m @ [(s, g)])"
  by (cases v) (auto simp: addExtension_def)

lemma addExtension_fold:
  assumes "foldR (addExtension g) m vs = Inr m'" "distinct (map fst m)"
  shows "distinct (map fst m') \<and> (\<exists>ps. vs = map JStr ps \<and> m' = m @ map (\<lambda>s. (s, g)) ps)"
  using assms
proof (induction vs arbitrary: m)
  case (Cons v vs)
  from Cons.prems(1) obtain s where s: "v = JStr s" "s \<notin> fst ` set m"
    and r: "foldR (addExtension g) (m @ [(s, g)]) vs = Inr m'" by (auto simp: addExtension_Inr)
  have "distinct (map fst (m @ [(s, g)]))" using Cons.prems(2) s(2) by auto
  from Cons.IH[OF r this] obtain ps where "distinct (map fst m')" "vs = map JStr ps"
    "m' = (m @ [(s, g)]) @ map (\<lambda>s. (s, g)) ps" by blast
  then show ?case using s(1) by (auto intro!: exI[of _ "s # ps"])
qed simp

text \<open>The group a path belongs to under a table of language groups.\<close>

definition in_group :: "jsenv \<Rightarrow> (jstring \<times> jsval) list \<Rightarrow> jstring \<Rightarrow> jstring \<Rightarrow> bool" where
  "in_group E groups p g \<longleftrightarrow>
     (\<exists>exts. (g, JArr exts) \<in> set groups \<and> JStr (js_lower E (extname p)) \<in> set exts)"

definition table_ok :: "(jstring \<times> jsval) list \<Rightarrow> (jstring \<times> jstring) list \<Rightarrow> bool" where
  "table_ok groups m \<longleftrightarrow> distinct (map fst m)
     \<and> (\<forall>x g. (x, g) \<in> set m \<longleftrightarrow> (\<exists>exts. (g, JArr exts) \<in> set groups \<and> JStr x \<in> set exts))
     \<and> (\<forall>g \<in> fst ` set groups. \<exists>x. (x, g) \<in> set m)"

lemma addGroup_ok:
  assumes "addGroup m g = Inr m'" "table_ok gs m"
  shows "table_ok (gs @ [g]) m'"
proof -
  from assms(1) obtain name exts where g: "g = (name, JArr exts)" "exts \<noteq> []"
    and f: "foldR (addExtension name) m exts = Inr m'"
    by (auto simp: addGroup_def split: prod.splits jsval.splits)
  obtain ps where ps: "distinct (map fst m')" "exts = map JStr ps" "m' = m @ map (\<lambda>s. (s, name)) ps"
    using addExtension_fold[OF f] assms(2) by (auto simp: table_ok_def)
  have 1: "(x, h) \<in> set m' \<longleftrightarrow> (\<exists>exts. (h, JArr exts) \<in> set (gs @ [g]) \<and> JStr x \<in> set exts)" for x h
    using assms(2) ps g by (auto simp: table_ok_def)
  have 2: "\<exists>x. (x, h) \<in> set m'" if "h \<in> fst ` set (gs @ [g])" for h
  proof (cases "h = name")
    case True
    then show ?thesis using ps g by (cases ps) auto
  next
    case False
    then have "h \<in> fst ` set gs" using that g(1) by auto
    then obtain x where "(x, h) \<in> set m" using assms(2) unfolding table_ok_def by blast
    then show ?thesis using ps(3) by auto
  qed
  show ?thesis using ps(1) 1 2 unfolding table_ok_def by blast
qed

lemma addGroup_fold:
  assumes "foldR addGroup [] gs = Inr m"
  shows "table_ok gs m"
proof -
  have "table_ok ([] @ gs) m"
    by (rule foldR_prefix[where I = "\<lambda>m gs. table_ok gs m", OF assms]) (simp add: table_ok_def, rule addGroup_ok)
  then show ?thesis by simp
qed

lemma table_lookup: "table_ok gs m \<Longrightarrow> map_of m (js_lower E (extname p)) = Some g \<longleftrightarrow> in_group E gs p g"
  unfolding table_ok_def in_group_def by (metis map_of_eq_Some_iff)

definition select_inv ::
  "jsenv \<Rightarrow> (jstring \<times> jstring) list \<Rightarrow> (git_entry \<times> jstring) list \<times> jstring counts \<Rightarrow> git_entry list \<Rightarrow> bool" where
  "select_inv E m st done \<longleftrightarrow>
     fst st = concat (map (\<lambda>e. case map_of m (js_lower E (extname (gi_path e))) of None \<Rightarrow> [] | Some g \<Rightarrow> [(e, g)]) done)
     \<and> list_all (\<lambda>e. regular_mode (gi_mode (fst e))) (fst st)
     \<and> (\<forall>g. get_count (snd st) g = length (filter (\<lambda>e. snd e = g) (fst st)))
     \<and> distinct (map fst (snd st)) \<and> snd ` set m \<subseteq> fst ` set (snd st)"

lemma selectFile_inv:
  assumes "select_inv E m st ds" "selectFile E m st e = Inr st'"
  shows "select_inv E m st' (ds @ [e])"
proof (cases "map_of m (js_lower E (extname (gi_path e)))")
  case None
  then show ?thesis using assms by (auto simp: selectFile_def select_inv_def split: prod.splits)
next
  case (Some g)
  then have s: "st' = (fst st @ [(e, g)], bump (snd st) g)" "regular_mode (gi_mode e)"
    using assms(2) by (auto simp: selectFile_def split: prod.splits)
  have k: "fst ` set (bump (snd st) g) = insert g (fst ` set (snd st))"
    using keys_bump[of "snd st" g] by simp
  show ?thesis
    using assms(1) s Some distinct_bump[of "snd st" g] by (auto simp: select_inv_def get_count_bump k)
qed

text \<open>C27: The selection returns exactly the entries of the index whose extension belongs to a
  language group, each with its group and each a regular file, and reports for every configured
  group the number of its files, which is never zero.\<close>

theorem selected_sources_are_complete:
  "case selectTrackedSourceFiles E entries (JObj groups) of
     Inl _ \<Rightarrow> True
   | Inr (files, groupCounts) \<Rightarrow>
       mset (map fst files) = mset (filter (\<lambda>e. \<exists>g. in_group E groups (gi_path e) g) entries)
       \<and> list_all (\<lambda>(e, g). in_group E groups (gi_path e) g \<and> regular_mode (gi_mode e)) files
       \<and> list_all (\<lambda>(g, _). get_count groupCounts g = length (filter (\<lambda>f. snd f = g) files)
                        \<and> get_count groupCounts g \<noteq> 0) groups"
proof (cases "selectTrackedSourceFiles E entries (JObj groups)")
  case (Inr r)
  then obtain m selected counts where
    m: "foldR addGroup [] groups = Inr m"
    and f: "foldR (selectFile E m) ([], map (\<lambda>g. (g, 0)) (uniq (map snd m))) entries = Inr (selected, counts)"
    and z: "list_all (\<lambda>c. snd c \<noteq> 0) counts"
    and r: "r = (sort_by (\<lambda>a b. js_locale_le E (gi_path (fst a)) (gi_path (fst b))) selected, counts)"
    by (auto simp: selectTrackedSourceFiles_def split: prod.splits)
  have t: "table_ok groups m" using m by (rule addGroup_fold)
  note look = table_lookup[OF t]
  have "get_count (map (\<lambda>g. (g, 0)) xs) g = 0" for xs and g :: jstring
    by (induction xs) (auto simp: get_count_def)
  then have "select_inv E m ([], map (\<lambda>g. (g, 0)) (uniq (map snd m))) []"
    by (simp add: select_inv_def comp_def image_image)
  then have "select_inv E m (selected, counts) ([] @ entries)"
    by (rule foldR_prefix[where I = "select_inv E m", OF f]) (rule selectFile_inv)
  then have i: "select_inv E m (selected, counts) entries" by simp
  have sel: "selected = concat (map (\<lambda>e. case map_of m (js_lower E (extname (gi_path e))) of None \<Rightarrow> []
      | Some g \<Rightarrow> [(e, g)]) entries)"
    using i by (simp add: select_inv_def)
  have "map fst (concat (map (\<lambda>e. case map_of m (js_lower E (extname (gi_path e))) of None \<Rightarrow> []
      | Some g \<Rightarrow> [(e, g)]) es)) = filter (\<lambda>e. \<exists>g. in_group E groups (gi_path e) g) es" for es
    by (induction es) (auto simp: look[symmetric] split: option.splits)
  then have 1: "map fst selected = filter (\<lambda>e. \<exists>g. in_group E groups (gi_path e) g) entries"
    using sel by simp
  have 2: "list_all (\<lambda>(e, g). in_group E groups (gi_path e) g \<and> regular_mode (gi_mode e)) selected"
  proof -
    have "in_group E groups (gi_path e) g" if "(e, g) \<in> set selected" for e g
      using that unfolding sel by (auto simp: look[symmetric] split: option.splits)
    moreover have "list_all (\<lambda>e. regular_mode (gi_mode (fst e))) selected"
      using i unfolding select_inv_def fst_conv by blast
    ultimately show ?thesis by (auto simp only: list_all_iff split: prod.splits) (metis fst_conv)
  qed
  have 3: "get_count counts g = length (filter (\<lambda>f. snd f = g) selected) \<and> get_count counts g \<noteq> 0"
    if "(g, v) \<in> set groups" for g v
  proof -
    have "g \<in> fst ` set groups" using that by force
    then obtain x where "(x, g) \<in> set m" using t by (auto simp: table_ok_def)
    then have "g \<in> snd ` set m" by force
    then have k: "g \<in> fst ` set counts" using i by (auto simp: select_inv_def)
    then obtain c where c: "(g, c) \<in> set counts" by force
    then have "c \<noteq> 0" using z by (auto simp: list_all_iff)
    moreover have "get_count counts g = c"
      using c i by (simp add: get_count_def select_inv_def map_of_eq_Some_iff)
    ultimately show ?thesis using i by (simp add: select_inv_def)
  qed
  have "length (filter P (sort_by le xs)) = length (filter P xs)" for P le and xs :: "(git_entry \<times> jstring) list"
    by (metis mset_filter mset_sort_by size_mset)
  then have 4: "list_all (\<lambda>(g, _). get_count counts g = length (filter (\<lambda>f. snd f = g)
      (sort_by (\<lambda>a b. js_locale_le E (gi_path (fst a)) (gi_path (fst b))) selected)) \<and> get_count counts g \<noteq> 0) groups"
    unfolding list_all_iff using 3 by fastforce
  have "mset (map fst selected) = mset (filter (\<lambda>e. \<exists>g. in_group E groups (gi_path e) g) entries)"
    by (rule arg_cong[OF 1])
  then show ?thesis using 2 4 unfolding Inr r sum.case prod.case list_all_iff by simp
qed simp

end
