(* ===== verification/Docker_Run_Props.thy ===== *)
theory Docker_Run_Props
  imports Docker_Run Repository_Props
begin

text \<open>
  What an accepted container command guarantees: the vector is the rendering of the values that were
  read, behind the written-out security prefix; on the network \<^verbatim>\<open>bridge\<close> no mount lies in the repository;
  and a recorded run is the locked one, with read-only mounts only.
\<close>

section \<open>Host paths\<close>

lemma absolute_step_components:
  "list_all component st \<Longrightarrow> list_all component (normalize_step False st seg)"
proof -
  assume st: "list_all component st"
  have "list_all component (butlast st)" using st by (metis append_butlast_last_id butlast.simps(1) list_all_append)
  then show ?thesis using st by (auto simp: normalize_step_def component_def[of seg])
qed

lemma absolute_fold_components:
  "list_all component st \<Longrightarrow> list_all component (foldl (normalize_step False) st segs)"
  by (induction segs arbitrary: st) (auto simp: absolute_step_components)

lemma resolve_segments_ok:
  "list_all component (resolve_segments cwd s) \<and> (\<forall>p \<in> set (resolve_segments cwd s). 47 \<notin> set p)"
proof
  show "list_all component (resolve_segments cwd s)"
    unfolding resolve_segments_def by (rule absolute_fold_components) simp
  show "\<forall>p \<in> set (resolve_segments cwd s). 47 \<notin> set p"
    unfolding resolve_segments_def using split_on_no_sep by (intro no_sep_fold) auto
qed

lemma resolve_path_idem: "resolve_segments cwd (resolve_path cwd s) = resolve_segments cwd s"
proof -
  let ?r = "resolve_segments cwd s"
  have a: "is_absolute (resolve_path cwd s)" by (simp add: resolve_path_def is_absolute_def starts_with_def dot_texts)
  have step: "normalize_step False [] [] = []" by (simp add: normalize_step_def)
  show ?thesis
  proof (cases "?r = []")
    case True
    then show ?thesis using a step by (simp add: resolve_segments_def[of cwd "[47]"] resolve_path_def dot_texts)
  next
    case False
    have "split_on 47 (resolve_path cwd s) = [] # ?r"
      using False resolve_segments_ok[of cwd s] by (simp add: resolve_path_def dot_texts split_on_join)
    then have "resolve_segments cwd (resolve_path cwd s) = foldl (normalize_step False) [] ?r"
      using a step by (simp add: resolve_segments_def[of cwd "resolve_path cwd s"])
    then show ?thesis using resolve_segments_ok[of cwd s] by (simp add: fold_components)
  qed
qed

text \<open>The directory itself or something below it.\<close>

definition inside :: "jstring \<Rightarrow> jstring \<Rightarrow> jstring \<Rightarrow> bool" where
  "inside cwd dir p \<longleftrightarrow>
     (let d = resolve_segments cwd dir in take (length d) (resolve_segments cwd p) = d)"

lemma relative_segments_cases:
  "(take (length as) bs = as \<and> relative_segments as bs = drop (length as) bs)
   \<or> (take (length as) bs \<noteq> as \<and> (\<exists>r. relative_segments as bs = js ''..'' # r))"
proof (induction as arbitrary: bs)
  case (Cons a as)
  then show ?case by (cases bs) auto
qed simp

lemma starts_up: "\<exists>t. join [47] (js ''..'' # r) = t \<and> (t = js ''..'' \<or> starts_with t (js ''../''))"
  by (cases r) (auto simp: starts_with_def dot_texts)

lemma enters_iff_inside: "entersRepository cwd dir m \<longleftrightarrow> inside cwd dir (m_source m)"
proof -
  define a where "a = resolve_segments cwd dir"
  define b where "b = resolve_segments cwd (m_source m)"
  have rel: "relative_path cwd (resolve_path cwd dir) (m_source m) = join [47] (relative_segments a b)"
    by (simp add: relative_path_def resolve_path_idem a_def b_def)
  have b: "list_all component b" "\<forall>p \<in> set b. 47 \<notin> set p"
    using resolve_segments_ok[of cwd "m_source m"] by (simp_all add: b_def)
  consider (below) "take (length a) b = a" "relative_segments a b = drop (length a) b"
    | (outside) r where "take (length a) b \<noteq> a" "relative_segments a b = js ''..'' # r"
    using relative_segments_cases[of a b] by blast
  then show ?thesis
  proof cases
    case below
    define r where "r = drop (length a) b"
    have r: "list_all component r" "\<forall>p \<in> set r. 47 \<notin> set p"
      using b by (auto simp: r_def list_all_iff dest: in_set_dropD)
    have "entersRepository cwd dir m"
    proof (cases r)
      case Nil
      then show ?thesis using below by (simp add: entersRepository_def Let_def rel r_def)
    next
      case (Cons p ps)
      have s: "split_on 47 (join [47] r) = p # ps" using r(2) Cons by (simp add: split_on_join)
      have p: "component p" "47 \<notin> set p" using r Cons by simp_all
      have "\<not> starts_with (join [47] r) (js ''../'')"
      proof
        assume "starts_with (join [47] r) (js ''../'')"
        then have "join [47] r = js ''..'' @ 47 # drop 3 (join [47] r)"
          using starts_withD[of "join [47] r" "js ''../''"] by (simp add: dot_texts numeral_3_eq_3)
        then have "split_on 47 (join [47] r) = js ''..'' # split_on 47 (drop 3 (join [47] r))"
          using split_on_append[of 47 "js ''..''" "drop 3 (join [47] r)"] by (simp add: dot_texts)
        then show False using s p(1) by (simp add: component_def)
      qed
      moreover have "join [47] r \<noteq> js ''..''"
        using s p(1) by (auto simp: component_def dot_texts)
      moreover have "\<not> is_absolute (join [47] r)"
        using p Cons by (cases p; cases ps) (auto simp: is_absolute_def starts_with_def component_def dot_texts)
      ultimately show ?thesis using below by (simp add: entersRepository_def Let_def rel r_def)
    qed
    then show ?thesis using below(1) by (simp add: inside_def Let_def a_def b_def)
  next
    case outside
    obtain t where t: "join [47] (js ''..'' # r) = t" "t = js ''..'' \<or> starts_with t (js ''../'')"
      using starts_up by blast
    then have "t \<noteq> []" by (auto simp: starts_with_def dot_texts)
    then have "\<not> entersRepository cwd dir m"
      using t outside(2) by (auto simp: entersRepository_def Let_def rel)
    then show ?thesis using outside(1) by (simp add: inside_def Let_def a_def b_def)
  qed
qed

section \<open>Flags\<close>

definition flag_args :: "string \<Rightarrow> jstring list \<Rightarrow> jstring list" where
  "flag_args flag vs = concat (map (\<lambda>v. [js flag, v]) vs)"

lemma flagLoop_Inr:
  assumes "flagLoop flag add st args = Inr (st', rest)" "\<And>st. \<exists>e. add st [] = Inl e"
  shows "\<exists>vs. args = flag_args flag vs @ rest \<and> foldR add st vs = Inr st'"
  using assms
proof (induction flag add st args rule: flagLoop.induct)
  case (1 flag add st)
  then show ?case by (auto simp: flag_args_def intro!: exI[of _ "[]"])
next
  case (2 flag add st a)
  obtain e where "add st [] = Inl e" using "2.prems"(2) by blast
  then have "a \<noteq> js flag" using "2.prems" by auto
  then show ?case using "2.prems" by (auto simp: flag_args_def intro!: exI[of _ "[]"])
next
  case (3 flag add st a b args)
  show ?case
  proof (cases "a = js flag")
    case True
    then obtain st1 where st1: "add st b = Inr st1" "flagLoop flag add st1 args = Inr (st', rest)"
      using "3.prems" by (auto simp: bindR_eq_Inr)
    then obtain vs where "args = flag_args flag vs @ rest" "foldR add st1 vs = Inr st'"
      using "3.IH"[OF True st1 "3.prems"(2)] by blast
    then show ?thesis using True st1(1) by (intro exI[of _ "b # vs"]) (simp add: flag_args_def)
  next
    case False
    then show ?thesis using "3.prems" by (auto simp: flag_args_def intro!: exI[of _ "[]"])
  qed
qed

text \<open>The arguments an accepted mount or environment entry came from.\<close>

definition mount_text :: "jstring \<Rightarrow> docker_mount \<Rightarrow> jstring" where
  "mount_text src m = js ''type=bind,src='' @ src @ js '',dst='' @ m_destination m
     @ (if m_readOnly m then js '',readonly'' else [])"

definition mount_reads :: "jstring \<Rightarrow> jstring \<Rightarrow> docker_mount \<Rightarrow> bool" where
  "mount_reads cwd s m \<longleftrightarrow>
     (\<exists>src. is_absolute src \<and> s = mount_text src m \<and> m_source m = resolve_path cwd src)"

definition environment_text :: "jstring \<times> jstring \<Rightarrow> jstring" where
  "environment_text e = fst e @ js ''='' @ snd e"

definition optional_args :: "string \<Rightarrow> jstring option \<Rightarrow> jstring list" where
  "optional_args flag v = (case v of None \<Rightarrow> [] | Some x \<Rightarrow> [js flag, x])"

lemma mount_prefix: "js ''type=bind,src='' = [116, 121, 112, 101, 61, 98, 105, 110, 100, 44, 115, 114, 99, 61]"
  "js '',dst='' = [44, 100, 115, 116, 61]" "js '',readonly'' = [44, 114, 101, 97, 100, 111, 110, 108, 121]"
  by code_simp+

lemma mount_entry_text:
  assumes "mount_entry s = Some (src, dst, mode)"
  shows "s = js ''type=bind,src='' @ src @ js '',dst='' @ dst @ mode" "mode = [] \<or> mode = js '',readonly''"
proof -
  define r where "r = drop 14 s"
  have st: "starts_with s (js ''type=bind,src='')" using assms by (simp add: mount_entry_def split: if_splits)
  have len: "length (js ''type=bind,src='') = 14" "length (js '',dst='') = 5" by (simp_all add: mount_prefix)
  have s: "s = js ''type=bind,src='' @ r" unfolding r_def by (rule starts_withD[OF st, unfolded len(1)])
  obtain i where i: "find (\<lambda>i. starts_with (drop i r) (js '',dst='')) (rev [0..<length r]) = Some i"
    using assms by (auto simp: mount_entry_def r_def[symmetric] Let_def split: if_splits option.splits)
  then have d: "starts_with (drop i r) (js '',dst='')" by (auto simp: find_Some_iff)
  then have r: "r = take i r @ js '',dst='' @ drop (i + 5) r"
    using starts_withD[OF d, unfolded len(2)] append_take_drop_id[of i r] by (metis add.commute append.assoc drop_drop)
  have parts: "src = take i r" "dst = takeWhile (\<lambda>c. c \<noteq> 44) (drop (i + 5) r)"
    "mode = dropWhile (\<lambda>c. c \<noteq> 44) (drop (i + 5) r)" "mode = [] \<or> mode = js '',readonly''"
    using assms i by (auto simp: mount_entry_def r_def[symmetric] Let_def split: if_splits)
  show "s = js ''type=bind,src='' @ src @ js '',dst='' @ dst @ mode"
    using s r parts(1-3) by (simp only: takeWhile_dropWhile_id)
  show "mode = [] \<or> mode = js '',readonly''" by (rule parts(4))
qed

lemma addMount_Inr:
  assumes "addMount cwd mounts s = Inr mounts'"
  shows "\<exists>m. mounts' = mounts @ [m] \<and> mount_reads cwd s m \<and> m_destination m \<notin> m_destination ` set mounts"
proof -
  obtain src dst mode where e: "mount_entry s = Some (src, dst, mode)"
    using assms by (auto simp: addMount_def split: option.splits)
  define m where "m = \<lparr>m_source = resolve_path cwd src, m_destination = dst, m_readOnly = (mode = js '',readonly'')\<rparr>"
  have "is_absolute src" "dst \<notin> m_destination ` set mounts" "mounts' = mounts @ [m]"
    using assms by (auto simp: addMount_def e bindR_eq_Inr requireC_Inr m_def)
  moreover have "mount_reads cwd s m"
    using mount_entry_text[OF e] calculation(1)
    by (auto simp: mount_reads_def mount_text_def m_def mount_prefix intro!: exI[of _ src])
  ultimately show ?thesis by (auto simp: m_def)
qed

lemma mounts_Inr:
  "foldR (addMount cwd) [] vs = Inr ms \<Longrightarrow> list_all2 (mount_reads cwd) vs ms \<and> distinct (map m_destination ms)"
proof (induction vs arbitrary: ms rule: rev_induct)
  case (snoc v vs)
  then obtain ms0 where ms0: "foldR (addMount cwd) [] vs = Inr ms0" "addMount cwd ms0 v = Inr ms"
    by (auto simp: foldR_append bindR_eq_Inr)
  then show ?case using snoc.IH[OF ms0(1)] addMount_Inr[OF ms0(2)] by (auto intro!: list_all2_appendI)
qed simp

lemma environment_entry_text: "environment_entry s = Some (k, v) \<Longrightarrow> s = environment_text (k, v)"
  using index_of_split[of 61 s] by (auto simp: environment_entry_def environment_text_def Let_def js_def split: option.splits if_splits)

lemma addEnvironment_Inr:
  assumes "addEnvironment env s = Inr env'"
  shows "\<exists>e. env' = env @ [e] \<and> s = environment_text e \<and> fst e \<notin> fst ` set env"
proof -
  obtain k v where e: "environment_entry s = Some (k, v)"
    using assms by (auto simp: addEnvironment_def split: option.splits)
  have "env' = env @ [(k, v)]" "k \<notin> fst ` set env"
    using assms by (auto simp: addEnvironment_def e bindR_eq_Inr requireC_Inr)
  then show ?thesis using environment_entry_text[OF e] by auto
qed

lemma environment_Inr:
  "foldR addEnvironment [] vs = Inr env \<Longrightarrow> vs = map environment_text env \<and> distinct (map fst env)"
proof (induction vs arbitrary: env rule: rev_induct)
  case (snoc v vs)
  then obtain env0 where e0: "foldR addEnvironment [] vs = Inr env0" "addEnvironment env0 v = Inr env"
    by (auto simp: foldR_append bindR_eq_Inr)
  then show ?case using snoc.IH[OF e0(1)] addEnvironment_Inr[OF e0(2)] by auto
qed simp

lemma optionalFlag_args:
  "optionalFlag flag args = (v, rest) \<Longrightarrow> rest \<noteq> [] \<Longrightarrow> args = optional_args flag v @ rest"
  by (cases args; cases "tl args") (auto simp: optionalFlag_def optional_args_def split: if_splits)

section \<open>The container command\<close>

text \<open>The fixed beginning of a container command: the client file, the name, the network, the limits and
  the security options.\<close>

definition locked_prefix :: "jstring \<Rightarrow> docker_run \<Rightarrow> jstring list" where
  "locked_prefix cid r =
     map js [''run'', ''--rm'', ''--platform'', ''linux/amd64'', ''--cidfile''] @ [cid]
     @ [js ''--name'', d_containerName r, js ''--network'', d_network r, js ''--memory'', d_memory r]
     @ map js [''--pids-limit'', ''256'', ''--cpus'', ''2'', ''--cap-drop'', ''ALL'',
               ''--security-opt'', ''no-new-privileges'', ''--read-only'']
     @ [js ''--tmpfs'', d_tmpfs r]"

lemma prefix_args:
  assumes "security_prefix args" "drop 23 args \<noteq> []"
    "d_containerName r = nth_arg args 7" "d_network r = nth_arg args 9" "d_memory r = nth_arg args 11"
    "d_tmpfs r = nth_arg args 22"
  shows "args = locked_prefix (nth_arg args 5) r @ drop 23 args"
proof -
  have len: "23 < length args" using assms(2) by (simp add: not_less)
  have n: "take 23 args = map (nth_arg args) [0..<23]"
    using len by (intro nth_equalityI) (auto simp: nth_arg_def)
  have l: "[0..<23] = [0, Suc 0, 2, 3, 4, 5, 6, 7, 8, 9, 10, 11, 12, 13, 14, 15, 16, 17, 18, 19, 20, 21, 22]"
    by code_simp
  have p: "nth_arg args i = nth_arg (take 5 args) i" if "i < 5" for i
    using len that by (simp add: nth_arg_def)
  have t: "take 5 args = map js [''run'', ''--rm'', ''--platform'', ''linux/amd64'', ''--cidfile'']"
    using assms(1) by (simp add: security_prefix_def)
  have q: "nth_arg args 0 = js ''run''" "nth_arg args (Suc 0) = js ''--rm''" "nth_arg args 2 = js ''--platform''"
    "nth_arg args 3 = js ''linux/amd64''" "nth_arg args 4 = js ''--cidfile''"
    using p[of 0] p[of "Suc 0"] p[of 2] p[of 3] p[of 4] unfolding t by (simp_all add: nth_arg_def)
  have "take 23 args = locked_prefix (nth_arg args 5) r"
    using assms(1) q unfolding n l locked_prefix_def assms(3-6) security_prefix_def
    by simp
  then show ?thesis by (metis append_take_drop_id)
qed

text \<open>An accepted argument vector is the rendering of what was read from it.\<close>

definition rendered_run :: "jstring \<Rightarrow> jstring list \<Rightarrow> docker_run \<Rightarrow> bool" where
  "rendered_run cwd args r \<longleftrightarrow>
     (\<exists>path hex mounts. args = locked_prefix (js ''/'' @ path) r
        @ optional_args ''--user'' (d_user r) @ optional_args ''--workdir'' (d_workdir r)
        @ flag_args ''--mount'' mounts @ flag_args ''--env'' (map environment_text (d_environment r))
        @ d_image r # d_commandArguments r
      \<and> d_cidFile r = resolve_path cwd (js ''/'' @ path)
      \<and> d_containerName r = js ''hedefora-r016-'' @ hex \<and> length hex = 24 \<and> set hex \<subseteq> {48..57} \<union> {97..102}
      \<and> list_all2 (mount_reads cwd) mounts (d_mounts r))"

lemma starts_with_ex: "starts_with s p \<longleftrightarrow> (\<exists>t. s = p @ t)"
  by (metis append_eq_conv_conj starts_withD starts_with_def)

lemma rendered_name: "rendered_run cwd args r \<Longrightarrow> 7 < length args \<and> args ! 7 = d_containerName r"
  by (auto simp: rendered_run_def locked_prefix_def)

lemma container_name_iff:
  "container_name s \<longleftrightarrow> (\<exists>hex. s = js ''hedefora-r016-'' @ hex \<and> length hex = 24 \<and> set hex \<subseteq> {48..57} \<union> {97..102})"
proof -
  have h: "list_all is_lower_hex hex \<longleftrightarrow> set hex \<subseteq> {48..57} \<union> {97..102}" for hex
    by (auto simp: list_all_iff is_lower_hex_def is_digit_def)
  have "length (js ''hedefora-r016-'') = 14" by (simp add: js_def)
  then show ?thesis
    unfolding container_name_def Let_def starts_with_ex h[symmetric] by auto
qed

lemma parseDockerRunArguments_Inr:
  assumes "parseDockerRunArguments cwd args repo = Inr r"
  shows "security_prefix args" "rendered_run cwd args r"
    "distinct (map m_destination (d_mounts r))" "distinct (map fst (d_environment r))"
    "d_network r = nth_arg args 9" "d_commandArguments r \<noteq> []"
    "\<not> (d_network r = js ''bridge'' \<and> list_ex (\<lambda>m. inside cwd repo (m_source m)) (d_mounts r))"
proof -
  obtain user args1 where u: "optionalFlag ''--user'' (drop 23 args) = (user, args1)" by fastforce
  obtain workdir args2 where w: "optionalFlag ''--workdir'' args1 = (workdir, args2)" by fastforce
  obtain ms args3 env args4 where c: "security_prefix args"
    "flagLoop ''--mount'' (addMount cwd) [] args2 = Inr (ms, args3)"
    "flagLoop ''--env'' addEnvironment [] args3 = Inr (env, args4)" "2 \<le> length args4"
    "nth_arg args 9 \<noteq> js ''bridge'' \<or> \<not> list_ex (entersRepository cwd repo) ms"
    "r = \<lparr>d_cidFile = resolve_path cwd (nth_arg args 5), d_commandArguments = tl args4,
            d_containerName = nth_arg args 7, d_environment = env, d_image = hd args4,
            d_memory = nth_arg args 11, d_mounts = ms, d_network = nth_arg args 9, d_tmpfs = nth_arg args 22,
            d_user = user, d_workdir = workdir\<rparr>"
    using assms by (auto simp: parseDockerRunArguments_def Let_def u w bindR_eq_Inr requireC_Inr)
  have none: "\<exists>e. addMount cwd st [] = Inl e" "\<exists>e. addEnvironment env' [] = Inl e" for st env'
    by (simp_all add: addMount_def mount_entry_def starts_with_def mount_prefix addEnvironment_def environment_entry_def)
  obtain vs where vs: "args2 = flag_args ''--mount'' vs @ args3" "foldR (addMount cwd) [] vs = Inr ms"
    using flagLoop_Inr[OF c(2)] none(1) by blast
  obtain es where es: "args3 = flag_args ''--env'' es @ args4" "foldR addEnvironment [] es = Inr env"
    using flagLoop_Inr[OF c(3)] none(2) by blast
  have ms: "list_all2 (mount_reads cwd) vs ms" "distinct (map m_destination ms)" using mounts_Inr[OF vs(2)] by simp_all
  have env: "es = map environment_text env" "distinct (map fst env)" using environment_Inr[OF es(2)] by simp_all
  have a4: "args4 = hd args4 # tl args4" "tl args4 \<noteq> []" using c(4) by (cases args4; cases "tl args4"; simp)+
  then have nz: "args4 \<noteq> []" "args3 \<noteq> []" "args2 \<noteq> []" "args1 \<noteq> []"
    using es(1) vs(1) w by (auto simp: optionalFlag_def split: if_splits)
  have "drop 23 args = optional_args ''--user'' user @ optional_args ''--workdir'' workdir
          @ flag_args ''--mount'' vs @ flag_args ''--env'' es @ hd args4 # tl args4"
    using optionalFlag_args[OF u nz(4)] optionalFlag_args[OF w nz(3)] vs(1) es(1) a4(1) by simp
  moreover have "args = locked_prefix (nth_arg args 5) r @ drop 23 args"
    using nz(4) u by (intro prefix_args c(1)) (auto simp: c(6) optionalFlag_def split: if_splits)
  moreover obtain path where "nth_arg args 5 = js ''/'' @ path"
    using c(1) by (auto simp: security_prefix_def is_absolute_def starts_with_ex)
  moreover obtain hex where "d_containerName r = js ''hedefora-r016-'' @ hex" "length hex = 24" "set hex \<subseteq> {48..57} \<union> {97..102}"
    using c(1) unfolding security_prefix_def container_name_iff by (auto simp: c(6))
  moreover have "d_cidFile r = resolve_path cwd (nth_arg args 5)" "d_user r = user" "d_workdir r = workdir"
    "d_environment r = env" "d_image r = hd args4" "d_commandArguments r = tl args4" "d_mounts r = ms"
    by (simp_all add: c(6))
  ultimately show "rendered_run cwd args r"
    using ms(1) env(1) unfolding rendered_run_def by (intro exI[of _ path] exI[of _ hex] exI[of _ vs]) simp
  show "security_prefix args" by (rule c(1))
  show "distinct (map m_destination (d_mounts r))" "distinct (map fst (d_environment r))"
    "d_network r = nth_arg args 9" "d_commandArguments r \<noteq> []"
    using ms(2) env(2) a4(2) by (simp_all add: c(6))
  show "\<not> (d_network r = js ''bridge'' \<and> list_ex (\<lambda>m. inside cwd repo (m_source m)) (d_mounts r))"
    using c(5) by (auto simp: c(6) list_ex_iff enters_iff_inside)
qed

text \<open>C31: a container command that the reader accepts is, word by word, the rendering of what was read:
  the fixed prefix (client file, a name \<^verbatim>\<open>hedefora-r016-\<close> and 24 hexadecimal digits, network, memory, 256
  processes, 2 CPUs, all capabilities dropped, no new privileges, a read-only root and one temporary
  file system), then the user, the working directory, the bind mounts, the environment, the image and
  the command.  No destination and no variable occurs twice, and a command on the network \<^verbatim>\<open>bridge\<close>
  mounts nothing that lies in the repository; the reader itself restricts no other network name.\<close>

theorem docker_run_arguments_are_confined:
  "case parseDockerRunArguments cwd args repo of
     Inl _ \<Rightarrow> True
   | Inr r \<Rightarrow> rendered_run cwd args r
       \<and> distinct (map m_destination (d_mounts r)) \<and> distinct (map fst (d_environment r))
       \<and> d_commandArguments r \<noteq> []
       \<and> \<not> (d_network r = js ''bridge'' \<and> list_ex (\<lambda>m. inside cwd repo (m_source m)) (d_mounts r))"
  using parseDockerRunArguments_Inr[of cwd args repo] by (simp split: sum.split)

section \<open>The locked commands\<close>

text \<open>What every contract of the table promises.\<close>

definition mount_path_ok :: "jstring \<Rightarrow> bool" where
  "mount_path_ok s \<longleftrightarrow> list_all component (split_on 47 s)"

definition contract_ok :: "contract_args \<Rightarrow> bool" where
  "contract_ok a \<longleftrightarrow> list_all (\<lambda>m. mount_path_ok (fst m)) (a_mounts a) \<and> distinct (map (js \<circ> fst) (a_environment a))
     \<and> a_network a \<in> {''none'', ''bridge''}"

definition lowers :: "jsenv \<Rightarrow> bool" where
  "lowers E \<longleftrightarrow> (\<forall>s. list_all (\<lambda>c. c < 128) s \<longrightarrow> js_lower E s = ascii_lower s)"

lemma fixed_paths:
  "list_all (\<lambda>s. mount_path_ok (js s)) [''scan-input'', ''osv-empty-cache'', ''osv-cache'', ''go-transitive-scan-input'',
     ''semgrep-source'', ''semgrep-rules-stage'', ''sast-fixtures'', ''dbcheck-source'',
     ''go-transitive-resolve-input/go-module-1'']"
  by code_simp

lemma fixed_slugs:
  "list_all (\<lambda>s. list_all (\<lambda>c. c < 128) (drop 8 (js s)) \<and> mount_path_ok (ascii_lower (drop 8 (js s))))
     [''PROCESS-OSV-VULNERABILITY-CANARY'', ''PROCESS-OSV-VULNERABILITY-DEVELOPMENT-CANARY'',
      ''PROCESS-OSV-GO-ADVISORY-CANARY'', ''PROCESS-OSV-LICENSE-DENIED-CANARY'',
      ''PROCESS-OSV-LICENSE-UNKNOWN-CANARY'', ''PROCESS-OSV-GO-LICENSE-DENIED-CANARY'']"
  by code_simp

lemma fixed_environments:
  "distinct (map (js \<circ> fst) osvEnvironment)" "distinct (map (js \<circ> fst) semgrepEnvironment)"
  "distinct (map (js \<circ> fst) goEnvironment)"
  by code_simp+

lemmas fixed_simps = fixed_paths[simplified] fixed_slugs[simplified] fixed_environments

lemma slug_ok: "lowers E \<Longrightarrow> list_all (\<lambda>c. c < 128) (drop 8 pid) \<Longrightarrow> process_slug E pid = ascii_lower (drop 8 pid)"
  by (simp add: lowers_def process_slug_def)

lemma base_digits_chars: "47 \<notin> set (base_digits b n)"
  by (induction b n rule: base_digits.induct) (subst base_digits.simps, auto)

lemma go_path_ok: "mount_path_ok (js ''go-resolve-input/go-module-'' @ nat_text n)"
proof -
  have t: "js ''go-resolve-input/go-module-'' = js ''go-resolve-input'' @ 47 # js ''go-module-''" by code_simp
  have "47 \<notin> set (js ''go-resolve-input'')" "47 \<notin> set (js ''go-module-'')" "component (js ''go-resolve-input'')"
    by code_simp+
  moreover have "component (js ''go-module-'' @ x)" for x by (auto simp: component_def js_def dot_texts)
  ultimately show ?thesis using base_digits_chars[of 10 n]
    by (simp add: mount_path_ok_def t split_on_append split_on_single nat_text_def)
qed

lemma imageOf_Inr: "imageOf ci tool a = Inr a' \<longleftrightarrow>
    (\<exists>image. accsR (ci_scanners ci) [tool, ''image''] = Inr image \<and> a' = a\<lparr>a_image := image\<rparr>)"
  by (auto simp: imageOf_def bindR_eq_Inr)

lemmas contract_simps = imageOf_Inr contract_ok_def plain_contract_def osv_contract_def license_contract_def fixed_simps

lemma versionContract_ok: "versionContract ci pid = Some (Inr a) \<Longrightarrow> contract_ok a"
  by (auto simp: versionContract_def contract_simps split: if_splits)

lemma offlineContract_ok: "lowers E \<Longrightarrow> offlineContract E ci pid = Some (Inr a) \<Longrightarrow> contract_ok a"
  by (auto simp: offlineContract_def contract_simps slug_ok
      split: if_splits)

lemma licenseContract_ok: "lowers E \<Longrightarrow> licenseContract E ci pid = Some (Inr a) \<Longrightarrow> contract_ok a"
  by (auto simp: licenseContract_def contract_simps slug_ok
      split: if_splits)

lemma semgrepContract_ok: "semgrepContract E ci pid = Some (Inr a) \<Longrightarrow> contract_ok a"
  by (auto simp: semgrepContract_def contract_simps split: if_splits)

lemma databaseContract_ok: "databaseContract E ci pid = Some (Inr a) \<Longrightarrow> contract_ok a"
  by (auto simp: databaseContract_def contract_simps bindR_eq_Inr
      split: if_splits)

lemma goContract_ok: "goContract E inputs ci pid = Some (Inr a) \<Longrightarrow> contract_ok a"
  by (auto simp: goContract_def contract_simps bindR_eq_Inr go_path_ok
      split: if_splits option.splits prod.splits)

lemma expectedDockerRunContract_Inr:
  assumes "lowers E" "expectedDockerRunContract E cwd pid inputs configuration tmp = Inr x"
  shows "\<exists>a. contract_ok a \<and> x = contractRun E cwd tmp pid a"
proof -
  obtain ci c where c: "find (\<lambda>c. \<not> Option.is_none c)
              [versionContract ci pid, offlineContract E ci pid, licenseContract E ci pid, semgrepContract E ci pid,
               databaseContract E ci pid, goContract E inputs ci pid] = Some (Some c)"
    "bindR c (\<lambda>a. Inr (contractRun E cwd tmp pid a)) = Inr x"
    using assms(2) by (auto simp: expectedDockerRunContract_def bindR_eq_Inr split: option.splits)
  then obtain a where a: "c = Inr a" "x = contractRun E cwd tmp pid a" by (auto simp: bindR_eq_Inr)
  have "Some c \<in> set [versionContract ci pid, offlineContract E ci pid, licenseContract E ci pid,
          semgrepContract E ci pid, databaseContract E ci pid, goContract E inputs ci pid]"
    using c(1) by (metis find_Some_iff nth_mem)
  then have "contract_ok a"
    using versionContract_ok offlineContract_ok[OF assms(1)] licenseContract_ok[OF assms(1)] semgrepContract_ok
      databaseContract_ok goContract_ok by (auto simp: a(1))
  then show ?thesis using a(2) by blast
qed

section \<open>Directories below the temporary root\<close>

lemma split_on_append_gen: "split_on c (a @ c # b) = split_on c a @ split_on c b"
  by (induction a) (auto split: list.splits)

lemma resolve_child:
  assumes "component q" "47 \<notin> set q"
  shows "resolve_segments cwd (path_step p q) = resolve_segments cwd p @ [q]"
proof -
  have q: "q \<noteq> []" "\<not> is_absolute q"
    using assms by (cases q; auto simp: component_def is_absolute_def starts_with_def dot_texts)+
  have step: "normalize_step False st q = st @ [q]" for st using assms(1) by (simp add: normalize_step_def component_def)
  have skip: "normalize_step False st [] = st" for st by (simp add: normalize_step_def)
  have "is_absolute (p @ 47 # q) = is_absolute p" if "p \<noteq> []"
    using that by (cases p) (auto simp: is_absolute_def starts_with_def dot_texts)
  moreover have "split_on 47 q = [q]" using assms(2) by (rule split_on_single)
  moreover have "is_absolute [] = False" by (simp add: is_absolute_def starts_with_def dot_texts)
  ultimately show ?thesis
    using q by (simp add: path_step_def resolve_segments_def dot_texts split_on_append_gen step skip)
qed

lemma resolve_descend:
  "list_all component qs \<Longrightarrow> \<forall>q \<in> set qs. 47 \<notin> set q \<Longrightarrow>
     resolve_segments cwd (foldl path_step p qs) = resolve_segments cwd p @ qs"
  by (induction qs arbitrary: p) (simp_all add: resolve_child)

lemma mount_below: 
  assumes "mount_path_ok s"
  shows "inside cwd tmp (resolve_all cwd (tmp # split_on 47 s))"
proof -
  have "list_all component (split_on 47 s)" "\<forall>q \<in> set (split_on 47 s). 47 \<notin> set q"
    using assms split_on_no_sep[of _ 47 s] by (auto simp: mount_path_ok_def)
  note descend = resolve_descend[OF this, of cwd tmp]
  have "path_step [] tmp = tmp" by (simp add: path_step_def)
  with descend
  have "resolve_segments cwd (resolve_all cwd (tmp # split_on 47 s)) = resolve_segments cwd tmp @ split_on 47 s"
    by (simp add: resolve_all_def resolve_path_idem)
  then show ?thesis by (simp add: inside_def Let_def)
qed

section \<open>Equal canonical texts\<close>

lemma sameCanonical_normal:
  assumes "sameCanonical E v w m = Inr u" "writable E v" "writable E w"
  shows "normal_form v = normal_form w"
  using assms canonR_writable[OF assms(2)] canonR_writable[OF assms(3)]
  by (auto simp: sameCanonical_def bindR_eq_Inr requireC_Inr)

lemma mount_normal: "normal_form (mountJson m) =
    JObj [(js ''destination'', JStr (m_destination m)), (js ''readOnly'', JBool (m_readOnly m)),
          (js ''source'', JStr (m_source m))]"
proof -
  have "js ''source'' = [115, 111, 117, 114, 99, 101]" "js ''readOnly'' = [114, 101, 97, 100, 79, 110, 108, 121]"
    "js ''destination'' = [100, 101, 115, 116, 105, 110, 97, 116, 105, 111, 110]" by code_simp+
  then show ?thesis by (simp add: mountJson_def sort_key_def)
qed

lemma mounts_equal:
  assumes "sameCanonical E (JArr (map mountJson a)) (JArr (map mountJson b)) m = Inr u"
  shows "a = b"
proof -
  have inj: "x = y" if "normal_form (mountJson x) = normal_form (mountJson y)" for x y
    using that by (simp add: mount_normal docker_mount.equality)
  have "distinct [js ''source'', js ''destination'', js ''readOnly'']" by code_simp
  then have w: "writable E (JArr (map mountJson c))" for c by (auto simp: list_all_iff mountJson_def)
  have "map (normal_form \<circ> mountJson) a = map (normal_form \<circ> mountJson) b"
    using sameCanonical_normal[OF assms w w] by simp
  moreover have "inj (normal_form \<circ> mountJson)" by (rule injI) (simp add: inj)
  ultimately show ?thesis by (simp only: inj_map_eq_map)
qed

lemma environments_equal:
  assumes "sameCanonical E (environmentJson a) (environmentJson b) m = Inr u" "distinct (map fst a)" "distinct (map fst b)"
  shows "mset a = mset b"
proof -
  have w: "writable E (environmentJson c)" if "distinct (map fst c)" for c :: "(jstring \<times> jstring) list"
    using that by (auto simp: environmentJson_def list_all_iff comp_def case_prod_unfold)
  define J where "J = map (\<lambda>(k :: jstring, v). (k, JStr v))"
  have n: "normal_form (environmentJson c) = JObj (sort_key fst (J c))" for c
  proof -
    have "map (\<lambda>f. (fst f, normal_form (snd f))) (sort_key fst (J c)) = sort_key fst (J c)"
      by (rule map_idI) (auto simp: J_def)
    then show ?thesis by (simp add: environmentJson_def J_def)
  qed
  have "sort_key fst (J a) = sort_key fst (J b)"
    using sameCanonical_normal[OF assms(1) w[OF assms(2)] w[OF assms(3)]] by (simp add: n)
  then have "mset (J a) = mset (J b)" by (metis mset_sort)
  moreover have "map (\<lambda>(k, v). (k, case v of JStr s \<Rightarrow> s)) (J c) = c" for c
    by (induction c) (auto simp: J_def)
  ultimately show ?thesis by (metis mset_map)
qed

section \<open>A recorded run\<close>

text \<open>A check that has to be a \<^verbatim>\<open>docker run\<close>.\<close>

definition is_docker_run :: "process_check \<Rightarrow> bool" where
  "is_docker_run check \<longleftrightarrow>
     \<not> list_ex (\<lambda>p. starts_with (pc_id check) (js p)) [''PROCESS-GIT-'', ''PROCESS-RULES-'', ''PROCESS-RULE-BLOB-'']
     \<and> cleanup_phase (pc_id check) = None \<and> pc_arguments check \<noteq> [] \<and> hd (pc_arguments check) = js ''run''"

definition locked_run :: "jsenv \<Rightarrow> jstring \<Rightarrow> docker_run \<Rightarrow> expected_run \<Rightarrow> bool" where
  "locked_run E cwd r x \<longleftrightarrow>
     a_image (x_args x) = JStr (d_image r) \<and> d_cidFile r = x_cidFile x \<and> d_mounts r = x_mounts x
     \<and> d_network r = js (a_network (x_args x)) \<and> d_memory r = js (a_memory (x_args x))
     \<and> d_user r = map_option js (a_user (x_args x)) \<and> d_workdir r = map_option js (a_workdir (x_args x))
     \<and> d_tmpfs r = x_tmpfs x
     \<and> mset (d_environment r) = mset (map (\<lambda>(k, v). (js k, js v)) (a_environment (x_args x)))
     \<and> canonR E (strings (d_commandArguments r)) = canonR E (JArr (a_command (x_args x)))"

lemma matchesContract_Inr:
  assumes "matchesContract E r x = Inr u" "distinct (map fst (d_environment r))"
    "contract_ok (x_args x)"
  shows "locked_run E cwd r x"
proof -
  have m: "sameCanonical E (JArr (map mountJson (d_mounts r))) (JArr (map mountJson (x_mounts x)))
             ''Docker run contract is invalid'' = Inr ()"
    "sameCanonical E (environmentJson (d_environment r))
       (environmentJson (map (\<lambda>(k, v). (js k, js v)) (a_environment (x_args x)))) ''Docker run contract is invalid'' = Inr ()"
    "sameCanonical E (strings (d_commandArguments r)) (JArr (a_command (x_args x))) ''Docker run contract is invalid'' = Inr ()"
    using assms(1) by (auto simp: matchesContract_def Let_def bindR_eq_Inr)
  have "distinct (map fst (map (\<lambda>(k, v). (js k, js v)) (a_environment (x_args x))))"
    using assms(3) by (auto simp: contract_ok_def comp_def case_prod_unfold)
  then have "mset (d_environment r) = mset (map (\<lambda>(k, v). (js k, js v)) (a_environment (x_args x)))"
    using environments_equal[OF m(2) assms(2)] by blast
  moreover have "canonR E (strings (d_commandArguments r)) = canonR E (JArr (a_command (x_args x)))"
    using m(3) by (auto simp: sameCanonical_def bindR_eq_Inr requireC_Inr)
  moreover have "d_mounts r = x_mounts x" by (rule mounts_equal[OF m(1)])
  ultimately show ?thesis using assms(1)
    by (auto simp: locked_run_def matchesContract_def Let_def bindR_eq_Inr requireC_Inr)
qed

lemma recorded_run:
  assumes "lowers E" "is_docker_run check"
    "validateProcessCommandShape E cwd check inputs artifacts trusted = Inr u"
  obtains r x where "parseDockerRunArguments cwd (pc_arguments check) (tr_root trusted) = Inr r"
    "expectedDockerRunContract E cwd (pc_id check) inputs (tr_configuration trusted) (tr_temporaryRoot trusted) = Inr x"
    "locked_run E cwd r x" "d_network r \<in> {js ''none'', js ''bridge''}"
    "list_all (\<lambda>m. m_readOnly m \<and> inside cwd (tr_temporaryRoot trusted) (m_source m)) (d_mounts r)"
proof -
  have d: "dockerShape E cwd check inputs trusted = Inr u"
    using assms(2,3) unfolding validateProcessCommandShape_def is_docker_run_def
    by (auto simp: bindR_eq_Inr)
  then obtain r x where rx: "parseDockerRunArguments cwd (pc_arguments check) (tr_root trusted) = Inr r"
    "expectedDockerRunContract E cwd (pc_id check) inputs (tr_configuration trusted) (tr_temporaryRoot trusted) = Inr x"
    "matchesContract E r x = Inr u"
    using assms(2) by (auto simp: dockerShape_def is_docker_run_def bindR_eq_Inr)
  obtain a where a: "contract_ok a" "x = contractRun E cwd (tr_temporaryRoot trusted) (pc_id check) a"
    using expectedDockerRunContract_Inr[OF assms(1) rx(2)] by blast
  have l: "locked_run E cwd r x"
    using a by (intro matchesContract_Inr[OF rx(3) parseDockerRunArguments_Inr(4)[OF rx(1)]]) (simp add: contractRun_def)
  have "list_all (\<lambda>m. m_readOnly m \<and> inside cwd (tr_temporaryRoot trusted) (m_source m)) (d_mounts r)"
    using l a by (auto simp: locked_run_def contractRun_def contract_ok_def list_all_iff mount_below)
  moreover have "d_network r \<in> {js ''none'', js ''bridge''}"
    using l a by (auto simp: locked_run_def contractRun_def contract_ok_def)
  ultimately show thesis using that rx(1,2) l by blast
qed

text \<open>C32: a recorded \<^verbatim>\<open>docker run\<close> that passes the check of the process shapes is the run of the locked
  contract for its identifier: the locked image, memory, user, working directory, temporary storage and
  environment, the locked command, no network or the bridge, and only read-only mounts that lie below
  the temporary directory of the run; with the bridge, none of them lies in the repository.\<close>

theorem recorded_run_is_locked:
  assumes "lowers E" "is_docker_run check"
    "validateProcessCommandShape E cwd check inputs artifacts trusted = Inr ()"
  shows "\<exists>r x. parseDockerRunArguments cwd (pc_arguments check) (tr_root trusted) = Inr r
    \<and> expectedDockerRunContract E cwd (pc_id check) inputs (tr_configuration trusted) (tr_temporaryRoot trusted) = Inr x
    \<and> locked_run E cwd r x \<and> d_network r \<in> {js ''none'', js ''bridge''}
    \<and> list_all (\<lambda>m. m_readOnly m \<and> inside cwd (tr_temporaryRoot trusted) (m_source m)) (d_mounts r)
    \<and> \<not> (d_network r = js ''bridge'' \<and> list_ex (\<lambda>m. inside cwd (tr_root trusted) (m_source m)) (d_mounts r))"
proof -
  obtain r x where rx: "parseDockerRunArguments cwd (pc_arguments check) (tr_root trusted) = Inr r"
    "expectedDockerRunContract E cwd (pc_id check) inputs (tr_configuration trusted) (tr_temporaryRoot trusted) = Inr x"
    "locked_run E cwd r x" "d_network r \<in> {js ''none'', js ''bridge''}"
    "list_all (\<lambda>m. m_readOnly m \<and> inside cwd (tr_temporaryRoot trusted) (m_source m)) (d_mounts r)"
    by (rule recorded_run[OF assms])
  then show ?thesis using parseDockerRunArguments_Inr(7)[OF rx(1)] by blast
qed

end
