(* ===== verification/Docker_Run_Sample.thy ===== *)
theory Docker_Run_Sample
  imports Docker_Run_Props
begin

text \<open>
  A recorded licence scan: the command of the locked contract with a network and one read-only mount, on
  which the theorem on recorded runs is applied.
\<close>

definition sample_trusted :: trusted_roots where
  "sample_trusted = \<lparr>tr_root = js ''/repo'', tr_controlRoot = js ''/repo'', tr_temporaryRoot = js ''/t'',
     tr_configuration = JObj
       [(js ''scanners'', JObj [(js ''osvScanner'', JObj [(js ''image'', JStr (js ''osv@sha256:1''))]),
                                (js ''semgrepRules'', JObj [(js ''files'', JArr [])])]),
        (js ''policy'', JObj [(js ''licenses'', JObj [(js ''allowed'', JArr (texts [''MIT'', ''ISC'']))])])]\<rparr>"

definition sample_run_inputs :: jsval where
  "sample_run_inputs = JObj
     [(js ''pnpm'', JObj [(js ''documents'', JArr [JObj [(js ''source'', JStr (js ''/scan/pnpm-lock.yaml''))]])]),
      (js ''go'', JArr [])]"

definition sample_check :: process_check where
  "sample_check = \<lparr>pc_id = js ''PROCESS-OSV-LICENSE'', pc_command = js ''/usr/bin/docker'',
     pc_arguments = map js
       [''run'', ''--rm'', ''--platform'', ''linux/amd64'', ''--cidfile'', ''/t/container-ids/osv-license.cid'',
        ''--name'', ''hedefora-r016-0123456789abcdef01234567'', ''--network'', ''bridge'', ''--memory'', ''1536m'',
        ''--pids-limit'', ''256'', ''--cpus'', ''2'', ''--cap-drop'', ''ALL'', ''--security-opt'', ''no-new-privileges'',
        ''--read-only'', ''--tmpfs'', ''/tmp:rw,noexec,nosuid,size=128m'', ''--user'', ''65534:65534'',
        ''--mount'', ''type=bind,src=/t/scan-input,dst=/scan,readonly'', ''--env'', ''HOME=/tmp/home'',
        ''osv@sha256:1'', ''scan'', ''source'', ''--format'', ''json'', ''--all-packages'', ''--all-vulns'',
        ''--no-call-analysis=go'', ''--config'', ''/scan/osv-scanner.toml'', ''--data-source'', ''deps.dev'',
        ''--licenses=MIT,ISC'', ''--lockfile'', ''/scan/pnpm-lock.yaml'']\<rparr>"

text \<open>Agreement without the canonical texts.\<close>

definition agrees :: "docker_run \<Rightarrow> expected_run \<Rightarrow> bool" where
  "agrees r x \<longleftrightarrow>
     (let a = x_args x in
      d_cidFile r = x_cidFile x \<and> a_image a = JStr (d_image r)
      \<and> d_network r = js (a_network a) \<and> d_memory r = js (a_memory a)
      \<and> d_user r = map_option js (a_user a) \<and> d_workdir r = map_option js (a_workdir a) \<and> d_tmpfs r = x_tmpfs x
      \<and> d_mounts r = x_mounts x \<and> d_environment r = map (\<lambda>(k, v). (js k, js v)) (a_environment a)
      \<and> map JStr (d_commandArguments r) = a_command a \<and> distinct (map fst (d_environment r)))"

lemma sameCanonical_refl: "writable E v \<Longrightarrow> sameCanonical E v v m = Inr ()"
  using canonR_writable[of E v] by (auto simp: sameCanonical_def requireC_def)

lemma agrees_matches: "agrees r x \<Longrightarrow> matchesContract E r x = Inr ()"
proof -
  assume r: "agrees r x"
  have "distinct [js ''source'', js ''destination'', js ''readOnly'']" by code_simp
  then have "writable E (JArr (map mountJson c))" for c by (auto simp: list_all_iff mountJson_def)
  moreover have "writable E (environmentJson (d_environment r))"
    using r by (auto simp: agrees_def Let_def environmentJson_def list_all_iff comp_def case_prod_unfold)
  moreover have "strings (d_commandArguments r) = JArr (a_command (x_args x))"
    using r by (simp add: agrees_def Let_def strings_def)
  moreover have "writable E (strings c)" for c by simp
  ultimately have "sameCanonical E (strings (d_commandArguments r)) (JArr (a_command (x_args x))) n = Inr ()"
    "sameCanonical E (JArr (map mountJson c)) (JArr (map mountJson c)) n = Inr ()"
    "sameCanonical E (environmentJson (d_environment r)) (environmentJson (d_environment r)) n = Inr ()" for c n
    by (metis sameCanonical_refl)+
  then show ?thesis using r by (simp add: matchesContract_def agrees_def Let_def requireC_def bindR_def)
qed

lemma sample_check_agrees:
  "(case (parseDockerRunArguments (js ''/'') (pc_arguments sample_check) (tr_root sample_trusted),
          expectedDockerRunContract sample_env (js ''/'') (pc_id sample_check) sample_run_inputs
            (tr_configuration sample_trusted) (tr_temporaryRoot sample_trusted)) of
      (Inr r, Inr x) \<Rightarrow> agrees r x | _ \<Rightarrow> False)"
  by code_simp

lemma sample_check_program: "program_named sample_env (pc_command sample_check) ''docker''"
  by code_simp

lemma sample_check_facts: "lowers sample_env" "is_docker_run sample_check"
proof -
  show "lowers sample_env" by (simp add: lowers_def sample_env_simps)
  show "is_docker_run sample_check" by code_simp
qed

lemma sample_check_accepted:
  "validateProcessCommandShape sample_env (js ''/'') sample_check sample_run_inputs [] sample_trusted = Inr ()"
proof -
  have "dockerShape sample_env (js ''/'') sample_check sample_run_inputs sample_trusted = Inr ()"
    using sample_check_agrees sample_check_facts(2) agrees_matches
    by (auto simp: dockerShape_def is_docker_run_def split: sum.splits)
  then show ?thesis using sample_check_facts(2) sample_check_program
    unfolding validateProcessCommandShape_def is_docker_run_def by (auto simp: requireC_def)
qed

theorem recorded_run_is_locked_witness:
  "\<exists>r x. parseDockerRunArguments (js ''/'') (pc_arguments sample_check) (tr_root sample_trusted) = Inr r
    \<and> expectedDockerRunContract sample_env (js ''/'') (pc_id sample_check) sample_run_inputs
        (tr_configuration sample_trusted) (tr_temporaryRoot sample_trusted) = Inr x
    \<and> locked_run sample_env (js ''/'') r x \<and> d_network r \<in> {js ''none'', js ''bridge''}
    \<and> list_all (\<lambda>m. m_readOnly m \<and> inside (js ''/'') (tr_temporaryRoot sample_trusted) (m_source m)) (d_mounts r)
    \<and> \<not> (d_network r = js ''bridge''
         \<and> list_ex (\<lambda>m. inside (js ''/'') (tr_root sample_trusted) (m_source m)) (d_mounts r))"
  by (rule recorded_run_is_locked[OF sample_check_facts sample_check_accepted])

end
