(* ===== verification/Process.thy ===== *)
theory Process
  imports Repository
begin

text \<open>
  The process runner of \<^verbatim>\<open>src/scripts/supply-chain/process.mjs\<close>: the checks of a request, the handlers
  that the events of a spawned child run, as a step relation on the variables they share, and the
  requirement of success.  The child is known by its events only; its launch by Node and its signals
  are not modelled.
\<close>

section \<open>Requests\<close>

definition defaultMaxOutputBytes :: jsval where
  "defaultMaxOutputBytes = JNum (Fin (128 * 1024 * 1024))"

record process_request =
  rq_command :: jstring
  rq_args :: "jstring list"
  rq_timeoutMs :: rat
  rq_maxOutputBytes :: rat

datatype type_error = Command_type | Args_type | Timeout_type | Output_limit_type

definition positive_safe :: "jsval \<Rightarrow> rat option" where
  "positive_safe v = (case v of JNum (Fin r) \<Rightarrow> if is_safe_integer (Fin r) \<and> 0 < r then Some r else None | _ \<Rightarrow> None)"

definition process_texts :: "jsval \<Rightarrow> jstring list option" where
  "process_texts v =
     (case v of
        JArr xs \<Rightarrow> if list_all (\<lambda>x. case x of JStr _ \<Rightarrow> True | _ \<Rightarrow> False) xs
                  then Some (map (\<lambda>x. case x of JStr s \<Rightarrow> s | _ \<Rightarrow> []) xs) else None
      | _ \<Rightarrow> None)"

definition runProcessRequest :: "jsval \<Rightarrow> type_error + process_request" where
  "runProcessRequest options =
     (let args = (if getp options ''args'' = JUndef then JArr [] else getp options ''args'');
          max = (if getp options ''maxOutputBytes'' = JUndef then defaultMaxOutputBytes else getp options ''maxOutputBytes'')
      in case getp options ''command'' of
           JStr command \<Rightarrow>
             if command = [] then Inl Command_type
             else (case process_texts args of
                 None \<Rightarrow> Inl Args_type
               | Some as \<Rightarrow>
                   (case positive_safe (getp options ''timeoutMs'') of
                      None \<Rightarrow> Inl Timeout_type
                    | Some t \<Rightarrow>
                        (case positive_safe max of
                           None \<Rightarrow> Inl Output_limit_type
                         | Some m \<Rightarrow> Inr \<lparr>rq_command = command, rq_args = as, rq_timeoutMs = t, rq_maxOutputBytes = m\<rparr>)))
         | _ \<Rightarrow> Inl Command_type)"

section \<open>Events and outcomes\<close>

datatype stream = Stdout | Stderr

text \<open>The events of a child: output; the expired timer; \<^verbatim>\<open>error\<close> with its message, which Node emits when the
  launch failed and also when a kill failed, and which the code reports as a failed launch in both cases;
  and \<^verbatim>\<open>close\<close> with the exit code, the signal and the milliseconds that had passed.\<close>

datatype process_event =
    Output stream "nat list"
  | Expired
  | Launch_error jstring
  | Exited "int option" "jstring option" rat

text \<open>Decoding keeps a byte order mark.\<close>

definition decodeUtf8 :: "nat list \<Rightarrow> jstring \<times> bool" where
  "decodeUtf8 bytes = (case utf8_units bytes of None \<Rightarrow> ([], False) | Some text \<Rightarrow> (text, True))"

record process_result =
  pr_command :: jstring
  pr_args :: "jstring list"
  pr_exitCode :: "int option"
  pr_signal :: "jstring option"
  pr_timedOut :: bool
  pr_outputLimitExceeded :: bool
  pr_stdout :: jstring
  pr_stderr :: jstring
  pr_stdoutBytes :: "nat list"
  pr_stderrBytes :: "nat list"
  pr_stdoutUtf8Valid :: bool
  pr_stderrUtf8Valid :: bool
  pr_durationMs :: int

text \<open>The settled promise.\<close>

datatype process_outcome =
    Resolved process_result
  | ProcessLaunchError jstring
  | ProcessOutputEncodingError process_result "stream list"

section \<open>Handlers\<close>

text \<open>The variables the handlers share; \<open>ps_timer\<close> tells whether the timer still runs and \<open>ps_kills\<close>
  counts the kill signals.\<close>

record process_state =
  ps_stdout :: "nat list list"
  ps_stderr :: "nat list list"
  ps_capturedBytes :: nat
  ps_timedOut :: bool
  ps_outputLimitExceeded :: bool
  ps_settled :: "process_outcome option"
  ps_timer :: bool
  ps_kills :: nat

definition process_start :: process_state where
  "process_start = \<lparr>ps_stdout = [], ps_stderr = [], ps_capturedBytes = 0, ps_timedOut = False,
     ps_outputLimitExceeded = False, ps_settled = None, ps_timer = True, ps_kills = 0\<rparr>"

definition push_chunk :: "stream \<Rightarrow> nat list \<Rightarrow> process_state \<Rightarrow> process_state" where
  "push_chunk target chunk st =
     (case target of Stdout \<Rightarrow> st\<lparr>ps_stdout := ps_stdout st @ [chunk]\<rparr>
                   | Stderr \<Rightarrow> st\<lparr>ps_stderr := ps_stderr st @ [chunk]\<rparr>)"

definition capture :: "process_request \<Rightarrow> stream \<Rightarrow> nat list \<Rightarrow> process_state \<Rightarrow> process_state" where
  "capture rq target chunk st =
     (let n = ps_capturedBytes st + length chunk; st' = st\<lparr>ps_capturedBytes := n\<rparr> in
      if rq_maxOutputBytes rq < of_nat n
      then st'\<lparr>ps_outputLimitExceeded := True, ps_kills := ps_kills st + 1\<rparr>
      else push_chunk target chunk st')"

definition onTimeout :: "process_state \<Rightarrow> process_state" where
  "onTimeout st = st\<lparr>ps_timedOut := True, ps_kills := ps_kills st + 1, ps_timer := False\<rparr>"

definition onError :: "jstring \<Rightarrow> process_state \<Rightarrow> process_state" where
  "onError message st =
     (if ps_settled st \<noteq> None then st
      else st\<lparr>ps_settled := Some (ProcessLaunchError message), ps_timer := False\<rparr>)"

definition process_result_of ::
  "process_request \<Rightarrow> int option \<Rightarrow> jstring option \<Rightarrow> rat \<Rightarrow> process_state \<Rightarrow> process_result" where
  "process_result_of rq exitCode signal elapsed st =
     (let stdoutBytes = concat (ps_stdout st); stderrBytes = concat (ps_stderr st) in
      \<lparr>pr_command = rq_command rq, pr_args = rq_args rq, pr_exitCode = exitCode, pr_signal = signal,
       pr_timedOut = ps_timedOut st, pr_outputLimitExceeded = ps_outputLimitExceeded st,
       pr_stdout = fst (decodeUtf8 stdoutBytes), pr_stderr = fst (decodeUtf8 stderrBytes),
       pr_stdoutBytes = stdoutBytes, pr_stderrBytes = stderrBytes,
       pr_stdoutUtf8Valid = snd (decodeUtf8 stdoutBytes), pr_stderrUtf8Valid = snd (decodeUtf8 stderrBytes),
       pr_durationMs = \<lfloor>elapsed + 1 / 2\<rfloor>\<rparr>)"

definition invalidStreams :: "process_result \<Rightarrow> stream list" where
  "invalidStreams r = (if pr_stdoutUtf8Valid r then [] else [Stdout]) @ (if pr_stderrUtf8Valid r then [] else [Stderr])"

definition onClose ::
  "process_request \<Rightarrow> int option \<Rightarrow> jstring option \<Rightarrow> rat \<Rightarrow> process_state \<Rightarrow> process_state" where
  "onClose rq exitCode signal elapsed st =
     (if ps_settled st \<noteq> None then st
      else let r = process_result_of rq exitCode signal elapsed st in
        st\<lparr>ps_timer := False,
           ps_settled := Some (if invalidStreams r = [] then Resolved r
                               else ProcessOutputEncodingError r (invalidStreams r))\<rparr>)"

fun handle :: "process_request \<Rightarrow> process_event \<Rightarrow> process_state \<Rightarrow> process_state" where
  "handle rq (Output target chunk) st = capture rq target chunk st"
| "handle rq Expired st = onTimeout st"
| "handle rq (Launch_error message) st = onError message st"
| "handle rq (Exited exitCode signal elapsed) st = onClose rq exitCode signal elapsed st"

section \<open>Runs\<close>

text \<open>An event reaches its handler when it can happen: the timer only while it runs.\<close>

inductive process_step ::
  "process_request \<Rightarrow> process_state \<Rightarrow> process_event \<Rightarrow> process_state \<Rightarrow> bool" for rq where
  data: "process_step rq st (Output target chunk) (handle rq (Output target chunk) st)"
| expired: "ps_timer st \<Longrightarrow> process_step rq st Expired (handle rq Expired st)"
| launch_failed: "process_step rq st (Launch_error message) (handle rq (Launch_error message) st)"
| closed: "process_step rq st (Exited exitCode signal elapsed) (handle rq (Exited exitCode signal elapsed) st)"

inductive_cases process_stepE: "process_step rq st ev st'"

inductive_simps process_step_simps [simp]:
  "process_step rq st (Output target chunk) st'" "process_step rq st Expired st'"
  "process_step rq st (Launch_error message) st'" "process_step rq st (Exited exitCode signal elapsed) st'"

text \<open>The events of a run, in order, and the state after them.\<close>

inductive process_run :: "process_request \<Rightarrow> process_event list \<Rightarrow> process_state \<Rightarrow> bool" for rq where
  spawned: "process_run rq [] process_start"
| event: "process_run rq evs st \<Longrightarrow> process_step rq st ev st' \<Longrightarrow> process_run rq (evs @ [ev]) st'"

section \<open>Success\<close>

datatype process_failure = TIMEOUT | OUTPUT_LIMIT | SIGNAL jstring | NONZERO_EXIT "int option"

definition requireProcessSuccess :: "process_result \<Rightarrow> process_failure + process_result" where
  "requireProcessSuccess r =
     (if pr_timedOut r then Inl TIMEOUT
      else if pr_outputLimitExceeded r then Inl OUTPUT_LIMIT
      else case pr_signal r of
          Some s \<Rightarrow> Inl (SIGNAL s)
        | None \<Rightarrow> if pr_exitCode r \<noteq> Some 0 then Inl (NONZERO_EXIT (pr_exitCode r)) else Inr r)"

end
