(* ===== verification/Process_Props.thy ===== *)
theory Process_Props
  imports Process
begin

text \<open>
  What a run of a child process promises, whatever order its events come in: the kept output is
  accounted for and bounded, the promise settles exactly once, and success means complete output.
\<close>

section \<open>Invariants of runs\<close>

locale run_invariant =
  fixes I :: "process_request \<Rightarrow> process_event list \<Rightarrow> process_state \<Rightarrow> bool"
  assumes start: "I rq [] process_start"
    and step: "I rq evs st \<Longrightarrow> process_step rq st ev st' \<Longrightarrow> I rq (evs @ [ev]) st'"
begin

lemma holds: "process_run rq evs st \<Longrightarrow> I rq evs st"
  by (induction rule: process_run.induct) (auto intro: start step)

lemma holds_all: "Collect (process_run rq evs) \<subseteq> Collect (I rq evs)"
  using holds by blast

end

text \<open>The bytes that a stream brought, and whether the child has ended.\<close>

fun chunk_of :: "stream \<Rightarrow> process_event \<Rightarrow> nat list" where
  "chunk_of target (Output source chunk) = (if source = target then chunk else [])"
| "chunk_of target ev = []"

definition emitted :: "stream \<Rightarrow> process_event list \<Rightarrow> nat list" where
  "emitted target evs = concat (map (chunk_of target) evs)"

fun ends_child :: "process_event \<Rightarrow> bool" where
  "ends_child (Launch_error message) = True"
| "ends_child (Exited exitCode signal elapsed) = True"
| "ends_child ev = False"

lemma emitted_simps [simp]: "emitted target [] = []"
  "emitted target (evs @ [ev]) = emitted target evs @ chunk_of target ev"
  by (simp_all add: emitted_def)

text \<open>Output is counted in full; it is kept in full up to the limit, and as a bounded prefix after.\<close>

definition accounted :: "process_request \<Rightarrow> process_event list \<Rightarrow> process_state \<Rightarrow> bool" where
  "accounted rq evs st \<longleftrightarrow>
     ps_capturedBytes st = length (emitted Stdout evs) + length (emitted Stderr evs)
     \<and> (ps_outputLimitExceeded st \<longleftrightarrow> rq_maxOutputBytes rq < of_nat (ps_capturedBytes st))
     \<and> (\<exists>a. emitted Stdout evs = concat (ps_stdout st) @ a) \<and> (\<exists>b. emitted Stderr evs = concat (ps_stderr st) @ b)
     \<and> (\<not> ps_outputLimitExceeded st \<longrightarrow>
          concat (ps_stdout st) = emitted Stdout evs \<and> concat (ps_stderr st) = emitted Stderr evs)
     \<and> of_nat (length (concat (ps_stdout st)) + length (concat (ps_stderr st))) \<le> rq_maxOutputBytes rq"

lemma capture_accounted:
  assumes "accounted rq evs st"
  shows "accounted rq (evs @ [Output target chunk]) (capture rq target chunk st)"
proof (cases "rq_maxOutputBytes rq < of_nat (ps_capturedBytes st + length chunk)")
  case True
  have "capture rq target chunk st = st\<lparr>ps_capturedBytes := ps_capturedBytes st + length chunk,
      ps_outputLimitExceeded := True, ps_kills := ps_kills st + 1\<rparr>"
    using True by (simp add: capture_def Let_def)
  moreover obtain a b where "emitted Stdout evs = concat (ps_stdout st) @ a" "emitted Stderr evs = concat (ps_stderr st) @ b"
    using assms by (auto simp: accounted_def)
  then have "emitted Stdout (evs @ [Output target chunk]) = concat (ps_stdout st) @ a @ chunk_of Stdout (Output target chunk)"
    "emitted Stderr (evs @ [Output target chunk]) = concat (ps_stderr st) @ b @ chunk_of Stderr (Output target chunk)"
    by simp_all
  then have "\<exists>a. emitted Stdout (evs @ [Output target chunk]) = concat (ps_stdout st) @ a"
    "\<exists>b. emitted Stderr (evs @ [Output target chunk]) = concat (ps_stderr st) @ b"
    by blast+
  moreover have "length (emitted Stdout (evs @ [Output target chunk])) + length (emitted Stderr (evs @ [Output target chunk]))
      = length (emitted Stdout evs) + length (emitted Stderr evs) + length chunk"
    by (cases target) simp_all
  ultimately show ?thesis using assms True unfolding accounted_def
    by (simp del: emitted_simps of_nat_add)
next
  case False
  have n: "(of_nat (ps_capturedBytes st) :: rat) \<le> of_nat (ps_capturedBytes st + length chunk)" by simp
  then have "\<not> ps_outputLimitExceeded st" using assms False unfolding accounted_def by linarith
  then have e: "concat (ps_stdout st) = emitted Stdout evs" "concat (ps_stderr st) = emitted Stderr evs"
    "ps_capturedBytes st = length (emitted Stdout evs) + length (emitted Stderr evs)"
    using assms by (auto simp: accounted_def)
  have "capture rq target chunk st = push_chunk target chunk (st\<lparr>ps_capturedBytes := ps_capturedBytes st + length chunk\<rparr>)"
    using False by (simp add: capture_def Let_def)
  then show ?thesis using False e \<open>\<not> ps_outputLimitExceeded st\<close>
    by (cases target) (simp_all add: accounted_def push_chunk_def algebra_simps)
qed

interpretation output_account: run_invariant "\<lambda>rq evs st. 0 < rq_maxOutputBytes rq \<longrightarrow> accounted rq evs st"
proof
  show "0 < rq_maxOutputBytes rq \<longrightarrow> accounted rq [] process_start" for rq
    by (simp add: accounted_def process_start_def)
  show "0 < rq_maxOutputBytes rq \<longrightarrow> accounted rq (evs @ [ev]) st'"
    if "0 < rq_maxOutputBytes rq \<longrightarrow> accounted rq evs st" "process_step rq st ev st'" for rq evs st ev st'
    using that capture_accounted[of rq evs st]
    by (cases ev) (auto simp: accounted_def onTimeout_def onError_def onClose_def Let_def)
qed

lemma handle_settled: "ps_settled st \<noteq> None \<Longrightarrow> ps_settled (handle rq ev st) = ps_settled st"
  by (cases ev) (auto simp: capture_def push_chunk_def onTimeout_def onError_def onClose_def Let_def split: stream.splits)

lemma handle_ends:
  "ps_settled st = None \<Longrightarrow> ps_settled (handle rq ev st) \<noteq> None \<longleftrightarrow> ends_child ev"
  by (cases ev) (auto simp: capture_def push_chunk_def onTimeout_def onError_def onClose_def Let_def split: stream.splits)

lemma handle_timer: "ps_timer (handle rq ev st) \<longleftrightarrow>
    (if ev = Expired then False else if ends_child ev \<and> ps_settled st = None then False else ps_timer st)"
  by (cases ev) (auto simp: capture_def push_chunk_def onTimeout_def onError_def onClose_def Let_def split: stream.splits)

lemma handle_timedOut: "ps_timedOut (handle rq ev st) \<longleftrightarrow> ps_timedOut st \<or> ev = Expired"
  by (cases ev) (auto simp: capture_def push_chunk_def onTimeout_def onError_def onClose_def Let_def split: stream.splits)

lemma process_step_handle: "process_step rq st ev st' \<longleftrightarrow> st' = handle rq ev st \<and> (ev = Expired \<longrightarrow> ps_timer st)"
  by (cases ev) auto

definition timer_accounted :: "process_event list \<Rightarrow> process_state \<Rightarrow> bool" where
  "timer_accounted evs st \<longleftrightarrow>
     (ps_timer st \<longleftrightarrow> ps_settled st = None \<and> Expired \<notin> set evs)
     \<and> (ps_timedOut st \<longleftrightarrow> Expired \<in> set evs) \<and> length (filter (\<lambda>ev. ev = Expired) evs) \<le> 1"

interpretation timer_account: run_invariant "\<lambda>rq. timer_accounted"
proof
  show "timer_accounted [] process_start" by (simp add: timer_accounted_def process_start_def)
  show "timer_accounted (evs @ [ev]) st'" if "timer_accounted evs st" "process_step rq st ev st'" for rq evs st ev st'
    using that handle_ends[of st rq ev] handle_settled[of st rq ev]
    by (auto simp: timer_accounted_def process_step_handle handle_timer handle_timedOut filter_empty_conv)
qed

text \<open>Where the child first ended.\<close>

definition settled_by_first_end :: "process_request \<Rightarrow> process_event list \<Rightarrow> process_state \<Rightarrow> bool" where
  "settled_by_first_end rq evs st \<longleftrightarrow>
     (if list_ex ends_child evs
      then \<exists>before ev after st0. evs = before @ ev # after \<and> \<not> list_ex ends_child before \<and> ends_child ev
             \<and> process_run rq before st0 \<and> ps_settled st0 = None
             \<and> ps_settled st = ps_settled (handle rq ev st0) \<and> ps_settled st \<noteq> None
      else process_run rq evs st \<and> ps_settled st = None)"

interpretation settlement: run_invariant settled_by_first_end
proof
  show "settled_by_first_end rq [] process_start" for rq
    using process_run.spawned[of rq] by (auto simp: settled_by_first_end_def process_start_def)
  show "settled_by_first_end rq (evs @ [ev]) st'" if s: "settled_by_first_end rq evs st" "process_step rq st ev st'"
    for rq evs st ev st'
  proof (cases "list_ex ends_child evs")
    case True
    then obtain before e after st0 where b: "evs = before @ e # after" "\<not> list_ex ends_child before" "ends_child e"
      "process_run rq before st0" "ps_settled st0 = None" "ps_settled st = ps_settled (handle rq e st0)" "ps_settled st \<noteq> None"
      using s(1) unfolding settled_by_first_end_def if_P[OF True] by blast
    have "evs @ [ev] = before @ e # (after @ [ev])" using b(1) by simp
    moreover have "ps_settled st' = ps_settled st" using s(2) b(7) by (simp add: process_step_handle handle_settled)
    ultimately show ?thesis using True b(2-) unfolding settled_by_first_end_def by auto
  next
    case False
    then have r: "process_run rq evs st" "ps_settled st = None" using s(1) by (simp_all add: settled_by_first_end_def)
    then have "process_run rq (evs @ [ev]) st'" using s(2) by (auto intro: process_run.event)
    then show ?thesis using False r s(2) handle_ends[OF r(2), of rq ev]
      by (auto simp: settled_by_first_end_def process_step_handle)
  qed
qed

section \<open>What callers rely on\<close>

lemma runProcessRequest_positive: "runProcessRequest options = Inr rq \<Longrightarrow> 0 < rq_maxOutputBytes rq"
  by (auto simp: runProcessRequest_def positive_safe_def Let_def split: jsval.splits option.splits jnum.splits if_splits)

text \<open>C34: whatever a child writes and however its events interleave, the kept output is accounted for:
  every byte is counted, the kept bytes of each stream are a prefix of what the stream brought, together
  they never exceed the limit, nothing is dropped as long as the limit is not exceeded, and the limit
  flag tells exactly whether it was.\<close>

theorem process_output_is_accounted:
  "case runProcessRequest options of
     Inl _ \<Rightarrow> True
   | Inr rq \<Rightarrow> Collect (process_run rq evs) \<subseteq> Collect (accounted rq evs)"
  using output_account.holds runProcessRequest_positive by (auto split: sum.split)

text \<open>C35: the promise settles exactly with the first \<^verbatim>\<open>close\<close> or \<^verbatim>\<open>error\<close> event of the child, with the
  outcome of that event in the state reached before it, and no later event changes it; before that it
  is pending.  The timer runs
  exactly until the promise settles or it expires, and it expires at most once.\<close>

theorem process_settles_once_with_its_child:
  "Collect (process_run rq evs) \<subseteq> {st. settled_by_first_end rq evs st \<and> timer_accounted evs st}"
  using settlement.holds timer_account.holds by blast

text \<open>The result that a clean end after the given events stands for.\<close>

definition complete_result :: "process_request \<Rightarrow> process_event list \<Rightarrow> rat \<Rightarrow> process_result" where
  "complete_result rq before elapsed =
     \<lparr>pr_command = rq_command rq, pr_args = rq_args rq, pr_exitCode = Some 0, pr_signal = None,
      pr_timedOut = False, pr_outputLimitExceeded = False,
      pr_stdout = fst (decodeUtf8 (emitted Stdout before)), pr_stderr = fst (decodeUtf8 (emitted Stderr before)),
      pr_stdoutBytes = emitted Stdout before, pr_stderrBytes = emitted Stderr before,
      pr_stdoutUtf8Valid = True, pr_stderrUtf8Valid = True, pr_durationMs = \<lfloor>elapsed + 1 / 2\<rfloor>\<rparr>"

definition clean_end :: "process_request \<Rightarrow> process_event list \<Rightarrow> bool" where
  "clean_end rq before \<longleftrightarrow>
     \<not> list_ex ends_child before \<and> Expired \<notin> set before
     \<and> of_nat (length (emitted Stdout before) + length (emitted Stderr before)) \<le> rq_maxOutputBytes rq
     \<and> utf8_units (emitted Stdout before) \<noteq> None \<and> utf8_units (emitted Stderr before) \<noteq> None"

lemma first_end_unique:
  assumes "b @ e # a = b' @ e' # a'" "\<not> list_ex ends_child b" "\<not> list_ex ends_child b'" "ends_child e" "ends_child e'"
  shows "b = b' \<and> e = e' \<and> a = a'"
proof -
  have *: "takeWhile (\<lambda>x. \<not> ends_child x) (p @ q # r) = p" if "\<not> list_ex ends_child p" "ends_child q" for p q r
    using that by (induction p) auto
  have "b = b'" using *[OF assms(2,4), of a] *[OF assms(3,5), of a'] assms(1) by simp
  then show ?thesis using assms(1) by simp
qed

lemma succeeds_iff:
  assumes "accounted rq before st0" "timer_accounted before st0" "ps_settled st0 = None" "ends_child ev"
  shows "(\<exists>r. ps_settled (handle rq ev st0) = Some (Resolved r) \<and> requireProcessSuccess r = Inr r') \<longleftrightarrow>
     (\<exists>elapsed. ev = Exited (Some 0) None elapsed \<and> Expired \<notin> set before
        \<and> of_nat (length (emitted Stdout before) + length (emitted Stderr before)) \<le> rq_maxOutputBytes rq
        \<and> utf8_units (emitted Stdout before) \<noteq> None \<and> utf8_units (emitted Stderr before) \<noteq> None
        \<and> r' = complete_result rq before elapsed)"
proof (cases ev)
  case (Exited code signal elapsed)
  define r where "r = process_result_of rq code signal elapsed st0"
  have set: "ps_settled (handle rq ev st0) = Some (if invalidStreams r = [] then Resolved r
      else ProcessOutputEncodingError r (invalidStreams r))"
    using assms(3) by (simp add: Exited onClose_def r_def Let_def)
  have timed: "pr_timedOut r \<longleftrightarrow> Expired \<in> set before"
    using assms(2) by (simp add: timer_accounted_def r_def process_result_of_def Let_def)
  have limit: "pr_outputLimitExceeded r \<longleftrightarrow>
      \<not> of_nat (length (emitted Stdout before) + length (emitted Stderr before)) \<le> rq_maxOutputBytes rq"
  proof -
    have "pr_outputLimitExceeded r \<longleftrightarrow> ps_outputLimitExceeded st0" by (simp add: r_def process_result_of_def Let_def)
    then show ?thesis using assms(1) unfolding accounted_def by (simp only: not_le)
  qed
  show ?thesis
  proof (cases "pr_outputLimitExceeded r")
    case True
    then show ?thesis using set limit by (auto simp: requireProcessSuccess_def split: if_splits)
  next
    case False
    then have e: "concat (ps_stdout st0) = emitted Stdout before" "concat (ps_stderr st0) = emitted Stderr before"
      using assms(1) by (auto simp: accounted_def r_def process_result_of_def Let_def)
    have valid: "invalidStreams r = [] \<longleftrightarrow>
        utf8_units (emitted Stdout before) \<noteq> None \<and> utf8_units (emitted Stderr before) \<noteq> None"
      by (auto simp: invalidStreams_def r_def process_result_of_def Let_def e decodeUtf8_def split: option.splits)
    have ok: "requireProcessSuccess r = Inr r' \<longleftrightarrow> \<not> pr_timedOut r \<and> signal = None \<and> code = Some 0 \<and> r' = r"
      using False by (auto simp: requireProcessSuccess_def r_def process_result_of_def Let_def split: option.splits)
    have "r = complete_result rq before elapsed"
      if "invalidStreams r = []" "\<not> pr_timedOut r" "signal = None" "code = Some 0"
      using that False by (auto simp: complete_result_def r_def process_result_of_def Let_def e invalidStreams_def split: if_splits)
    moreover have "(\<exists>s. ps_settled (handle rq ev st0) = Some (Resolved s) \<and> requireProcessSuccess s = Inr r')
        \<longleftrightarrow> invalidStreams r = [] \<and> \<not> pr_timedOut r \<and> signal = None \<and> code = Some 0 \<and> r' = r"
      using set ok by simp
    ultimately have "(\<exists>s. ps_settled (handle rq ev st0) = Some (Resolved s) \<and> requireProcessSuccess s = Inr r')
        \<longleftrightarrow> code = Some 0 \<and> signal = None \<and> \<not> pr_timedOut r \<and> invalidStreams r = []
            \<and> r' = complete_result rq before elapsed"
      by blast
    then show ?thesis using False limit unfolding valid timed Exited by (simp only: process_event.inject) blast
  qed
qed (use assms(3,4) in \<open>auto simp: onError_def\<close>)

text \<open>C33: a caller that goes through \<^verbatim>\<open>requireProcessSuccess\<close> receives a result exactly when the child
  ended by itself with exit code 0, before the timer expired and within the output limit, having written
  valid UTF-8 on both streams; and the result then holds every byte of both streams.\<close>

theorem successful_process_is_complete:
  "case runProcessRequest options of
     Inl _ \<Rightarrow> True
   | Inr rq \<Rightarrow>
       (\<exists>st r. process_run rq evs st \<and> ps_settled st = Some (Resolved r) \<and> requireProcessSuccess r = Inr r') \<longleftrightarrow>
       (\<exists>st before elapsed after. process_run rq evs st
          \<and> evs = before @ Exited (Some 0) None elapsed # after \<and> clean_end rq before
          \<and> r' = complete_result rq before elapsed)"
proof (cases "runProcessRequest options")
  case (Inr rq)
  have pos: "0 < rq_maxOutputBytes rq" by (rule runProcessRequest_positive[OF Inr])
  have "(\<exists>r. ps_settled st = Some (Resolved r) \<and> requireProcessSuccess r = Inr r') \<longleftrightarrow>
      (\<exists>before elapsed after. evs = before @ Exited (Some 0) None elapsed # after \<and> clean_end rq before
         \<and> r' = complete_result rq before elapsed)" if run: "process_run rq evs st" for st
  proof (cases "list_ex ends_child evs")
    case False
    then show ?thesis using settlement.holds[OF run] by (auto simp: settled_by_first_end_def)
  next
    case True
    then obtain before ev after st0 where b: "evs = before @ ev # after" "\<not> list_ex ends_child before"
      "ends_child ev" "process_run rq before st0" "ps_settled st0 = None" "ps_settled st = ps_settled (handle rq ev st0)"
      using settlement.holds[OF run] unfolding settled_by_first_end_def if_P[OF True] by blast
    have "accounted rq before st0" "timer_accounted before st0"
      using output_account.holds[OF b(4)] pos timer_account.holds[OF b(4)] by simp_all
    note iff = succeeds_iff[OF this b(5,3), of r']
    show ?thesis unfolding b(6) iff
    proof
      assume "\<exists>elapsed. ev = Exited (Some 0) None elapsed \<and> Expired \<notin> set before
        \<and> of_nat (length (emitted Stdout before) + length (emitted Stderr before)) \<le> rq_maxOutputBytes rq
        \<and> utf8_units (emitted Stdout before) \<noteq> None \<and> utf8_units (emitted Stderr before) \<noteq> None
        \<and> r' = complete_result rq before elapsed"
      then show "\<exists>before elapsed after. evs = before @ Exited (Some 0) None elapsed # after \<and> clean_end rq before
         \<and> r' = complete_result rq before elapsed" using b(1,2) unfolding clean_end_def by blast
    next
      assume "\<exists>before elapsed after. evs = before @ Exited (Some 0) None elapsed # after \<and> clean_end rq before
         \<and> r' = complete_result rq before elapsed"
      then obtain p t q where p: "evs = p @ Exited (Some 0) None t # q" "clean_end rq p" "r' = complete_result rq p t" by blast
      then have "before = p \<and> ev = Exited (Some 0) None t \<and> after = q"
        using b(1-3) by (intro first_end_unique) (auto simp: clean_end_def)
      then show "\<exists>elapsed. ev = Exited (Some 0) None elapsed \<and> Expired \<notin> set before
        \<and> of_nat (length (emitted Stdout before) + length (emitted Stderr before)) \<le> rq_maxOutputBytes rq
        \<and> utf8_units (emitted Stdout before) \<noteq> None \<and> utf8_units (emitted Stderr before) \<noteq> None
        \<and> r' = complete_result rq before elapsed" using p by (auto simp: clean_end_def)
    qed
  qed
  then show ?thesis by (auto simp: Inr) blast+
qed simp

end
