(* ===== verification/Evidence.thy ===== *)
theory Evidence
  imports Docker_Run Schema
begin

text \<open>
  The evidence document of \<^verbatim>\<open>src/scripts/supply-chain/contracts.mjs\<close>: the structure that
  \<^verbatim>\<open>validateEvidenceDocument\<close> requires of every document, the linkage of process checks and raw
  artifacts, the validation context of a passing run and the seals that bind a passing document to it.
\<close>

section \<open>Values\<close>

definition is_text_value :: "jsval \<Rightarrow> bool" where
  "is_text_value v \<longleftrightarrow> (case v of JStr _ \<Rightarrow> True | _ \<Rightarrow> False)"

definition text_of :: "jsval \<Rightarrow> jstring" where
  "text_of v = (case v of JStr s \<Rightarrow> s | _ \<Rightarrow> [])"

definition is_zero :: "jsval \<Rightarrow> bool" where
  "is_zero v \<longleftrightarrow> v = JNum (Fin 0)"

definition is_integer_value :: "jsval \<Rightarrow> bool" where
  "is_integer_value v \<longleftrightarrow> (case v of JNum x \<Rightarrow> is_integer x | _ \<Rightarrow> False)"

definition elements_in :: "jsval \<Rightarrow> jsval list" where
  "elements_in v = (case v of JArr xs \<Rightarrow> xs | _ \<Rightarrow> [])"

definition is_array :: "jsval \<Rightarrow> bool" where
  "is_array v \<longleftrightarrow> (case v of JArr _ \<Rightarrow> True | _ \<Rightarrow> False)"

definition each :: "('a \<Rightarrow> cexn + unit) \<Rightarrow> 'a list \<Rightarrow> cexn + unit" where
  "each f xs = foldR (\<lambda>_. f) () xs"

text \<open>\<^verbatim>\<open>/^[0-9a-f]{40}$/u\<close>\<close>

definition commit_text :: "jstring \<Rightarrow> bool" where
  "commit_text s \<longleftrightarrow> length s = 40 \<and> list_all is_lower_hex s"

definition is_process_id :: "jstring \<Rightarrow> bool" where
  "is_process_id s \<longleftrightarrow> starts_with s (js ''PROCESS-'')"

section \<open>The header of a document\<close>

definition canonicalTime :: "jsenv \<Rightarrow> jsval \<Rightarrow> cexn + unit" where
  "canonicalTime E v =
     bindR (needNonemptyString v) (\<lambda>s.
       let parsed = js_date_parse E s in
       requireC (is_finite parsed \<and> js_iso E parsed = s) ''must be canonical UTC'')"

definition evidenceHeader :: "jsenv \<Rightarrow> jsval \<Rightarrow> cexn + unit" where
  "evidenceHeader E ev =
     bindR (requireC (getp ev ''schemaVersion'' = JNum (Fin 2) \<and> is_str (getp ev ''gateId'') ''R-016'')
              ''evidence schema/gate identity is invalid'') (\<lambda>_.
     bindR (each (\<lambda>name. bindR (needNonemptyString (getp ev name)) (\<lambda>_. Inr ()))
              [''runId'', ''status'', ''startedAt'', ''finishedAt'']) (\<lambda>_.
     bindR (each (\<lambda>name. canonicalTime E (getp ev name)) [''startedAt'', ''finishedAt'']) (\<lambda>_.
     bindR (requireC (is_integer_value (getp ev ''exitCode'')) ''evidence.exitCode is invalid'') (\<lambda>_.
     bindR (each (\<lambda>name. needRecord (getp ev name)) [''source'', ''controlSource'', ''inputs'', ''environment'', ''tools'']) (\<lambda>_.
       each (\<lambda>name. requireC (is_array (getp ev name)) ''must be an array'')
         [''advisoryDatabases'', ''checks'', ''rawArtifacts''])))))"

section \<open>The identity of a passing document\<close>

definition absoluteText :: "jsval \<Rightarrow> cexn + unit" where
  "absoluteText v = bindR (needNonemptyString v) (\<lambda>s. requireC (is_absolute s) ''must be absolute'')"

definition sourceIdentity :: "jsval \<Rightarrow> cexn + unit" where
  "sourceIdentity source =
     bindR (each (\<lambda>name. bindR (needNonemptyString (getp source name)) (\<lambda>s. requireC (commit_text s) ''object id is invalid''))
              [''head'', ''tree'']) (\<lambda>_.
       each (\<lambda>name. absoluteText (getp source name)) [''topLevel'', ''gitDirectory''])"

definition executableIdentity :: "jsenv \<Rightarrow> jsval \<Rightarrow> cexn + unit" where
  "executableIdentity E executable =
     bindR (needRecord executable) (\<lambda>_.
     bindR (absoluteText (getp executable ''path'')) (\<lambda>_.
     bindR (validateSha256 E (getp executable ''sha256'')) (\<lambda>_.
     bindR (requireNonnegativeSafeInteger (getp executable ''size'')) (\<lambda>_.
       requireC (\<not> is_zero (getp executable ''size'')) ''size must be positive''))))"

definition passIdentity :: "jsenv \<Rightarrow> jsval \<Rightarrow> cexn + unit" where
  "passIdentity E ev =
     (let source = getp ev ''source''; environment = getp ev ''environment'';
          splitRoot = is_str (getp (getp (getp ev ''inputs'') ''controlPlane'') ''mode'') ''split-root'';
          actions = is_str (getp (getp environment ''runner'') ''GITHUB_ACTIONS'') ''true'';
          docker = getp environment ''docker''; executables = getp environment ''executables'' in
      bindR (requireC (\<not> has_own ev (js ''failure'')) ''PASS evidence cannot contain failure details'') (\<lambda>_.
      bindR (requireC (is_zero (getp ev ''exitCode'')) ''PASS evidence must use exit code 0'') (\<lambda>_.
      bindR (each (\<lambda>name. sourceIdentity (getp ev name)) [''source'', ''controlSource'']) (\<lambda>_.
      bindR (requireC (\<not> ((actions \<or> splitRoot)
                 \<and> \<not> strict_eq (getp source ''expectedCheckoutSha'') (getp source ''head'')))
               ''must bind expected checkout SHA'') (\<lambda>_.
      bindR (needNonemptyString (getp (getp environment ''runtime'') ''node'')) (\<lambda>_.
      bindR (needNonemptyString (getp docker ''clientVersion'')) (\<lambda>_.
      bindR (needNonemptyString (getp docker ''serverVersion'')) (\<lambda>_.
      bindR (needRecord executables) (\<lambda>_.
      bindR (assertExactObjectKeys E executables [''git'', ''docker'']) (\<lambda>_.
        each (\<lambda>name. executableIdentity E (getp executables name)) [''git'', ''docker'']))))))))))"

definition statusIdentity :: "jsenv \<Rightarrow> jsval \<Rightarrow> cexn + unit" where
  "statusIdentity E ev =
     (if is_str (getp ev ''status'') ''PASS'' then passIdentity E ev
      else bindR (requireC (is_str (getp ev ''status'') ''FAIL'') ''evidence.status must be PASS or FAIL'') (\<lambda>_.
           bindR (requireC (\<not> is_zero (getp ev ''exitCode'')) ''FAIL evidence cannot use exit code 0'') (\<lambda>_.
             needRecord (getp ev ''failure''))))"

section \<open>Checks and artifacts\<close>

definition processCommand :: "jsval \<Rightarrow> cexn + unit" where
  "processCommand check =
     bindR (needNonemptyString (getp check ''command'')) (\<lambda>_.
     let arguments = getp check ''arguments''; artifacts = getp check ''artifacts'';
         duration = getp check ''durationMs''; rawExit = getp check ''rawExit'' in
     requireC (is_array arguments \<and> list_all is_text_value (elements_in arguments)
               \<and> is_array artifacts \<and> length (elements_in artifacts) = 2
               \<and> list_all is_text_value (elements_in artifacts) \<and> distinct (elements_in artifacts)
               \<and> getp check ''argumentCount'' = JNum (Fin (of_nat (length (elements_in arguments))))
               \<and> is_safe_number duration \<and> \<not> is_negative duration
               \<and> (is_integer_value rawExit \<or> rawExit = JNull)) ''command contract is invalid'')"

text \<open>The set of identifiers and the process checks so far.\<close>

definition checkEntry :: "jstring list \<times> jsval list \<Rightarrow> jsval \<Rightarrow> cexn + jstring list \<times> jsval list" where
  "checkEntry st check =
     (case st of (checkIds, processChecks) \<Rightarrow>
      bindR (needRecord check) (\<lambda>_.
      bindR (needNonemptyString (getp check ''id'')) (\<lambda>pid.
      bindR (requireC (pid \<notin> set checkIds) ''evidence contains duplicate check ID'') (\<lambda>_.
      bindR (needNonemptyString (getp check ''status'')) (\<lambda>_.
        if is_process_id pid then
          bindR (processCommand check) (\<lambda>_. Inr (checkIds @ [pid], processChecks @ [check]))
        else Inr (checkIds @ [pid], processChecks))))))"

definition artifactEntry :: "jsenv \<Rightarrow> (jstring \<times> jsval) list \<Rightarrow> jsval \<Rightarrow> cexn + (jstring \<times> jsval) list" where
  "artifactEntry E artifactsByPath artifact =
     bindR (needRecord artifact) (\<lambda>_.
     bindR (validateRepositoryPath (getp artifact ''path'')) (\<lambda>_.
     let path = text_of (getp artifact ''path'') in
     bindR (requireC (path \<notin> fst ` set artifactsByPath) ''evidence contains duplicate artifact path'') (\<lambda>_.
     bindR (requireC (is_process_id (to_text E (getp artifact ''processId''))) ''processId is invalid'') (\<lambda>_.
     bindR (requireC (is_str (getp artifact ''stream'') ''stdout'' \<or> is_str (getp artifact ''stream'') ''stderr'')
              ''stream is invalid'') (\<lambda>_.
     bindR (requireC (case getp artifact ''redacted'' of JBool _ \<Rightarrow> True | _ \<Rightarrow> False) ''redacted is invalid'') (\<lambda>_.
     bindR (each (\<lambda>name. requireC (sha256_text (to_text E (getp artifact name))) ''digest is invalid'')
              [''rawSha256'', ''sha256'']) (\<lambda>_.
     bindR (each (\<lambda>name. requireC (is_safe_number (getp artifact name) \<and> \<not> is_negative (getp artifact name)) ''size is invalid'')
              [''rawSize'', ''size'']) (\<lambda>_.
     bindR (requireC (\<not> (getp artifact ''redacted'' = JBool False
                 \<and> (\<not> strict_eq (getp artifact ''rawSha256'') (getp artifact ''sha256'')
                    \<or> \<not> strict_eq (getp artifact ''rawSize'') (getp artifact ''size''))))
              ''unredacted identities differ'') (\<lambda>_.
       Inr (artifactsByPath @ [(path, artifact)]))))))))))"

section \<open>Linkage\<close>

definition artifact_names :: "jsval \<Rightarrow> jstring list" where
  "artifact_names check = map text_of (elements_in (getp check ''artifacts''))"

text \<open>One artifact of a check: the referenced paths and the streams of the check so far.\<close>

definition linkArtifact ::
  "(jstring \<times> jsval) list \<Rightarrow> jsval \<Rightarrow> jstring list \<times> jsval list \<Rightarrow> jstring \<Rightarrow> cexn + jstring list \<times> jsval list" where
  "linkArtifact artifactsByPath check st path =
     (case st of (referenced, streams) \<Rightarrow>
      case map_of artifactsByPath path of
        None \<Rightarrow> Inl (Refused ''artifact linkage is invalid'')
      | Some artifact \<Rightarrow>
          bindR (requireC (strict_eq (getp artifact ''processId'') (getp check ''id'') \<and> path \<notin> set referenced)
                   ''artifact linkage is invalid'') (\<lambda>_.
            Inr (referenced @ [path], streams @ [getp artifact ''stream''])))"

definition linkCheck ::
  "(jstring \<times> jsval) list \<Rightarrow> jstring list \<Rightarrow> jsval \<Rightarrow> cexn + jstring list" where
  "linkCheck artifactsByPath referenced check =
     bindR (foldR (linkArtifact artifactsByPath check) (referenced, []) (artifact_names check)) (\<lambda>(referenced', streams).
     bindR (requireC (JStr (js ''stdout'') \<in> set streams \<and> JStr (js ''stderr'') \<in> set streams)
              ''must link stdout and stderr'') (\<lambda>_. Inr referenced'))"

definition validateProcessArtifactLinkage :: "jsval list \<Rightarrow> (jstring \<times> jsval) list \<Rightarrow> cexn + unit" where
  "validateProcessArtifactLinkage processChecks artifactsByPath =
     bindR (foldR (linkCheck artifactsByPath) [] processChecks) (\<lambda>referenced.
       requireC (length referenced = length artifactsByPath) ''evidence contains unlinked raw artifacts'')"

text \<open>Everything before the rules of a passing document: the identifiers of the checks, the process checks
  and the artifacts by their paths.\<close>

definition evidenceStructure ::
  "jsenv \<Rightarrow> webenv \<Rightarrow> nat \<Rightarrow> jsval \<Rightarrow> jsval \<Rightarrow> cexn + jstring list \<times> jsval list \<times> (jstring \<times> jsval) list" where
  "evidenceStructure E W depth schema ev =
     bindR (needRecord ev) (\<lambda>_.
     bindR (if schema = JUndef then Inr () else validateEvidenceAgainstSchema E W depth ev schema) (\<lambda>_.
     bindR (evidenceHeader E ev) (\<lambda>_.
     bindR (statusIdentity E ev) (\<lambda>_.
     bindR (foldR checkEntry ([], []) (elements_in (getp ev ''checks''))) (\<lambda>(checkIds, processChecks).
     bindR (foldR (artifactEntry E) [] (elements_in (getp ev ''rawArtifacts''))) (\<lambda>artifactsByPath.
     bindR (validateProcessArtifactLinkage processChecks artifactsByPath) (\<lambda>_.
       Inr (checkIds, processChecks, artifactsByPath))))))))"

end
