(* ===== verification/Evidence_Seals.thy ===== *)
theory Evidence_Seals
  imports Evidence
begin

text \<open>
  The trusted context of a passing run and the seals that bind an evidence document to it
  (\<^verbatim>\<open>validatePassValidationContext\<close>, \<^verbatim>\<open>validateTrustedEvidenceSeals\<close>, \<^verbatim>\<open>validateRawArtifactSeals\<close> and the
  classification of checks in \<^verbatim>\<open>validatePassEvidence\<close> of
  \<^verbatim>\<open>src/scripts/supply-chain/contracts.mjs\<close>), and the recorded git commands of the source and the
  control source.
\<close>

section \<open>The validation context\<close>

text \<open>A \<^verbatim>\<open>Map\<close> is the list of its entries in insertion order.\<close>

type_synonym 'v js_map = "(jstring \<times> 'v) list"

definition map_size :: "'v js_map \<Rightarrow> nat" where
  "map_size m = length (uniq (map fst m))"

text \<open>A cached blob; its bytes are absent when they are no \<^verbatim>\<open>Uint8Array\<close>.\<close>

record cached_blob =
  cb_objectId :: jsval
  cb_bytes :: "nat list option"

text \<open>The plain members of the context, and those that have to be a \<^verbatim>\<open>Map\<close>, absent when they are none.\<close>

record pass_context =
  px_values :: jsval
  px_rawArtifactSeals :: "jsval js_map option"
  px_processSeals :: "jsval js_map option"
  px_terminalSeals :: "jsval js_map option"
  px_trackedIndex :: "jsval js_map option"
  px_trackedBlobCache :: "cached_blob js_map option"
  px_controlTrackedIndex :: "jsval js_map option"
  px_controlTrackedBlobCache :: "cached_blob js_map option"

definition PASS_TOOL_NAMES :: "string list" where
  "PASS_TOOL_NAMES = [''osv-scanner'', ''semgrep-ce'', ''go-toolchain'']"

definition contextRoots :: "jsval \<Rightarrow> cexn + unit" where
  "contextRoots context =
     each (\<lambda>name. requireC (case getp context name of JStr s \<Rightarrow> is_absolute s | _ \<Rightarrow> False) ''requires a trusted root'')
       [''root'', ''controlRoot'', ''temporaryRoot'']"

definition contextSeals :: "jsenv \<Rightarrow> jsval \<Rightarrow> cexn + unit" where
  "contextSeals E context =
     bindR (assertExactObjectKeys E (getp context ''toolExecutionSeals'') PASS_TOOL_NAMES) (\<lambda>_.
     let verdicts = getp context ''verdictExecutionSeals''; configuration = getp context ''configuration'' in
     bindR (assertExactObjectKeys E verdicts [''license'', ''vulnerability'']) (\<lambda>_.
     bindR (needRecord (getp verdicts ''vulnerability'')) (\<lambda>_.
     bindR (needRecord (getp verdicts ''license'')) (\<lambda>_.
     bindR (requireC (is_array (getp context ''databaseIdentitySeal'')) ''requires trusted database identity seal'') (\<lambda>_.
     bindR (needRecord configuration) (\<lambda>_.
     bindR (needRecord (getp configuration ''policy'')) (\<lambda>_.
     bindR (needRecord (getp configuration ''scanners'')) (\<lambda>_.
       needRecord (getp context ''configurationInputs'')))))))))"

definition validatePassValidationContext :: "jsenv \<Rightarrow> pass_context \<Rightarrow> cexn + unit" where
  "validatePassValidationContext E ctx =
     (let context = px_values ctx; isMap = (\<lambda>b. requireC b ''requires a trusted map'') in
      bindR (needRecord context) (\<lambda>_.
      bindR (contextRoots context) (\<lambda>_.
      bindR (contextSeals E context) (\<lambda>_.
      bindR (isMap (px_rawArtifactSeals ctx \<noteq> None)) (\<lambda>_.
      bindR (isMap (px_trackedIndex ctx \<noteq> None)) (\<lambda>_.
      bindR (isMap (px_trackedBlobCache ctx \<noteq> None)) (\<lambda>_.
      bindR (isMap (px_controlTrackedIndex ctx \<noteq> None)) (\<lambda>_.
      bindR (isMap (px_controlTrackedBlobCache ctx \<noteq> None)) (\<lambda>_.
      bindR (each (\<lambda>name. needRecord (getp context name))
               [''sourceSeal'', ''controlSourceSeal'', ''controlInputsSeal'', ''environmentSeal'', ''dockerEnvironmentSeal'',
                ''inputsSeal'', ''toolsSeal'', ''databaseArchiveSeal'', ''toolExecutionSeals'']) (\<lambda>_.
      bindR (isMap (px_processSeals ctx \<noteq> None)) (\<lambda>_.
        isMap (px_terminalSeals ctx \<noteq> None))))))))))))"

definition map_entries :: "'v js_map option \<Rightarrow> 'v js_map" where
  "map_entries m = (case m of None \<Rightarrow> [] | Some es \<Rightarrow> es)"

definition context_text :: "pass_context \<Rightarrow> string \<Rightarrow> jstring" where
  "context_text ctx name = text_of (getp (px_values ctx) name)"

section \<open>The checks of a passing document\<close>

definition PASS_TERMINAL_CHECK_IDS :: "string list" where
  "PASS_TERMINAL_CHECK_IDS =
     [''R016-REPOSITORY-USE'', ''R016-EXECUTION-ENVIRONMENT'', ''R016-CONTROL-SOURCE-SEAL'', ''R016-OSV-MISSING-DB-NEGATIVE'',
      ''R016-OSV-VULNERABILITY-CANARY'', ''R016-OSV-VULNERABILITY-DEVELOPMENT-CANARY'', ''R016-OSV-GO-ADVISORY-CANARY'',
      ''R016-OSV-GO-TRANSITIVE-CANARY'', ''R016-OSV-GO-LICENSE-DENIED-CANARY'', ''R016-OSV-LICENSE-DENIED-CANARY'',
      ''R016-OSV-LICENSE-UNKNOWN-CANARY'', ''R016-DB-ZIP'', ''R016-DB-SEAL'', ''R016-VULNERABILITY'', ''R016-LICENSE'',
      ''R016-SAST'', ''R016-SAST-NEGATIVE'', ''R016-SOURCE-SEAL'', ''R016-GATE'']"

definition passCheck :: "jsval list \<Rightarrow> jsval \<Rightarrow> cexn + jsval list" where
  "passCheck processChecks check =
     (if is_process_id (text_of (getp check ''id'')) then
        bindR (requireC (is_str (getp check ''status'') ''RECORDED'' \<and> getp check ''timedOut'' = JBool False
                 \<and> getp check ''outputLimitExceeded'' = JBool False \<and> getp check ''signal'' = JNull)
                 ''process check is not cleanly recorded'') (\<lambda>_.
          Inr (processChecks @ [check]))
      else
        bindR (requireC (text_of (getp check ''id'') \<in> set (map js PASS_TERMINAL_CHECK_IDS)) ''unsupported check'') (\<lambda>_.
        bindR (requireC (is_str (getp check ''status'') ''PASS'') ''terminal check did not pass'') (\<lambda>_.
          Inr processChecks)))"

definition passChecks :: "jsval list \<Rightarrow> cexn + jsval list" where
  "passChecks checks =
     bindR (foldR passCheck [] checks) (\<lambda>processChecks.
     bindR (requireC (processChecks \<noteq> []) ''must contain process checks'') (\<lambda>_. Inr processChecks))"

definition terminalsPresent :: "jstring list \<Rightarrow> cexn + unit" where
  "terminalsPresent checkIds =
     each (\<lambda>name. requireC (js name \<in> set checkIds) ''missing terminal check'') PASS_TERMINAL_CHECK_IDS"

section \<open>Seals\<close>

definition sealedBy :: "jsenv \<Rightarrow> jsval js_map \<Rightarrow> jstring \<Rightarrow> jsval \<Rightarrow> cexn + unit" where
  "sealedBy E seals key v =
     (case map_of seals key of
        None \<Rightarrow> Inl (Refused ''differs from its trusted seal'')
      | Some sealed \<Rightarrow> sameCanonical E v sealed ''differs from its trusted seal'')"

definition trustedExecutable :: "jsenv \<Rightarrow> jsval \<Rightarrow> jsval \<Rightarrow> cexn + unit" where
  "trustedExecutable E executables check =
     (let command = text_of (getp check ''command'') in
      if program_named E command ''git'' then
        requireC (strict_eq (JStr command) (getp (getp executables ''git'') ''path'')) ''executable differs''
      else if program_named E command ''docker'' then
        requireC (strict_eq (JStr command) (getp (getp executables ''docker'') ''path'')) ''executable differs''
      else Inl (Refused ''executable differs''))"

definition terminal_checks :: "jsval \<Rightarrow> jsval list" where
  "terminal_checks ev = filter (\<lambda>c. starts_with (text_of (getp c ''id'')) (js ''R016-'')) (elements_in (getp ev ''checks''))"

definition documentSeals :: "jsval \<Rightarrow> pass_context \<Rightarrow> (jsval \<times> string) list" where
  "documentSeals ev ctx =
     [(getp ev ''source'', ''sourceSeal''), (getp ev ''controlSource'', ''controlSourceSeal''),
      (getp (getp ev ''inputs'') ''controlPlane'', ''controlInputsSeal''), (getp ev ''environment'', ''environmentSeal''),
      (getp ev ''inputs'', ''inputsSeal''), (getp ev ''tools'', ''toolsSeal''),
      (getp ev ''databaseArchiveValidation'', ''databaseArchiveSeal'')]"

definition sealedRoots :: "jstring \<Rightarrow> jsval \<Rightarrow> pass_context \<Rightarrow> cexn + unit" where
  "sealedRoots cwd ev ctx =
     (let root = resolve_path cwd (context_text ctx ''root''); controlRoot = resolve_path cwd (context_text ctx ''controlRoot'') in
      bindR (requireC (resolve_path cwd (text_of (getp (getp ev ''source'') ''topLevel'')) = root) ''source top-level differs'') (\<lambda>_.
      bindR (requireC (resolve_path cwd (text_of (getp (getp ev ''controlSource'') ''topLevel'')) = controlRoot)
               ''control source top-level differs'') (\<lambda>_.
      bindR (accR (getp (getp ev ''inputs'') ''controlPlane'') ''mode'') (\<lambda>mode.
        requireC (is_str mode (if root = controlRoot then ''same-root'' else ''split-root'')) ''control-plane mode differs''))))"

definition validateTrustedEvidenceSeals ::
  "jsenv \<Rightarrow> jstring \<Rightarrow> jsval \<Rightarrow> jsval list \<Rightarrow> pass_context \<Rightarrow> cexn + unit" where
  "validateTrustedEvidenceSeals E cwd ev processChecks ctx =
     (let context = px_values ctx; environment = getp ev ''environment''; differs = ''differs from its trusted seal'';
          processSeals = map_entries (px_processSeals ctx); terminalSeals = map_entries (px_terminalSeals ctx) in
      bindR (sealedRoots cwd ev ctx) (\<lambda>_.
      bindR (sameCanonical E (getp ev ''advisoryDatabases'') (getp context ''databaseIdentitySeal'') differs) (\<lambda>_.
      bindR (each (\<lambda>(v, name). sameCanonical E v (getp context name) differs) (documentSeals ev ctx)) (\<lambda>_.
      bindR (accsR context [''configuration'', ''policy'', ''runtime'', ''nodeVersion'']) (\<lambda>version.
      bindR (requireC (getp (getp environment ''runtime'') ''node'' = JStr (js ''v'' @ to_text E version)) ''Node runtime differs'') (\<lambda>_.
      bindR (requireC (map_size processSeals = length processChecks) ''process inventory differs'') (\<lambda>_.
      bindR (each (\<lambda>check. bindR (sealedBy E processSeals (text_of (getp check ''id'')) check) (\<lambda>_.
                     trustedExecutable E (getp environment ''executables'') check)) processChecks) (\<lambda>_.
      bindR (requireC (map_size terminalSeals = length (terminal_checks ev)) ''terminal inventory differs'') (\<lambda>_.
        each (\<lambda>check. sealedBy E terminalSeals (text_of (getp check ''id'')) check) (terminal_checks ev))))))))))"

definition validateRawArtifactSeals :: "jsenv \<Rightarrow> jsval list \<Rightarrow> jsval js_map \<Rightarrow> cexn + unit" where
  "validateRawArtifactSeals E artifacts trustedSeals =
     bindR (requireC (map_size trustedSeals = length artifacts) ''raw artifact inventory differs'') (\<lambda>_.
       each (\<lambda>artifact. sealedBy E trustedSeals (text_of (getp artifact ''path'')) artifact) artifacts)"

end
