(* ===== verification/Evidence_Inputs.thy ===== *)
theory Evidence_Inputs
  imports Evidence_Seals
begin

text \<open>
  The input inventory of a passing evidence document (\<^verbatim>\<open>validatePassInputs\<close> of
  \<^verbatim>\<open>src/scripts/supply-chain/contracts.mjs\<close>): the protected control plane, the configuration, the pnpm and
  Go inventories and the Semgrep sources and rules.
\<close>

section \<open>Helpers\<close>

text \<open>\<^verbatim>\<open>createHash("sha256").update(bytes)\<close>\<close>

definition sha256Bytes :: "jsenv \<Rightarrow> nat list \<Rightarrow> jstring" where
  "sha256Bytes E bs = js_hash E (js ''sha256'') bs"

definition hashOf :: "jsenv \<Rightarrow> jsval \<Rightarrow> cexn + jsval" where
  "hashOf E v = bindR (canonR E v) (\<lambda>t. Inr (JStr (sha256Hex E t)))"

text \<open>\<^verbatim>\<open>a !== b\<close> refused.\<close>

definition needSame :: "jsval \<Rightarrow> jsval \<Rightarrow> string \<Rightarrow> cexn + unit" where
  "needSame v w m = requireC (strict_eq v w) m"

definition natValue :: "nat \<Rightarrow> jsval" where
  "natValue n = JNum (Fin (of_nat n))"

definition number_of :: "jsval \<Rightarrow> rat" where
  "number_of v = (case v of JNum (Fin r) \<Rightarrow> r | _ \<Rightarrow> 0)"

text \<open>The sum of two finite numbers.\<close>

definition addNumbers :: "jnum \<Rightarrow> jsval \<Rightarrow> jnum" where
  "addNumbers a v = (case a of Fin r \<Rightarrow> to_double (r + number_of v) | _ \<Rightarrow> a)"

definition positiveSize :: "jsval \<Rightarrow> cexn + unit" where
  "positiveSize v = bindR (requireNonnegativeSafeInteger v) (\<lambda>_. requireC (\<not> is_zero v) ''size must be positive'')"

text \<open>\<^verbatim>\<open>assertExactObjectKeys(value, expected)\<close> where the expected names are values of the policy.\<close>

definition assertExactKeyValues :: "jsenv \<Rightarrow> jsval \<Rightarrow> jsval list \<Rightarrow> cexn + unit" where
  "assertExactKeyValues E v expected =
     bindR (needRecord v) (\<lambda>_.
       sameCanonical E (strings (sort (keys_of v))) (JArr (js_sort E expected)) ''exact required keys'')"

text \<open>\<^verbatim>\<open>Object.keys(v)\<close>\<close>

definition objectKeysR :: "jsval \<Rightarrow> cexn + jstring list" where
  "objectKeysR v =
     (case v of
        JUndef \<Rightarrow> Inl Thrown | JNull \<Rightarrow> Inl Thrown
      | JArr xs \<Rightarrow> Inr (map nat_text [0..<length xs]) | JStr s \<Rightarrow> Inr (map nat_text [0..<length s])
      | _ \<Rightarrow> Inr (keys_of v))"

text \<open>A loop over the elements with their index.\<close>

definition eachIndexed :: "(nat \<Rightarrow> 'a \<Rightarrow> 's \<Rightarrow> cexn + 's) \<Rightarrow> 's \<Rightarrow> 'a list \<Rightarrow> cexn + 's" where
  "eachIndexed f st xs = foldR (\<lambda>s (i, x). f i x s) st (enumerate 0 xs)"

text \<open>\<^verbatim>\<open>HEX_OBJECT_ID.test(v)\<close> converts its argument to a string.\<close>

definition hex_object_value :: "jsenv \<Rightarrow> jsval \<Rightarrow> bool" where
  "hex_object_value E v \<longleftrightarrow> hex_object_id (to_text E v)"

definition nonemptyArray :: "jsval \<Rightarrow> cexn + unit" where
  "nonemptyArray v = requireC (is_array v \<and> elements_in v \<noteq> []) ''must be a nonempty array''"

section \<open>The control plane\<close>

definition CONTROL_PROTECTED_EXACT_PATHS :: "string list" where
  "CONTROL_PROTECTED_EXACT_PATHS =
     [''.gitleaksignore'', ''security/supply-chain-policy.json'', ''security/scanners.lock.json'', ''security/osv-scanner.toml'',
      ''security/r016-evidence.schema.json'', ''.github/workflows/ci.yml'', ''.github/workflows/codeql.yml'',
      ''.github/workflows/r016-trusted-pr.yml'']"

definition CONTROL_PROTECTED_PREFIXES :: "string list" where
  "CONTROL_PROTECTED_PREFIXES = [''scripts/fixtures/supply-chain/'', ''scripts/supply-chain/'', ''tools/osvdbcheck/'']"

definition CONTROL_ONLY_INPUT_PATHS :: "string list" where
  "CONTROL_ONLY_INPUT_PATHS = [''go.mod'']"

definition isProtectedControlPath :: "jstring \<Rightarrow> bool" where
  "isProtectedControlPath path \<longleftrightarrow>
     path \<in> set (map js CONTROL_PROTECTED_EXACT_PATHS)
     \<or> list_ex (\<lambda>p. starts_with path (js p)) CONTROL_PROTECTED_PREFIXES"

definition entry_path :: "jsval \<Rightarrow> jstring" where
  "entry_path e = text_of (getp e ''path'')"

definition entryIdentity :: "jsval \<Rightarrow> jsval" where
  "entryIdentity e = JObj (map (\<lambda>k. (js k, getp e k)) [''mode'', ''objectId'', ''path'', ''stage''])"

definition protectedEntries :: "jsenv \<Rightarrow> jsval js_map \<Rightarrow> jsval list" where
  "protectedEntries E index =
     sort_by (\<lambda>a b. js_locale_le E (entry_path a) (entry_path b))
       (map entryIdentity (filter (\<lambda>e. isProtectedControlPath (entry_path e)) (map snd index)))"

definition regularMode :: "jsval \<Rightarrow> bool" where
  "regularMode v \<longleftrightarrow> is_str v ''100644'' \<or> is_str v ''100755''"

definition controlFile :: "jsenv \<Rightarrow> jsval js_map \<Rightarrow> cached_blob js_map \<Rightarrow> jsval \<Rightarrow> cexn + unit" where
  "controlFile E index cache file =
     bindR (needRecord file) (\<lambda>_.
     let path = text_of (getp file ''path''); refused = Inl (Refused ''differs from trusted Git bytes'') in
     case (map_of index path, map_of cache path) of
       (Some entry, Some cached) \<Rightarrow>
         (case cb_bytes cached of
            None \<Rightarrow> refused
          | Some bytes \<Rightarrow>
              bindR (requireC (regularMode (getp entry ''mode'') \<and> is_zero (getp entry ''stage'')
                       \<and> strict_eq (cb_objectId cached) (getp entry ''objectId'')
                       \<and> strict_eq (getp file ''gitObjectId'') (getp entry ''objectId'')
                       \<and> getp file ''sha256'' = JStr (sha256Bytes E bytes)
                       \<and> getp file ''size'' = natValue (length bytes)) ''differs from trusted Git bytes'') (\<lambda>_.
                assertGitBlobObjectId E bytes (getp entry ''objectId'')))
     | _ \<Rightarrow> refused)"

definition validateControlPlaneEvidence :: "jsenv \<Rightarrow> jsval \<Rightarrow> pass_context \<Rightarrow> cexn + unit" where
  "validateControlPlaneEvidence E controlPlane ctx =
     (let files = getp controlPlane ''files''; index = map_entries (px_controlTrackedIndex ctx);
          cache = map_entries (px_controlTrackedBlobCache ctx);
          control = protectedEntries E index; target = protectedEntries E (map_entries (px_trackedIndex ctx));
          parity = ''protected parity is invalid''; inventory = ''file inventory is incomplete or excessive'' in
      bindR (needRecord controlPlane) (\<lambda>_.
      bindR (nonemptyArray files) (\<lambda>_.
      bindR (requireC (control \<noteq> []) parity) (\<lambda>_.
      bindR (if is_str (getp controlPlane ''mode'') ''split-root'' then sameCanonical E (JArr control) (JArr target) parity
             else Inr ()) (\<lambda>_.
      bindR (hashOf E (JArr control)) (\<lambda>h.
      bindR (needSame (getp controlPlane ''protectedParitySha256'') h parity) (\<lambda>_.
      let expectedPaths = sort_by (js_locale_le E) (uniq (map entry_path control @ map js CONTROL_ONLY_INPUT_PATHS)) in
      bindR (mapR (\<lambda>f. accR f ''path'') (elements_in files)) (\<lambda>actualPaths.
      bindR (sameCanonical E (JArr actualPaths) (strings expectedPaths) inventory) (\<lambda>_.
      bindR (sameCanonical E (strings (sort_by (js_locale_le E) (map fst cache))) (strings expectedPaths) inventory) (\<lambda>_.
      bindR (each (controlFile E index cache) (elements_in files)) (\<lambda>_.
      bindR (hashOf E files) (\<lambda>h'.
        needSame (getp controlPlane ''inventorySha256'') h' ''inventory hash is inconsistent''))))))))))))"

section \<open>Configuration\<close>

definition configurationPaths :: "(string \<times> string) list" where
  "configurationPaths =
     [(''policy'', ''security/supply-chain-policy.json''), (''scanners'', ''security/scanners.lock.json''),
      (''osvConfig'', ''security/osv-scanner.toml''), (''evidenceSchema'', ''security/r016-evidence.schema.json'')]"

definition configurationIdentity :: "jsenv \<Rightarrow> jsval \<Rightarrow> string \<times> string \<Rightarrow> cexn + unit" where
  "configurationIdentity E configuration entry =
     (let identity = getp configuration (fst entry) in
      bindR (needRecord identity) (\<lambda>_.
      bindR (requireC (is_str (getp identity ''path'') (snd entry)) ''path is invalid'') (\<lambda>_.
      bindR (validateSha256 E (getp identity ''sha256'')) (\<lambda>_.
        positiveSize (getp identity ''size'')))))"

section \<open>The pnpm inventory\<close>

definition pnpmDocument :: "jsenv \<Rightarrow> nat \<Rightarrow> jsval \<Rightarrow> jnum \<Rightarrow> cexn + jnum" where
  "pnpmDocument E index document packageCount =
     bindR (needRecord document) (\<lambda>_.
     let n = index + 1 in
     bindR (requireC (getp document ''documentNumber'' = natValue n
              \<and> getp document ''source'' = JStr (js ''/scan/pnpm-document-'' @ nat_text n @ js ''/pnpm-lock.yaml''))
              ''document identity is invalid'') (\<lambda>_.
     bindR (requireNonnegativeSafeInteger (getp document ''packageCount'')) (\<lambda>_.
     bindR (validateSha256 E (getp document ''sha256'')) (\<lambda>_.
       Inr (addNumbers packageCount (getp document ''packageCount''))))))"

definition scopeCount :: "jnum \<Rightarrow> jsval \<Rightarrow> cexn + jnum" where
  "scopeCount sm n = bindR (requireNonnegativeSafeInteger n) (\<lambda>_. Inr (addNumbers sm n))"

definition values_in :: "jsval \<Rightarrow> jsval list" where
  "values_in v = (case v of JObj fs \<Rightarrow> map snd fs | _ \<Rightarrow> [])"

definition validatePnpmInputEvidence :: "jsenv \<Rightarrow> jsval \<Rightarrow> jsval \<Rightarrow> cexn + unit" where
  "validatePnpmInputEvidence E pnpm policy =
     (let source = getp pnpm ''source''; documents = getp pnpm ''documents''; scopeCounts = getp pnpm ''scopeCounts'' in
      bindR (assertExactObjectKeys E pnpm
               [''source'', ''documentCount'', ''packageCount'', ''directDependencyCount'', ''scopeCounts'', ''documents'']) (\<lambda>_.
      bindR (needRecord source) (\<lambda>_.
      bindR (requireC (is_str (getp source ''path'') ''pnpm-lock.yaml'') ''pnpm path is invalid'') (\<lambda>_.
      bindR (validateSha256 E (getp source ''sha256'')) (\<lambda>_.
      bindR (positiveSize (getp source ''size'')) (\<lambda>_.
      bindR (accR (getp policy ''pnpm'') ''expectedDocumentCount'') (\<lambda>expectedCount.
      bindR (requireC (strict_eq (getp pnpm ''documentCount'') expectedCount
               \<and> strict_eq (natValue (length (elements_in documents))) (getp pnpm ''documentCount''))
               ''document inventory differs from policy'') (\<lambda>_.
      bindR (eachIndexed (pnpmDocument E) (Fin 0) (elements_in documents)) (\<lambda>packageCount.
      bindR (needSame (getp pnpm ''packageCount'') (JNum packageCount) ''packageCount is inconsistent'') (\<lambda>_.
      bindR (bindR (accR (getp policy ''pnpm'') ''requiredDirectScopes'') arrayR) (\<lambda>scopes.
      bindR (assertExactKeyValues E scopeCounts (scopes @ [JStr (js ''unknown'')])) (\<lambda>_.
      bindR (foldR scopeCount (Fin 0) (values_in scopeCounts)) (\<lambda>direct.
        requireC (is_zero (getp scopeCounts ''unknown'') \<and> strict_eq (getp pnpm ''directDependencyCount'') (JNum direct))
          ''direct dependency scope counts are inconsistent'')))))))))))))"

section \<open>The Go inventory\<close>

text \<open>What tells one module input from the others.\<close>

definition moduleIdentity :: "bool \<Rightarrow> jstring list \<Rightarrow> nat \<Rightarrow> jsval \<Rightarrow> bool" where
  "moduleIdentity controlCanary manifests index mdl \<longleftrightarrow>
     (let manifest = text_of (getp mdl ''manifest'') in
      (if controlCanary then manifest = js ''scripts/fixtures/supply-chain/transitive-go.mod.txt''
       else last_component manifest = js ''go.mod'')
      \<and> manifest \<notin> set manifests
      \<and> getp mdl ''source'' = JStr (js ''/scan/go-module-'' @ nat_text (index + 1) @ js ''/go.mod''))"

definition scannerManifest :: "jsenv \<Rightarrow> jsval \<Rightarrow> cexn + unit" where
  "scannerManifest E m =
     bindR (needRecord m) (\<lambda>_.
     bindR (assertExactObjectKeys E m [''format'', ''sha256'', ''size'']) (\<lambda>_.
     bindR (requireC (is_str (getp m ''format'') ''go-selected-modules-v1'' \<and> is_safe_number (getp m ''size'')
              \<and> 1 \<le> number_of (getp m ''size'') \<and> number_of (getp m ''size'') \<le> 16 * 1024 * 1024)
              ''scanner manifest is invalid'') (\<lambda>_.
       validateSha256 E (getp m ''sha256''))))"

definition goModule :: "jsenv \<Rightarrow> bool \<Rightarrow> nat \<Rightarrow> jsval \<Rightarrow> jstring list \<Rightarrow> cexn + jstring list" where
  "goModule E controlCanary index mdl manifests =
     (let discovered = getp mdl ''discoveredModuleCount''; third = getp mdl ''thirdPartyModuleCount'';
          edit = getp mdl ''editIdentity'' in
      bindR (needRecord mdl) (\<lambda>_.
      bindR (assertExactObjectKeys E mdl
               [''manifest'', ''source'', ''mainModule'', ''discoveredModuleCount'', ''thirdPartyModuleCount'', ''goModSha256'',
                ''goSumSha256'', ''scannerManifest'', ''editIdentity'', ''inventorySha256'']) (\<lambda>_.
      bindR (validateRepositoryPath (getp mdl ''manifest'')) (\<lambda>_.
      bindR (requireC (moduleIdentity controlCanary manifests index mdl) ''Go input identity is invalid'') (\<lambda>_.
      bindR (needNonemptyString (getp mdl ''mainModule'')) (\<lambda>_.
      bindR (requireNonnegativeSafeInteger discovered) (\<lambda>_.
      bindR (requireNonnegativeSafeInteger third) (\<lambda>_.
      bindR (requireC (strict_eq discovered (JNum (to_double (number_of third + 1)))) ''module counts are inconsistent'') (\<lambda>_.
      bindR (validateSha256 E (getp mdl ''goModSha256'')) (\<lambda>_.
      bindR (scannerManifest E (getp mdl ''scannerManifest'')) (\<lambda>_.
      bindR (if getp mdl ''goSumSha256'' = JNull then Inr () else validateSha256 E (getp mdl ''goSumSha256'')) (\<lambda>_.
      bindR (validateSha256 E (getp mdl ''inventorySha256'')) (\<lambda>_.
      bindR (needRecord edit) (\<lambda>_.
      bindR (requireC (strict_eq (getp edit ''modulePath'') (getp mdl ''mainModule'') \<and> is_zero (getp edit ''replaceCount''))
               ''edit identity is inconsistent'') (\<lambda>_.
        Inr (manifests @ [text_of (getp mdl ''manifest'')]))))))))))))))))"

definition validateGoInputEvidence :: "jsenv \<Rightarrow> bool \<Rightarrow> jsval list \<Rightarrow> cexn + unit" where
  "validateGoInputEvidence E controlCanary modules =
     bindR (eachIndexed (goModule E controlCanary) [] modules) (\<lambda>_. Inr ())"

section \<open>Semgrep sources and rules\<close>

text \<open>One source: the paths and the counts of the language groups so far.\<close>

definition semgrepSource ::
  "jsenv \<Rightarrow> jstring list \<times> jstring counts \<Rightarrow> jsval \<Rightarrow> cexn + jstring list \<times> jstring counts" where
  "semgrepSource E st file =
     (case st of (paths, groupCounts) \<Rightarrow>
      bindR (needRecord file) (\<lambda>_.
      bindR (validateRepositoryPath (getp file ''path'')) (\<lambda>_.
      bindR (requireC (text_of (getp file ''path'') \<notin> set paths \<and> hex_object_value E (getp file ''gitObjectId''))
               ''Semgrep source inventory is invalid'') (\<lambda>_.
      bindR (needNonemptyString (getp file ''languageGroup'')) (\<lambda>languageGroup.
      bindR (validateSha256 E (getp file ''sha256'')) (\<lambda>_.
      bindR (requireNonnegativeSafeInteger (getp file ''size'')) (\<lambda>_.
        Inr (paths @ [text_of (getp file ''path'')], bump groupCounts languageGroup))))))))"

definition countsValue :: "jstring counts \<Rightarrow> jsval" where
  "countsValue counts = JObj (map (\<lambda>(g, n). (g, natValue n)) counts)"

definition validateSemgrepSourceEvidence :: "jsenv \<Rightarrow> jsval \<Rightarrow> jsval \<Rightarrow> cexn + unit" where
  "validateSemgrepSourceEvidence E sources requiredLanguageGroups =
     (let files = getp sources ''files''; groupCounts = getp sources ''groupCounts''; inconsistent = ''inventory hash/counts'' in
      bindR (needRecord sources) (\<lambda>_.
      bindR (requireC (is_safe_number (getp sources ''fileCount'')
               \<and> strict_eq (getp sources ''fileCount'') (natValue (length (elements_in files)))) ''fileCount is inconsistent'') (\<lambda>_.
      bindR (needRecord groupCounts) (\<lambda>_.
      bindR (objectKeysR requiredLanguageGroups) (\<lambda>groups.
      bindR (assertExactKeyValues E groupCounts (map JStr groups)) (\<lambda>_.
      bindR (foldR (semgrepSource E) ([], []) (elements_in files)) (\<lambda>(paths, counts).
      bindR (sameCanonical E (countsValue counts) groupCounts inconsistent) (\<lambda>_.
      bindR (hashOf E files) (\<lambda>h.
      bindR (needSame (getp sources ''inventorySha256'') h inconsistent) (\<lambda>_.
        each (\<lambda>n. requireC (is_safe_number n \<and> \<not> is_negative n \<and> \<not> is_zero n) ''no coverage'')
          (values_in groupCounts)))))))))))"

text \<open>The locked digest of a path; a later entry of a \<^verbatim>\<open>Map\<close> replaces an earlier one.\<close>

definition lockedRules :: "jsval list \<Rightarrow> cexn + (jsval \<times> jsval) list" where
  "lockedRules files = mapR (\<lambda>f. bindR (accR f ''path'') (\<lambda>p. Inr (p, getp f ''sha256''))) files"

definition map_value_get :: "(jsval \<times> jsval) list \<Rightarrow> jsval \<Rightarrow> jsval" where
  "map_value_get m k = (case find (\<lambda>e. same_value (fst e) k) (rev m) of None \<Rightarrow> JUndef | Some e \<Rightarrow> snd e)"

definition semgrepRule :: "jsenv \<Rightarrow> (jsval \<times> jsval) list \<Rightarrow> jstring list \<Rightarrow> jsval \<Rightarrow> cexn + jstring list" where
  "semgrepRule E expected seen file =
     bindR (needRecord file) (\<lambda>_.
     bindR (validateRepositoryPath (getp file ''path'')) (\<lambda>_.
     bindR (validateSha256 E (getp file ''sha256'')) (\<lambda>_.
     bindR (requireNonnegativeSafeInteger (getp file ''size'')) (\<lambda>_.
     bindR (requireC (text_of (getp file ''path'') \<notin> set seen
              \<and> strict_eq (map_value_get expected (getp file ''path'')) (getp file ''sha256'')
              \<and> \<not> is_zero (getp file ''size'')) ''rule inventory differs from the scanner lock'') (\<lambda>_.
       Inr (seen @ [text_of (getp file ''path'')]))))))"

definition validateSemgrepRuleEvidence :: "jsenv \<Rightarrow> jsval \<Rightarrow> jsval \<Rightarrow> cexn + unit" where
  "validateSemgrepRuleEvidence E rules lock =
     (let files = getp rules ''files''; identity = ''rule identity differs from the scanner lock'' in
      bindR (needRecord rules) (\<lambda>_.
      bindR (needRecord lock) (\<lambda>_.
      bindR (requireC (list_all (\<lambda>k. strict_eq (getp rules k) (getp lock k)) [''repository'', ''commit'', ''tree'']) identity) (\<lambda>_.
      bindR (sameCanonical E (getp rules ''license'') (getp lock ''license'') identity) (\<lambda>_.
      bindR (arrayR (getp lock ''files'')) (\<lambda>locked.
      bindR (lockedRules (locked @ [getp lock ''license''])) (\<lambda>expected.
      bindR (requireC (length (elements_in files) = length (set_of_values (map fst expected))) ''rule inventory is incomplete'') (\<lambda>_.
      bindR (foldR (semgrepRule E expected) [] (elements_in files)) (\<lambda>_.
      bindR (hashOf E files) (\<lambda>h.
        needSame (getp rules ''manifestSha256'') h ''rule manifest hash is inconsistent''))))))))))"

section \<open>All inputs\<close>

definition validatePassInputs :: "jsenv \<Rightarrow> jsval \<Rightarrow> pass_context \<Rightarrow> jsval \<Rightarrow> cexn + unit" where
  "validatePassInputs E inputs ctx githubActions =
     (let context = px_values ctx; configuration = getp inputs ''configuration''; trustedConfiguration = getp context ''configuration'';
          pnpm = getp inputs ''pnpm''; go = getp inputs ''go''; sources = getp inputs ''semgrepSources'';
          rules = getp inputs ''semgrepRules''; use = getp context ''repositoryUseSeal'' in
      bindR (validateControlPlaneEvidence E (getp inputs ''controlPlane'') ctx) (\<lambda>_.
      bindR (needRecord configuration) (\<lambda>_.
      bindR (assertExactObjectKeys E configuration (map fst configurationPaths)) (\<lambda>_.
      bindR (each (configurationIdentity E configuration) configurationPaths) (\<lambda>_.
      bindR (sameCanonical E configuration (getp context ''configurationInputs'') ''configuration input identities differ'') (\<lambda>_.
      bindR (accsR trustedConfiguration [''scanners'', ''semgrepRules'', ''useBoundary'']) (\<lambda>boundary.
      bindR (validateRepositoryUseContext E (getp inputs ''repositoryUse'') boundary githubActions) (\<lambda>_.
      bindR (if use = JUndef then Inr () else sameCanonical E (getp inputs ''repositoryUse'') use ''repository use differs'') (\<lambda>_.
      bindR (needRecord pnpm) (\<lambda>_.
      bindR (nonemptyArray go) (\<lambda>_.
      bindR (needRecord sources) (\<lambda>_.
      bindR (needRecord rules) (\<lambda>_.
      bindR (each nonemptyArray [getp pnpm ''documents'', getp sources ''files'', getp rules ''files'']) (\<lambda>_.
      bindR (validatePnpmInputEvidence E pnpm (getp trustedConfiguration ''policy'')) (\<lambda>_.
      bindR (validateGoInputEvidence E False (elements_in go)) (\<lambda>_.
      bindR (accsR trustedConfiguration [''policy'', ''sast'', ''requiredLanguageGroups'']) (\<lambda>groups.
      bindR (validateSemgrepSourceEvidence E sources groups) (\<lambda>_.
      bindR (accsR trustedConfiguration [''scanners'', ''semgrepRules'']) (\<lambda>lock.
        validateSemgrepRuleEvidence E rules lock)))))))))))))))))))"

end
