(* ===== verification/Evidence_Tools.thy ===== *)
theory Evidence_Tools
  imports Evidence_Inputs
begin

text \<open>
  The tools and advisory databases of a passing evidence document
  (\<^verbatim>\<open>src/scripts/supply-chain/contracts.mjs\<close>): locked images and their trusted executions, image indexes,
  database identities, the archive report and the database seal.
\<close>

section \<open>Tools\<close>

definition digest_text :: "jstring \<Rightarrow> bool" where
  "digest_text s \<longleftrightarrow> starts_with s (js ''sha256:'') \<and> sha256_text (drop 7 s)"

definition runtimeUserName :: "jsenv \<Rightarrow> jstring \<Rightarrow> jstring" where
  "runtimeUserName E s = hd (split_on 58 (js_lower E (trim s)))"

definition validateEvidenceTool :: "jsenv \<Rightarrow> jsval \<Rightarrow> string \<Rightarrow> jsval \<Rightarrow> cexn + unit" where
  "validateEvidenceTool E tool name configuration =
     bindR (needRecord tool) (\<lambda>_.
     bindR (needNonemptyString (getp tool ''image'')) (\<lambda>image.
     bindR (each (\<lambda>k. requireC (digest_text (to_text E (getp tool k))) ''digest is invalid'')
              [''indexDigest'', ''linuxAmd64Digest'']) (\<lambda>_.
     bindR (requireC (ends_with image (js ''@'' @ to_text E (getp tool ''indexDigest''))) ''image is not digest pinned'') (\<lambda>_.
     bindR (needNonemptyString (getp tool ''runtimeVersion'')) (\<lambda>_.
     bindR (needNonemptyString (getp tool ''runtimeUser'')) (\<lambda>user.
     bindR (requireC (runtimeUserName E user \<noteq> js ''0'' \<and> runtimeUserName E user \<noteq> js ''root'') ''must be non-root'') (\<lambda>_.
     bindR (if name = ''semgrep-ce''
            then each (\<lambda>k. bindR (needNonemptyString (getp tool k)) (\<lambda>_. Inr ())) [''sourceRepository'', ''sourceRevision'']
            else Inr ()) (\<lambda>_.
     bindR (bindR (accR configuration ''scanners'') (\<lambda>scanners. evidenceToolLock scanners name)) (\<lambda>lock.
     bindR (each (\<lambda>(k, k'). needSame (getp tool k) (getp lock k') ''differs from the scanner lock'')
              [(''image'', ''image''), (''indexDigest'', ''indexDigest''), (''linuxAmd64Digest'', ''linuxAmd64Digest''),
               (''runtimeVersion'', ''version'')]) (\<lambda>_.
       if name = ''semgrep-ce''
       then each (\<lambda>(k, k'). needSame (getp tool k) (getp lock k') ''source labels differ'')
              [(''sourceRepository'', ''imageSourceRepository''), (''sourceRevision'', ''imageSourceRevision'')]
       else Inr ()))))))))))"

section \<open>Image indexes\<close>

definition IMAGE_INDEX_MEDIA_TYPES :: "(string \<times> string) list" where
  "IMAGE_INDEX_MEDIA_TYPES =
     [(''application/vnd.docker.distribution.manifest.list.v2+json'', ''application/vnd.docker.distribution.manifest.v2+json''),
      (''application/vnd.oci.image.index.v1+json'', ''application/vnd.oci.image.manifest.v1+json'')]"

text \<open>One descriptor: the concrete platforms and the descriptors for linux/amd64 so far.\<close>

definition imageDescriptor ::
  "jsenv \<Rightarrow> string \<Rightarrow> jstring list \<times> jsval list \<Rightarrow> jsval \<Rightarrow> cexn + jstring list \<times> jsval list" where
  "imageDescriptor E childMediaType st descriptor =
     (case st of (concretePlatforms, linuxAmd64) \<Rightarrow>
      let size = getp descriptor ''size''; platform = getp descriptor ''platform''; variant = getp platform ''variant'' in
      bindR (needRecord descriptor) (\<lambda>_.
      bindR (requireC (is_str (getp descriptor ''mediaType'') childMediaType) ''not a direct image manifest'') (\<lambda>_.
      bindR (requireC (digest_text (to_text E (getp descriptor ''digest''))) ''digest is invalid'') (\<lambda>_.
      bindR (requireC (is_safe_number size \<and> 0 < number_of size) ''size is invalid'') (\<lambda>_.
      bindR (needRecord platform) (\<lambda>_.
      bindR (needNonemptyString (getp platform ''architecture'')) (\<lambda>architecture.
      bindR (needNonemptyString (getp platform ''os'')) (\<lambda>os.
      bindR (if variant = JUndef then Inr () else bindR (needNonemptyString variant) (\<lambda>_. Inr ())) (\<lambda>_.
      bindR (if os = js ''unknown'' \<and> architecture = js ''unknown'' \<and> variant = JUndef then Inr concretePlatforms
             else bindR (canonR E (JArr [JStr os, JStr architecture, coalesce variant JNull])) (\<lambda>platformKey.
                  bindR (requireC (platformKey \<notin> set concretePlatforms) ''duplicate concrete platform'') (\<lambda>_.
                    Inr (concretePlatforms @ [platformKey])))) (\<lambda>platforms.
        Inr (platforms, if os = js ''linux'' \<and> architecture = js ''amd64'' then linuxAmd64 @ [descriptor] else linuxAmd64)))))))))))"

definition validateTrustedImageIndex :: "jsenv \<Rightarrow> jsval \<Rightarrow> jsval \<Rightarrow> cexn + unit" where
  "validateTrustedImageIndex E document tool =
     bindR (needRecord document) (\<lambda>_.
     bindR (requireC (getp document ''schemaVersion'' = JNum (Fin 2)) ''schemaVersion must be exactly 2'') (\<lambda>_.
     case map_of (map (\<lambda>(k, v). (js k, v)) IMAGE_INDEX_MEDIA_TYPES) (to_text E (getp document ''mediaType'')) of
       None \<Rightarrow> Inl (Refused ''mediaType is invalid'')
     | Some childMediaType \<Rightarrow>
         bindR (requireC (is_array (getp document ''manifests'')) ''manifests must be an array'') (\<lambda>_.
         bindR (foldR (imageDescriptor E childMediaType) ([], []) (elements_in (getp document ''manifests''))) (\<lambda>(platforms, linuxAmd64).
           requireC (case linuxAmd64 of [d] \<Rightarrow> strict_eq (getp d ''digest'') (getp tool ''linuxAmd64Digest'') | _ \<Rightarrow> False)
             ''linux/amd64 manifest differs from the scanner lock''))))"

section \<open>Trusted executions\<close>

definition find_artifact :: "jsval \<Rightarrow> string \<Rightarrow> jsval list \<Rightarrow> jsval option" where
  "find_artifact pid stream artifacts =
     find (\<lambda>a. strict_eq (getp a ''processId'') pid \<and> is_str (getp a ''stream'') stream) artifacts"

definition sealedStream :: "jstring \<Rightarrow> jsval \<Rightarrow> jsval list \<Rightarrow> string \<times> string \<times> string \<times> string \<Rightarrow> cexn + unit" where
  "sealedStream processPrefix seal artifacts entry =
     (case entry of (suffix, stream, shaField, sizeField) \<Rightarrow>
        requireC (case find_artifact (JStr (processPrefix @ js ''-'' @ js suffix)) stream artifacts of
            None \<Rightarrow> False
          | Some a \<Rightarrow> getp a ''redacted'' = JBool False \<and> strict_eq (getp a ''rawSha256'') (getp seal shaField)
                      \<and> strict_eq (getp a ''rawSize'') (getp seal sizeField)) ''differs from trusted execution'')"

definition endsWithR :: "jstring \<Rightarrow> jsval \<Rightarrow> cexn + bool" where
  "endsWithR suffix v = (case v of JStr s \<Rightarrow> Inr (ends_with s suffix) | _ \<Rightarrow> Inl Thrown)"

definition validateToolExecutionEvidence :: "jsenv \<Rightarrow> jsval \<Rightarrow> string \<Rightarrow> jsval \<Rightarrow> jsval \<Rightarrow> cexn + unit" where
  "validateToolExecutionEvidence E tool name ev seal =
     (let inspection = getp seal ''inspection''; image = hd (elements_in inspection); config = getp image ''Config'';
          labels = getp config ''Labels''; differs = ''differs from its trusted execution'' in
      bindR (needRecord seal) (\<lambda>_.
      bindR (requireC (length (elements_in inspection) = 1) ''image inspection is invalid'') (\<lambda>_.
      bindR (validateTrustedImageIndex E (getp seal ''indexDocument'') tool) (\<lambda>_.
      bindR (requireC (is_str (getp image ''Architecture'') ''amd64'' \<and> is_str (getp image ''Os'') ''linux''
               \<and> is_array (getp image ''RepoDigests'')) differs) (\<lambda>_.
      bindR (someR (endsWithR (js ''@'' @ to_text E (getp tool ''indexDigest''))) (elements_in (getp image ''RepoDigests''))) (\<lambda>pinned.
      bindR (requireC pinned differs) (\<lambda>_.
      bindR (hashOf E inspection) (\<lambda>h.
      bindR (needSame (getp tool ''inspectionSha256'') h differs) (\<lambda>_.
      bindR (hashOf E (getp seal ''indexDocument'')) (\<lambda>h'.
      bindR (needSame (getp tool ''indexDocumentSha256'') h' differs) (\<lambda>_.
      bindR (requireC (strict_eq (getp tool ''runtimeUser'')
                  (if name = ''semgrep-ce'' then getp config ''User'' else JStr (js ''65534:65534''))
               \<and> strict_eq (getp tool ''sourceRepository'') (coalesce (getp labels ''org.opencontainers.image.source'') JNull)
               \<and> strict_eq (getp tool ''sourceRevision'') (coalesce (getp labels ''org.opencontainers.image.revision'') JNull))
               differs) (\<lambda>_.
        each (sealedStream (js ''PROCESS-'' @ js_upper E (js name)) seal (elements_in (getp ev ''rawArtifacts'')))
          [(''INSPECT'', ''stdout'', ''inspectionStdoutSha256'', ''inspectionStdoutSize''),
           (''INDEX'', ''stdout'', ''indexStdoutSha256'', ''indexStdoutSize''),
           (''VERSION'', ''stdout'', ''versionStdoutSha256'', ''versionStdoutSize''),
           (''VERSION'', ''stderr'', ''versionStderrSha256'', ''versionStderrSize'')]))))))))))))"

section \<open>Advisory databases\<close>

text \<open>The locked file and URL of an ecosystem; a later entry of the lock replaces an earlier one.\<close>

definition lockedDatabases :: "jsenv \<Rightarrow> jsval list \<Rightarrow> cexn + (jstring \<times> jsval \<times> jsval) list" where
  "lockedDatabases E lock =
     mapR (\<lambda>d. bindR (accR d ''ecosystem'') (\<lambda>e. Inr (to_text E e, getp d ''cachePath'', getp d ''url''))) lock"

definition nonemptyText :: "jsval \<Rightarrow> bool" where
  "nonemptyText v \<longleftrightarrow> (case v of JStr s \<Rightarrow> s \<noteq> [] | _ \<Rightarrow> False)"

definition isoText :: "jsenv \<Rightarrow> jsval \<Rightarrow> bool" where
  "isoText E v \<longleftrightarrow> (case v of JStr s \<Rightarrow> is_finite (js_date_parse E s) \<and> js_iso E (js_date_parse E s) = s | _ \<Rightarrow> False)"

definition md5_text :: "jstring \<Rightarrow> bool" where
  "md5_text s \<longleftrightarrow> length s = 32 \<and> list_all is_lower_hex s"

definition databaseIdentity :: "jsenv \<Rightarrow> jsval \<Rightarrow> jsval \<Rightarrow> jsval \<Rightarrow> bool" where
  "databaseIdentity E eco lockedFile identity \<longleftrightarrow>
     strict_eq (getp identity ''ecosystem'') eco \<and> strict_eq (getp identity ''file'') lockedFile
     \<and> is_safe_number (getp identity ''contentLength'') \<and> 0 < number_of (getp identity ''contentLength'')
     \<and> nonemptyText (getp identity ''etag'') \<and> nonemptyText (getp identity ''generation'')
     \<and> md5_text (to_text E (getp identity ''md5'')) \<and> sha256_text (to_text E (getp identity ''sha256''))"

definition evidenceDatabase ::
  "jsenv \<Rightarrow> jsval list \<Rightarrow> (jstring \<times> jsval \<times> jsval) list \<Rightarrow> nat \<Rightarrow> jsval \<Rightarrow> jstring list \<Rightarrow> cexn + jstring list" where
  "evidenceDatabase E lock expected index database seen =
     (let eco = getp database ''ecosystem''; identity = getp database ''identity'';
          orderedLock = (if index < length lock then getp (lock ! index) ''ecosystem'' else JUndef);
          key = to_text E eco; invalid = ''database ecosystems are invalid'' in
      bindR (needRecord database) (\<lambda>_.
      bindR (needSame eco orderedLock ''database order differs from the scanner lock'') (\<lambda>_.
      case map_of (rev expected) key of
        None \<Rightarrow> Inl (Refused invalid)
      | Some (lockedFile, url) \<Rightarrow>
          bindR (requireC (key \<notin> set seen) invalid) (\<lambda>_.
          bindR (needSame (getp database ''url'') url ''URL is invalid'') (\<lambda>_.
          bindR (needRecord (getp database ''headers'')) (\<lambda>_.
          bindR (requireC (keys_of (getp database ''headers'') \<noteq> []) ''headers are empty'') (\<lambda>_.
          bindR (needRecord identity) (\<lambda>_.
          bindR (requireC (databaseIdentity E eco lockedFile identity) ''identity is invalid'') (\<lambda>_.
          bindR (requireC (isoText E (getp identity ''lastModified'')) ''lastModified is invalid'') (\<lambda>_.
          bindR (validateSha256 E (getp database ''identitySha256'')) (\<lambda>_.
          bindR (hashOf E identity) (\<lambda>h.
          bindR (needSame (getp database ''identitySha256'') h ''identity hash is inconsistent'') (\<lambda>_.
            Inr (seen @ [key])))))))))))))) "

definition validateEvidenceDatabases :: "jsenv \<Rightarrow> jsval \<Rightarrow> jsval \<Rightarrow> cexn + unit" where
  "validateEvidenceDatabases E databases configuration =
     bindR (requireC (is_array databases \<and> length (elements_in databases) = 2) ''must contain exactly two databases'') (\<lambda>_.
     bindR (bindR (accsR configuration [''scanners'', ''advisoryDatabases'']) arrayR) (\<lambda>lock.
     bindR (lockedDatabases E lock) (\<lambda>expected.
     bindR (eachIndexed (evidenceDatabase E lock expected) [] (elements_in databases)) (\<lambda>seen.
       requireC (length seen = 2) ''database ecosystems are incomplete''))))"

section \<open>The archive report\<close>

definition DATABASE_VALIDATION_LIMITS :: jsval where
  "DATABASE_VALIDATION_LIMITS =
     JObj [(js ''max_entries'', JNum (Fin 300000)), (js ''max_entry_path_bytes'', JNum (Fin 4096)),
           (js ''max_entry_uncompressed_bytes'', JNum (Fin 134217728)),
           (js ''max_archive_uncompressed_bytes'', JNum (Fin 8589934592))]"

definition boundedPositive :: "jsval \<Rightarrow> jsval \<Rightarrow> bool" where
  "boundedPositive v limit \<longleftrightarrow> is_safe_number v \<and> 0 < number_of v \<and> number_of v \<le> number_of limit"

definition databaseArchive :: "jsenv \<Rightarrow> jsval \<Rightarrow> nat \<Rightarrow> jsval \<Rightarrow> unit \<Rightarrow> cexn + unit" where
  "databaseArchive E limits index archive u =
     bindR (needRecord archive) (\<lambda>_.
     bindR (requireC (getp archive ''argument_index'' = natValue index
              \<and> boundedPositive (getp archive ''entry_count'') (getp limits ''max_entries'')
              \<and> boundedPositive (getp archive ''uncompressed_bytes'') (getp limits ''max_archive_uncompressed_bytes''))
              ''database archive is invalid'') (\<lambda>_.
       validateSha256 E (getp archive ''manifest_sha256'')))"

definition validatorSource :: "jsenv \<Rightarrow> jstring list \<Rightarrow> jsval \<Rightarrow> cexn + jstring list" where
  "validatorSource E sourcePaths source =
     bindR (needRecord source) (\<lambda>_.
     bindR (validateRepositoryPath (getp source ''path'')) (\<lambda>_.
     bindR (requireC (text_of (getp source ''path'') \<notin> set sourcePaths \<and> hex_object_value E (getp source ''gitObjectId''))
              ''validator sources are invalid'') (\<lambda>_.
     bindR (validateSha256 E (getp source ''sha256'')) (\<lambda>_.
     bindR (requireNonnegativeSafeInteger (getp source ''size'')) (\<lambda>_.
       Inr (sourcePaths @ [text_of (getp source ''path'')]))))))"

definition projectFields :: "string list \<Rightarrow> jsval \<Rightarrow> jsval" where
  "projectFields ks v = JObj (map (\<lambda>k. (js k, getp v k)) ks)"

definition rawReport :: "jsval \<Rightarrow> jsval" where
  "rawReport report =
     JObj [(js ''schema_version'', getp report ''schema_version''),
           (js ''limits'', projectFields [''max_entries'', ''max_entry_path_bytes'', ''max_entry_uncompressed_bytes'',
                                        ''max_archive_uncompressed_bytes''] (getp report ''limits'')),
           (js ''archives'', JArr (map (projectFields [''argument_index'', ''entry_count'', ''uncompressed_bytes'', ''manifest_sha256''])
                                     (elements_in (getp report ''archives''))))]"

definition check_named :: "jsval \<Rightarrow> string \<Rightarrow> jsval" where
  "check_named ev name =
     (case find (\<lambda>c. is_str (getp c ''id'') name) (elements_in (getp ev ''checks'')) of None \<Rightarrow> JUndef | Some c \<Rightarrow> c)"

definition reportOutput :: "jsenv \<Rightarrow> jsval \<Rightarrow> jsval \<Rightarrow> bool" where
  "reportOutput E report ev \<longleftrightarrow>
     (let process = check_named ev ''PROCESS-OSV-DATABASE-ZIP-VALIDATION''; terminal = check_named ev ''R016-DB-ZIP'';
          artifacts = elements_in (getp ev ''rawArtifacts'') in
      is_zero (getp process ''rawExit'') \<and> is_zero (getp terminal ''rawExit'')
      \<and> getp terminal ''archiveCount'' = natValue (length (elements_in (getp report ''archives'')))
      \<and> (case (stringify E (rawReport report), find_artifact (getp process ''id'') ''stdout'' artifacts,
                find_artifact (getp process ''id'') ''stderr'' artifacts) of
           (Some text, Some stdout, Some stderr) \<Rightarrow>
             getp stdout ''redacted'' = JBool False \<and> getp stdout ''sha256'' = JStr (sha256Hex E (text @ [10]))
             \<and> getp stdout ''size'' = byteLength (text @ [10])
             \<and> getp stderr ''redacted'' = JBool False \<and> getp stderr ''sha256'' = JStr (sha256Hex E [])
             \<and> is_zero (getp stderr ''size'')
         | _ \<Rightarrow> False))"

definition validateDatabaseArchiveEvidence :: "jsenv \<Rightarrow> jsval \<Rightarrow> jsval \<Rightarrow> jsval \<Rightarrow> cexn + unit" where
  "validateDatabaseArchiveEvidence E report ev configuration =
     (let archives = getp report ''archives''; sources = getp report ''validatorSources''; files = getp sources ''files'';
          incomplete = ''archive report is incomplete'' in
      bindR (needRecord report) (\<lambda>_.
      bindR (requireC (getp report ''schema_version'' = JNum (Fin 1) \<and> is_array archives
               \<and> length (elements_in archives) = length (elements_in (getp ev ''advisoryDatabases''))) incomplete) (\<lambda>_.
      bindR (bindR (accsR configuration [''scanners'', ''advisoryDatabases'']) arrayR) (\<lambda>lock.
      bindR (requireC (length (elements_in archives) = length lock) incomplete) (\<lambda>_.
      bindR (sameCanonical E (getp report ''limits'') DATABASE_VALIDATION_LIMITS incomplete) (\<lambda>_.
      bindR (eachIndexed (databaseArchive E (getp report ''limits'')) () (elements_in archives)) (\<lambda>_.
      bindR (needRecord sources) (\<lambda>_.
      bindR (nonemptyArray files) (\<lambda>_.
      bindR (foldR (validatorSource E) [] (elements_in files)) (\<lambda>sourcePaths.
      bindR (requireC (js ''go.mod'' \<in> set sourcePaths \<and> js ''tools/osvdbcheck/cmd/osvdbcheck/main.go'' \<in> set sourcePaths)
               ''validator sources are incomplete'') (\<lambda>_.
      bindR (validateSha256 E (getp sources ''inventorySha256'')) (\<lambda>_.
      bindR (hashOf E files) (\<lambda>h.
      bindR (needSame (getp sources ''inventorySha256'') h ''validator inventory hash is inconsistent'') (\<lambda>_.
        requireC (reportOutput E report ev) ''archive report does not match exact process output''))))))))))))))"

section \<open>The database seal\<close>

definition databaseSeal :: "jsval \<Rightarrow> jsval" where
  "databaseSeal ev =
     JObj [(js ''schemaVersion'', JNum (Fin 1)), (js ''gateId'', JStr (js ''R-016'')), (js ''runId'', getp ev ''runId''),
           (js ''source'', getp ev ''source''), (js ''controlSource'', getp ev ''controlSource''),
           (js ''databases'', getp ev ''advisoryDatabases'')]"

definition validateDatabaseSealEvidence :: "jsenv \<Rightarrow> jsval \<Rightarrow> jsval \<Rightarrow> cexn + unit" where
  "validateDatabaseSealEvidence E seal ev =
     bindR (needRecord seal) (\<lambda>_.
     bindR (requireC (is_str (getp seal ''path'') ''db-seal.json'') ''databaseSeal.path is invalid'') (\<lambda>_.
     bindR (validateSha256 E (getp seal ''sha256'')) (\<lambda>_.
     bindR (canonR E (databaseSeal ev)) (\<lambda>t.
       needSame (getp seal ''sha256'') (JStr (sha256Hex E (t @ [10]))) ''does not bind exact database identities''))))"

end
