(* ===== verification/Evidence_Processes.thy ===== *)
theory Evidence_Processes
  imports Evidence_Tools
begin

text \<open>
  The process checks of a passing evidence document (\<^verbatim>\<open>validateRequiredProcessChecks\<close> and what it calls
  in \<^verbatim>\<open>src/scripts/supply-chain/contracts.mjs\<close>): the recorded git commands of the source and the control
  source, the blobs read from git, the cleanup of containers and the inventory of processes.
\<close>

section \<open>Recorded checks\<close>

text \<open>\<^verbatim>\<open>new Map(processChecks.map((check) => [check.id, check]))\<close>; identifiers are different.\<close>

definition processByIdFrom :: "jsval list \<Rightarrow> jsval js_map" where
  "processByIdFrom processChecks = map (\<lambda>c. (text_of (getp c ''id''), c)) processChecks"

definition lookup_check :: "jsval js_map \<Rightarrow> jstring \<Rightarrow> jsval" where
  "lookup_check m k = (case map_of m k of None \<Rightarrow> JUndef | Some c \<Rightarrow> c)"

definition arguments_of :: "jsval \<Rightarrow> jsval list" where
  "arguments_of check = elements_in (getp check ''arguments'')"

definition argument_at :: "jsval \<Rightarrow> nat \<Rightarrow> jsval" where
  "argument_at check i = (if i < length (arguments_of check) then arguments_of check ! i else JUndef)"

definition process_of :: "jsval \<Rightarrow> process_check" where
  "process_of check = \<lparr>pc_id = text_of (getp check ''id''), pc_command = text_of (getp check ''command''),
     pc_arguments = map text_of (arguments_of check)\<rparr>"

definition roots_of :: "pass_context \<Rightarrow> trusted_roots" where
  "roots_of ctx = \<lparr>tr_root = context_text ctx ''root'', tr_controlRoot = context_text ctx ''controlRoot'',
     tr_temporaryRoot = context_text ctx ''temporaryRoot'', tr_configuration = getp (px_values ctx) ''configuration''\<rparr>"

section \<open>The git commands of a source\<close>

text \<open>The commands of the target have the prefix \<^verbatim>\<open>PROCESS-GIT-\<close>, those of a separate control source
  \<^verbatim>\<open>PROCESS-GIT-CONTROL-\<close>.\<close>

definition gitCommands :: "(string \<times> string list) list" where
  "gitCommands =
     [(''TOP-LEVEL'', [''rev-parse'', ''--show-toplevel'']), (''DIRECTORY'', [''rev-parse'', ''--absolute-git-dir'']),
      (''HEAD'', [''rev-parse'', ''HEAD'']), (''TREE'', [''rev-parse'', ''HEAD^{tree}'']),
      (''BRANCH'', [''branch'', ''--show-current'']), (''STATUS'', [''status'', ''--porcelain=v1'', ''--untracked-files=all'']),
      (''INDEX'', [''ls-files'', ''--stage'', ''-z'']), (''INDEX-FLAGS'', [''ls-files'', ''-v'', ''-z'']),
      (''TOP-LEVEL-FINAL'', [''rev-parse'', ''--show-toplevel'']), (''DIRECTORY-FINAL'', [''rev-parse'', ''--absolute-git-dir'']),
      (''HEAD-FINAL'', [''rev-parse'', ''HEAD'']), (''TREE-FINAL'', [''rev-parse'', ''HEAD^{tree}'']),
      (''STATUS-FINAL'', [''status'', ''--porcelain=v1'', ''--untracked-files=all'']),
      (''INDEX-FINAL'', [''ls-files'', ''--stage'', ''-z'']), (''INDEX-FLAGS-FINAL'', [''ls-files'', ''-v'', ''-z''])]"

definition gitCommand :: "jsenv \<Rightarrow> string \<Rightarrow> jstring \<Rightarrow> jsval js_map \<Rightarrow> string \<times> string list \<Rightarrow> cexn + unit" where
  "gitCommand E prefix gitRoot processById entry =
     sameCanonical E (getp (lookup_check processById (js prefix @ js (fst entry))) ''arguments'')
       (JArr (texts [''-C''] @ [JStr gitRoot] @ texts (snd entry))) ''source process is invalid''"

text \<open>\<^verbatim>\<open>mode objectId stage TAB path NUL\<close> for every tracked entry, and \<^verbatim>\<open>H path NUL\<close>.\<close>

definition indexOutput :: "jsenv \<Rightarrow> jsval list \<Rightarrow> jstring" where
  "indexOutput E entries =
     concat (map (\<lambda>e. to_text E (getp e ''mode'') @ [32] @ to_text E (getp e ''objectId'') @ [32] @ to_text E (getp e ''stage'')
                     @ [9] @ to_text E (getp e ''path'') @ [0]) entries)"

definition flagsOutput :: "jsenv \<Rightarrow> jsval list \<Rightarrow> jstring" where
  "flagsOutput E entries = concat (map (\<lambda>e. js ''H '' @ to_text E (getp e ''path'') @ [0]) entries)"

definition gitOutputs :: "jsenv \<Rightarrow> jsval \<Rightarrow> jsval list \<Rightarrow> (string \<times> jstring) list" where
  "gitOutputs E source entries =
     (let line = (\<lambda>v. to_text E v @ [10]); head = line (getp source ''head''); tree = line (getp source ''tree'') in
      [(''HEAD'', head), (''HEAD-FINAL'', head), (''TREE'', tree), (''TREE-FINAL'', tree),
       (''BRANCH'', if is_str (getp source ''branch'') ''DETACHED'' then [] else line (getp source ''branch'')),
       (''STATUS'', []), (''STATUS-FINAL'', []),
       (''INDEX'', indexOutput E entries), (''INDEX-FINAL'', indexOutput E entries),
       (''INDEX-FLAGS'', flagsOutput E entries), (''INDEX-FLAGS-FINAL'', flagsOutput E entries)])"

definition gitStdout ::
  "jsenv \<Rightarrow> string \<Rightarrow> jsval js_map \<Rightarrow> jsval list \<Rightarrow> string \<times> jstring \<Rightarrow> cexn + unit" where
  "gitStdout E prefix processById artifacts entry =
     validateUnredactedProcessStdout E (getp (lookup_check processById (js prefix @ js (fst entry))) ''id'') (snd entry) artifacts"

text \<open>A path, also with slashes in place of backslashes.\<close>

definition gitPath ::
  "jsenv \<Rightarrow> jstring \<Rightarrow> string \<Rightarrow> jsval js_map \<Rightarrow> jsval list \<Rightarrow> string \<times> jsval \<Rightarrow> cexn + unit" where
  "gitPath E cwd prefix processById artifacts entry =
     (case snd entry of
        JStr s \<Rightarrow>
          let p = resolve_path cwd s in
          validateUnredactedProcessStdoutVariants E
            (getp (lookup_check processById (js prefix @ js (fst entry))) ''id'')
            [p @ [10], map (\<lambda>c. if c = 92 then 47 else c) p @ [10]] artifacts
      | _ \<Rightarrow> Inl Thrown)"

definition gitPaths :: "jsval \<Rightarrow> jsval \<Rightarrow> (string \<times> jsval) list" where
  "gitPaths gitRoot directory =
     [(''TOP-LEVEL'', gitRoot), (''TOP-LEVEL-FINAL'', gitRoot), (''DIRECTORY'', directory), (''DIRECTORY-FINAL'', directory)]"

definition indexInventory :: "jsenv \<Rightarrow> jsval \<Rightarrow> jsval list \<Rightarrow> string \<Rightarrow> cexn + unit" where
  "indexInventory E source entries m =
     bindR (requireC (strict_eq (getp source ''trackedFileCount'') (natValue (length entries))) m) (\<lambda>_.
     bindR (hashOf E (JArr entries)) (\<lambda>h. needSame (getp source ''trackedIndexSha256'') h m))"

definition validateSourceProcessSemantics ::
  "jsenv \<Rightarrow> jstring \<Rightarrow> jsval js_map \<Rightarrow> jsval \<Rightarrow> pass_context \<Rightarrow> cexn + unit" where
  "validateSourceProcessSemantics E cwd processById ev ctx =
     (let source = getp ev ''source''; entries = map snd (map_entries (px_trackedIndex ctx));
          artifacts = elements_in (getp ev ''rawArtifacts''); expected = getp source ''expectedCheckoutSha''; prefix = ''PROCESS-GIT-'';
          splitRoot = is_str (getp (getp (getp ev ''inputs'') ''controlPlane'') ''mode'') ''split-root'' in
      bindR (indexInventory E source entries ''source inventory differs from the trusted Git index'') (\<lambda>_.
      bindR (each (gitCommand E prefix (context_text ctx ''root'') processById) gitCommands) (\<lambda>_.
      bindR (each (gitStdout E prefix processById artifacts) (gitOutputs E source entries)) (\<lambda>_.
      bindR (requireC (\<not> ((splitRoot \<and> expected = JNull)
                 \<or> (expected \<noteq> JNull \<and> \<not> strict_eq expected (getp source ''head''))))
               ''expected checkout SHA differs from exact source HEAD'') (\<lambda>_.
        each (gitPath E cwd prefix processById artifacts)
          (gitPaths (JStr (context_text ctx ''root'')) (getp source ''gitDirectory'')))))))"

definition validateControlSourceProcessSemantics ::
  "jsenv \<Rightarrow> jstring \<Rightarrow> jsval js_map \<Rightarrow> jsval \<Rightarrow> pass_context \<Rightarrow> cexn + unit" where
  "validateControlSourceProcessSemantics E cwd processById ev ctx =
     (let control = getp ev ''controlSource''; terminal = check_named ev ''R016-CONTROL-SOURCE-SEAL'';
          artifacts = elements_in (getp ev ''rawArtifacts''); entries = map snd (map_entries (px_controlTrackedIndex ctx));
          sameHead = strict_eq (getp terminal ''head'') (getp control ''head'') \<and> strict_eq (getp terminal ''tree'') (getp control ''tree'');
          prefix = ''PROCESS-GIT-CONTROL-'';
          same = ''same-root control source semantics are invalid''; split = ''split-root control source semantics are invalid'' in
      if is_str (getp (getp (getp ev ''inputs'') ''controlPlane'') ''mode'') ''same-root'' then
        bindR (sameCanonical E control (getp ev ''source'') same) (\<lambda>_.
          requireC (sameHead \<and> getp terminal ''sameAsTarget'' = JBool True) same)
      else
        bindR (indexInventory E control entries split) (\<lambda>_.
        bindR (requireC (strict_eq (getp control ''expectedCheckoutSha'') (getp control ''head'') \<and> sameHead
                 \<and> \<not> has_own terminal (js ''sameAsTarget'')) split) (\<lambda>_.
        bindR (each (gitCommand E prefix (context_text ctx ''controlRoot'') processById) gitCommands) (\<lambda>_.
        bindR (each (gitStdout E prefix processById artifacts) (gitOutputs E control entries)) (\<lambda>_.
          each (gitPath E cwd prefix processById artifacts)
            (gitPaths (JStr (context_text ctx ''controlRoot'')) (getp control ''gitDirectory'')))))))"

section \<open>Tracked inputs\<close>

text \<open>\<^verbatim>\<open>path.posix.dirname\<close>\<close>

definition posix_dirname :: "jstring \<Rightarrow> jstring" where
  "posix_dirname s =
     (let t = rev (dropWhile (\<lambda>c. c = 47) (rev s)); u = rev (dropWhile (\<lambda>c. c \<noteq> 47) (rev t)); e = length u - 1 in
      if s = [] then js ''.''
      else if e = 0 then (if is_absolute s then js ''/'' else js ''.'')
      else if is_absolute s \<and> e = 1 then js ''//'' else take e s)"

definition goDescriptors :: "jsval \<Rightarrow> cexn + jsval list" where
  "goDescriptors mdl =
     bindR (accR mdl ''manifest'') (\<lambda>manifest.
     let own = JObj [(js ''path'', manifest), (js ''sha256'', getp mdl ''goModSha256'')] in
     if getp mdl ''goSumSha256'' = JNull then Inr [own]
     else case manifest of
         JStr s \<Rightarrow> Inr [own, JObj [(js ''path'', JStr (path_join [posix_dirname s, js ''go.sum''])),
                                    (js ''sha256'', getp mdl ''goSumSha256'')]]
       | _ \<Rightarrow> Inl Thrown)"

text \<open>\<^verbatim>\<open>{...existing, ...descriptor}\<close>\<close>

definition spread :: "jsval \<Rightarrow> jsval \<Rightarrow> jsval" where
  "spread existing descriptor =
     (case (existing, descriptor) of
        (JObj fs, JObj gs) \<Rightarrow>
          JObj (map (\<lambda>(k, v). (k, case map_of gs k of None \<Rightarrow> v | Some w \<Rightarrow> w)) fs
                @ filter (\<lambda>g. fst g \<notin> fst ` set fs) gs)
      | _ \<Rightarrow> descriptor)"

definition identitiesConflict :: "jsval \<Rightarrow> jsval \<Rightarrow> bool" where
  "identitiesConflict existing descriptor \<longleftrightarrow>
     list_ex (\<lambda>k. getp existing k \<noteq> JUndef \<and> getp descriptor k \<noteq> JUndef
                  \<and> \<not> strict_eq (getp existing k) (getp descriptor k)) [''sha256'', ''size'', ''gitObjectId'']"

definition put_entry :: "'v js_map \<Rightarrow> jstring \<Rightarrow> 'v \<Rightarrow> 'v js_map" where
  "put_entry m k v =
     (if k \<in> fst ` set m then map (\<lambda>e. if fst e = k then (k, v) else e) m else m @ [(k, v)])"

definition mergeDescriptor :: "jsenv \<Rightarrow> jsval js_map \<Rightarrow> jsval \<Rightarrow> cexn + jsval js_map" where
  "mergeDescriptor E byPath descriptor =
     bindR (bindR (accR descriptor ''path'') validateRepositoryPath) (\<lambda>_.
     bindR (validateSha256 E (getp descriptor ''sha256'')) (\<lambda>_.
     let path = text_of (getp descriptor ''path'') in
     case map_of byPath path of
       None \<Rightarrow> Inr (put_entry byPath path descriptor)
     | Some existing \<Rightarrow>
         bindR (requireC (\<not> identitiesConflict existing descriptor) ''tracked evidence input identities conflict'') (\<lambda>_.
           Inr (put_entry byPath path (spread existing descriptor)))))"

definition mergeTrackedDescriptors :: "jsenv \<Rightarrow> jsval list \<Rightarrow> cexn + jsval list" where
  "mergeTrackedDescriptors E descriptors =
     bindR (foldR (mergeDescriptor E) [] descriptors) (\<lambda>byPath.
       Inr (sort_by (\<lambda>a b. js_locale_le E (entry_path a) (entry_path b)) (map snd byPath)))"

definition trackedInputDescriptors :: "jsenv \<Rightarrow> jsval \<Rightarrow> cexn + jsval list" where
  "trackedInputDescriptors E ev =
     (let inputs = getp ev ''inputs'' in
      bindR (mapR goDescriptors (elements_in (getp inputs ''go''))) (\<lambda>go.
        mergeTrackedDescriptors E
          ([getp (getp inputs ''pnpm'') ''source''] @ concat go @ elements_in (getp (getp inputs ''semgrepSources'') ''files''))))"

definition TRACKED_CANARY_FIXTURES :: "(string \<times> string \<times> nat) list" where
  "TRACKED_CANARY_FIXTURES =
     [(''scripts/fixtures/supply-chain/transitive-go.mod.txt'',
        ''59c15a0750877d1e5dd52c029f3be54fd8b65db5823fc8d3d4c4a214d421395c'', 102),
      (''scripts/fixtures/supply-chain/transitive-go.sum.txt'',
        ''ff8df1f3f2c7941bde1dd91a18fe4b2baabfece1b3909d34893185ce9495ed23'', 2098),
      (''scripts/fixtures/supply-chain/vulnerable-pnpm-lock.yaml.txt'',
        ''cd4c80acc334311c3732e510d98dcf8773c0b005c0e1c3f9145ddf2b6de5cccf'', 227),
      (''scripts/fixtures/supply-chain/vulnerable-development-pnpm-lock.yaml.txt'',
        ''9271f0ca7b126ab32a6babd7ff7a19add161eaf68cded85b5f9f8883a252bcd6'', 317),
      (''scripts/fixtures/supply-chain/vulnerable-go.mod.txt'',
        ''101ff523fa5baf340172bc1d2f35bcca95f77085d701d82ce37f8f6d9d2e0311'', 95),
      (''scripts/fixtures/supply-chain/go-license-denied.mod.txt'',
        ''bfb4dfd318d706ac8a6f24ad61450818ca23e51dd5e54a0fea59f499c1eab9f6'', 107),
      (''scripts/fixtures/supply-chain/license-denied-pnpm-lock.yaml.txt'',
        ''ff0dd178fabdd8f3552c6687f628910273418c2cdcee988efa112298235b3cd1'', 58),
      (''scripts/fixtures/supply-chain/license-unknown-pnpm-lock.yaml.txt'',
        ''a03511895b007e5da0b2804cbea27ae986621e67073ddfbbb23998d6326e9863'', 56),
      (''scripts/fixtures/supply-chain/sast-go-blocking.go.txt'',
        ''5e61ac02abf84aeb5b6d1132d068faafca0d03a2fd0bf261b8834528fbb03313'', 146),
      (''scripts/fixtures/supply-chain/sast-typescript-blocking.ts.txt'',
        ''7ab546d1e0b094db952c930c056a4e072d27d2c2a2c7a0e7452b731701513756'', 79)]"

definition fixtureDescriptor :: "string \<times> string \<times> nat \<Rightarrow> jsval" where
  "fixtureDescriptor f =
     (case f of (path, digest, bytes) \<Rightarrow>
        JObj [(js ''path'', JStr (js path)), (js ''sha256'', JStr (js digest)), (js ''size'', natValue bytes)])"

definition controlInputDescriptors :: "jsenv \<Rightarrow> jsval \<Rightarrow> cexn + jsval list" where
  "controlInputDescriptors E ev =
     (let inputs = getp ev ''inputs'' in
      mergeTrackedDescriptors E
        (elements_in (getp (getp inputs ''controlPlane'') ''files'') @ values_in (getp inputs ''configuration'')
         @ elements_in (getp (getp (getp ev ''databaseArchiveValidation'') ''validatorSources'') ''files'')
         @ map fixtureDescriptor TRACKED_CANARY_FIXTURES))"

section \<open>Blobs read from git\<close>

definition blobProcessId :: "jsenv \<Rightarrow> string \<Rightarrow> jstring \<Rightarrow> jstring" where
  "blobProcessId E prefix path = js prefix @ js_upper E (take 20 (sha256Hex E path))"

definition trackedBlobProcessId :: "jsenv \<Rightarrow> jstring \<Rightarrow> jstring" where
  "trackedBlobProcessId E path = blobProcessId E ''PROCESS-GIT-BLOB-'' path"

definition controlTrackedBlobProcessId :: "jsenv \<Rightarrow> jstring \<Rightarrow> jstring" where
  "controlTrackedBlobProcessId E path = blobProcessId E ''PROCESS-GIT-CONTROL-BLOB-'' path"

definition ruleBlobProcessId :: "jsenv \<Rightarrow> jstring \<Rightarrow> jstring" where
  "ruleBlobProcessId E path = blobProcessId E ''PROCESS-RULE-BLOB-'' path"

text \<open>A redacted stream is rendered as its digest and size.\<close>

definition redactedRendering :: "jsenv \<Rightarrow> jsval \<Rightarrow> cexn + unit" where
  "redactedRendering E artifact =
     bindR (canonR E (JObj [(js ''redacted'', JBool True), (js ''sha256'', getp artifact ''rawSha256''),
                            (js ''size'', getp artifact ''rawSize'')])) (\<lambda>t.
       requireC (getp artifact ''sha256'' = JStr (sha256Hex E (t @ [10])) \<and> getp artifact ''size'' = byteLength (t @ [10]))
         ''tracked blob artifact rendering is invalid'')"

definition validateTrackedBlobArtifacts :: "jsenv \<Rightarrow> jsval \<Rightarrow> jsval \<Rightarrow> jsval list \<Rightarrow> cexn + unit" where
  "validateTrackedBlobArtifacts E check descriptor artifacts =
     (case (find_artifact (getp check ''id'') ''stdout'' artifacts, find_artifact (getp check ''id'') ''stderr'' artifacts) of
        (Some stdout, Some stderr) \<Rightarrow>
          bindR (requireC (getp stdout ''redacted'' = JBool True
                   \<and> strict_eq (getp stdout ''rawSha256'') (getp descriptor ''sha256'')
                   \<and> (getp descriptor ''size'' = JUndef \<or> strict_eq (getp stdout ''rawSize'') (getp descriptor ''size''))
                   \<and> is_safe_number (getp stdout ''rawSize'') \<and> \<not> is_negative (getp stdout ''rawSize'')
                   \<and> getp stderr ''redacted'' = JBool True \<and> getp stderr ''rawSha256'' = JStr (sha256Hex E [])
                   \<and> is_zero (getp stderr ''rawSize'')) ''tracked blob artifacts are invalid'') (\<lambda>_.
            each (redactedRendering E) [stdout, stderr])
      | _ \<Rightarrow> Inl (Refused ''tracked blob artifacts are invalid''))"

definition catFile :: "jsval \<Rightarrow> (jsval \<Rightarrow> bool) \<Rightarrow> jsval \<Rightarrow> bool" where
  "catFile check directory object \<longleftrightarrow>
     length (arguments_of check) = 5 \<and> is_str (argument_at check 0) ''-C'' \<and> directory (argument_at check 1)
     \<and> is_str (argument_at check 2) ''cat-file'' \<and> is_str (argument_at check 3) ''blob''
     \<and> strict_eq (argument_at check 4) object"

definition trackedIdentity :: "jsenv \<Rightarrow> jsval \<Rightarrow> jsval \<Rightarrow> jsval \<Rightarrow> nat list \<Rightarrow> bool" where
  "trackedIdentity E descriptor indexEntry cachedId bytes \<longleftrightarrow>
     regularMode (getp indexEntry ''mode'') \<and> is_zero (getp indexEntry ''stage'')
     \<and> hex_object_value E (getp indexEntry ''objectId'') \<and> strict_eq cachedId (getp indexEntry ''objectId'')
     \<and> getp descriptor ''sha256'' = JStr (sha256Bytes E bytes)
     \<and> (getp descriptor ''size'' = JUndef \<or> getp descriptor ''size'' = natValue (length bytes))
     \<and> (getp descriptor ''gitObjectId'' = JUndef \<or> strict_eq (getp descriptor ''gitObjectId'') (getp indexEntry ''objectId''))"

record blob_source =
  bs_cache :: "cached_blob js_map"
  bs_index :: "jsval js_map"
  bs_root :: jstring

definition validateTrackedBlobProcess ::
  "jsenv \<Rightarrow> jstring \<Rightarrow> jsval \<Rightarrow> jsval \<Rightarrow> jsval \<Rightarrow> blob_source \<Rightarrow> cexn + unit" where
  "validateTrackedBlobProcess E cwd check descriptor ev source =
     (let path = entry_path descriptor; invalid = ''tracked Git identity is invalid'' in
      case (map_of (bs_index source) path, map_of (bs_cache source) path) of
        (Some indexEntry, Some cached) \<Rightarrow>
          (case cb_bytes cached of
             None \<Rightarrow> Inl (Refused invalid)
           | Some bytes \<Rightarrow>
               bindR (requireC (trackedIdentity E descriptor indexEntry (cb_objectId cached) bytes) invalid) (\<lambda>_.
               bindR (assertGitBlobObjectId E bytes (getp indexEntry ''objectId'')) (\<lambda>_.
               bindR (requireC (check \<noteq> JUndef
                        \<and> catFile check (\<lambda>d. resolve_path cwd (text_of d) = resolve_path cwd (bs_root source))
                            (getp indexEntry ''objectId'')) ''tracked blob process is invalid'') (\<lambda>_.
                 validateTrackedBlobArtifacts E check descriptor (elements_in (getp ev ''rawArtifacts''))))))
      | _ \<Rightarrow> Inl (Refused invalid))"

text \<open>An identifier with a prefix and twenty upper-case hexadecimal digits.\<close>

definition is_upper_hex :: "nat \<Rightarrow> bool" where
  "is_upper_hex c \<longleftrightarrow> is_digit c \<or> (65 \<le> c \<and> c \<le> 70)"

definition blob_id :: "string \<Rightarrow> jstring \<Rightarrow> bool" where
  "blob_id prefix s \<longleftrightarrow>
     (let h = drop (length prefix) s in starts_with s (js prefix) \<and> length h = 20 \<and> list_all is_upper_hex h)"

definition blobInventory :: "jsenv \<Rightarrow> string \<Rightarrow> jstring list \<Rightarrow> jstring list \<Rightarrow> cexn + unit" where
  "blobInventory E prefix checkIds expectedIds =
     sameCanonical E (strings (sort (uniq (filter (blob_id prefix) checkIds)))) (strings (sort (uniq expectedIds)))
       ''Git blob process inventory is incomplete or excessive''"

definition blobProcesses ::
  "jsenv \<Rightarrow> jstring \<Rightarrow> string \<Rightarrow> jsval js_map \<Rightarrow> jsval \<Rightarrow> blob_source \<Rightarrow> jsval list \<Rightarrow> cexn + unit" where
  "blobProcesses E cwd prefix processById ev source descriptors =
     bindR (sameCanonical E (strings (sort (map fst (bs_cache source)))) (strings (sort (map entry_path descriptors)))
              ''Git blob cache inventory is incomplete or excessive'') (\<lambda>_.
     bindR (blobInventory E prefix (map fst processById) (map (\<lambda>d. blobProcessId E prefix (entry_path d)) descriptors)) (\<lambda>_.
       each (\<lambda>d. validateTrackedBlobProcess E cwd (lookup_check processById (blobProcessId E prefix (entry_path d))) d ev source)
         descriptors))"

definition ruleBlob :: "jsenv \<Rightarrow> jstring \<Rightarrow> jsval js_map \<Rightarrow> jsval \<Rightarrow> jstring \<Rightarrow> jsval \<Rightarrow> cexn + unit" where
  "ruleBlob E cwd processById ev temporaryRoot rule =
     (let check = lookup_check processById (ruleBlobProcessId E (entry_path rule));
          commit = getp (getp (getp ev ''inputs'') ''semgrepRules'') ''commit'' in
      bindR (requireC (check \<noteq> JUndef
               \<and> catFile check (\<lambda>d. resolve_path cwd (text_of d) = path_join [resolve_path cwd temporaryRoot, js ''semgrep-rules''])
                   (JStr (to_text E commit @ [58] @ to_text E (getp rule ''path'')))) ''rule blob process is invalid'') (\<lambda>_.
        validateTrackedBlobArtifacts E check rule (elements_in (getp ev ''rawArtifacts''))))"

definition goProcesses :: "jsenv \<Rightarrow> jsval js_map \<Rightarrow> jsval \<Rightarrow> cexn + unit" where
  "goProcesses E processById mdl =
     bindR (bindR (accR mdl ''manifest'') (module_slug E)) (\<lambda>suffix.
       each (\<lambda>prefix. requireC (js prefix @ suffix \<in> fst ` set processById) ''missing Go inventory process'')
         [''PROCESS-GO-MOD-EDIT-'', ''PROCESS-GO-LIST-''])"

definition validateDynamicBlobProcesses ::
  "jsenv \<Rightarrow> jstring \<Rightarrow> jsval list \<Rightarrow> jsval \<Rightarrow> pass_context \<Rightarrow> cexn + unit" where
  "validateDynamicBlobProcesses E cwd processChecks ev ctx =
     (let processById = processByIdFrom processChecks; inputs = getp ev ''inputs'';
          rules = elements_in (getp (getp inputs ''semgrepRules'') ''files'') in
      bindR (trackedInputDescriptors E ev) (\<lambda>tracked.
      bindR (blobProcesses E cwd ''PROCESS-GIT-BLOB-'' processById ev
               \<lparr>bs_cache = map_entries (px_trackedBlobCache ctx), bs_index = map_entries (px_trackedIndex ctx),
                bs_root = context_text ctx ''root''\<rparr> tracked) (\<lambda>_.
      bindR (controlInputDescriptors E ev) (\<lambda>control.
      bindR (blobProcesses E cwd ''PROCESS-GIT-CONTROL-BLOB-'' processById ev
               \<lparr>bs_cache = map_entries (px_controlTrackedBlobCache ctx), bs_index = map_entries (px_controlTrackedIndex ctx),
                bs_root = context_text ctx ''controlRoot''\<rparr> control) (\<lambda>_.
      bindR (blobInventory E ''PROCESS-RULE-BLOB-'' (map fst processById)
               (map (\<lambda>r. ruleBlobProcessId E (entry_path r)) rules)) (\<lambda>_.
      bindR (each (ruleBlob E cwd processById ev (context_text ctx ''temporaryRoot'')) rules) (\<lambda>_.
        each (goProcesses E processById) (elements_in (getp inputs ''go'')))))))))"

section \<open>Cleanup of containers\<close>

definition validateUnredactedProcessStreamVariants ::
  "jsenv \<Rightarrow> jsval \<Rightarrow> string \<Rightarrow> jstring list \<Rightarrow> jsval list \<Rightarrow> cexn + unit" where
  "validateUnredactedProcessStreamVariants E check stream expectedValues artifacts =
     requireC (case find_artifact (getp check ''id'') stream artifacts of
         None \<Rightarrow> False
       | Some a \<Rightarrow> getp a ''redacted'' = JBool False
           \<and> list_ex (\<lambda>x. getp a ''sha256'' = JStr (sha256Hex E x) \<and> getp a ''size'' = byteLength x) expectedValues)
       ''raw output identity is invalid''"

definition cleanupListing :: "jsenv \<Rightarrow> jsval js_map \<Rightarrow> jsval \<Rightarrow> string \<Rightarrow> cexn + unit" where
  "cleanupListing E byId check phase =
     sameCanonical E (getp (lookup_check byId (text_of (getp check ''id'') @ js (''-CLEANUP-'' @ phase))) ''arguments'')
       (JArr (texts [''container'', ''ls'', ''-aq'', ''--filter'']
              @ [JStr (js ''name=^/'' @ to_text E (argument_at check 7) @ js ''$'')]))
       ''cleanup does not bind its exact container''"

definition cleanupRemoval :: "jsenv \<Rightarrow> jsval \<Rightarrow> jstring list \<Rightarrow> cexn + unit" where
  "cleanupRemoval E removal removedIds =
     bindR (sameCanonical E (JArr (take 2 (arguments_of removal))) (JArr (texts [''rm'', ''--force''])) ''cleanup removal is invalid'') (\<lambda>_.
       requireC (removedIds \<noteq> [] \<and> distinct removedIds \<and> list_all container_id removedIds) ''cleanup removal is invalid'')"

definition cleanupOf :: "jsenv \<Rightarrow> jsval js_map \<Rightarrow> jsval list \<Rightarrow> jsval \<Rightarrow> cexn + unit" where
  "cleanupOf E byId artifacts check =
     (if \<not> is_str (argument_at check 0) ''run'' then Inr ()
      else
        let named = (\<lambda>phase. lookup_check byId (text_of (getp check ''id'') @ js (''-CLEANUP-'' @ phase)));
            before = named ''BEFORE''; after = named ''AFTER''; removal = named ''REMOVE'';
            removedIds = map text_of (drop 2 (arguments_of removal));
            variants = (if removal = JUndef then [[]] else [join [10] removedIds @ [10], join [13, 10] removedIds @ [13, 10]]) in
        bindR (each (cleanupListing E byId check) [''BEFORE'', ''AFTER'']) (\<lambda>_.
        bindR (if removal = JUndef then Inr () else cleanupRemoval E removal removedIds) (\<lambda>_.
        bindR (validateUnredactedProcessStreamVariants E before ''stdout'' variants artifacts) (\<lambda>_.
        bindR (if removal = JUndef then Inr ()
               else validateUnredactedProcessStreamVariants E removal ''stdout'' variants artifacts) (\<lambda>_.
        bindR (validateUnredactedProcessStreamVariants E after ''stdout'' [[]] artifacts) (\<lambda>_.
          each (\<lambda>c. validateUnredactedProcessStreamVariants E c ''stderr'' [[]] artifacts)
            (filter (\<lambda>c. c \<noteq> JUndef) [before, removal, after])))))))"

definition validateCleanupProcessRelationships :: "jsenv \<Rightarrow> jsval list \<Rightarrow> jsval list \<Rightarrow> cexn + unit" where
  "validateCleanupProcessRelationships E processChecks artifacts =
     each (cleanupOf E (processByIdFrom processChecks) artifacts) processChecks"

end
