(* ===== verification/Evidence_Terminals.thy ===== *)
theory Evidence_Terminals
  imports Evidence_Processes
begin

text \<open>
  The terminal checks of a passing evidence document (\<^verbatim>\<open>validateTerminalSemantics\<close> and what it calls in
  \<^verbatim>\<open>src/scripts/supply-chain/contracts.mjs\<close>): their exact shapes, the artifacts they refer to, the
  execution environment and what each control has to report.
\<close>

section \<open>Artifacts of a terminal check\<close>

definition validateTerminalArtifactReference :: "jsval \<Rightarrow> jsval \<Rightarrow> jsval list \<Rightarrow> cexn + unit" where
  "validateTerminalArtifactReference terminal processCheck artifacts =
     (let own = filter (\<lambda>a. strict_eq (getp a ''processId'') (getp processCheck ''id'')) artifacts;
          stream = (\<lambda>name. find (\<lambda>a. is_str (getp a ''stream'') name) own) in
      bindR (requireC (processCheck \<noteq> JUndef \<and> strict_eq (getp terminal ''processId'') (getp processCheck ''id''))
               ''process reference is invalid'') (\<lambda>_.
        requireC (length own = 2
          \<and> (case (stream ''stdout'', stream ''stderr'') of
               (Some stdout, Some stderr) \<Rightarrow>
                 strict_eq (getp terminal ''stdoutSha256'') (getp stdout ''sha256'')
                 \<and> strict_eq (getp terminal ''stdoutRawSha256'') (getp stdout ''rawSha256'')
                 \<and> strict_eq (getp terminal ''stderrSha256'') (getp stderr ''sha256'')
                 \<and> strict_eq (getp terminal ''stderrRawSha256'') (getp stderr ''rawSha256'')
             | _ \<Rightarrow> False)) ''artifact hashes do not match''))"

section \<open>Exact shapes\<close>

definition terminalBase :: "string list" where
  "terminalBase = [''id'', ''status'']"

definition processTerminal :: "string list \<Rightarrow> string list" where
  "processTerminal names =
     terminalBase @ [''rawExit''] @ names
     @ [''processId'', ''stdoutSha256'', ''stdoutRawSha256'', ''stderrSha256'', ''stderrRawSha256'']"

definition canaryShape :: "string list" where
  "canaryShape = processTerminal [''declaredDirectScopes'', ''fixtureScope'', ''fixtureSha256'', ''findingCount'',
     ''inventorySha256'', ''scannerScope'', ''scannerScopeReported'']"

definition licenseShape :: "string list" where
  "licenseShape = processTerminal [''expectedLicense'', ''fixtureSha256'', ''findingCount'', ''inventorySha256'']"

definition terminalShapes :: "(string \<times> string list) list" where
  "terminalShapes =
     [(''R016-REPOSITORY-USE'', terminalBase @ [''context'']),
      (''R016-EXECUTION-ENVIRONMENT'', terminalBase @ [''runtime'', ''docker'', ''executables'']),
      (''R016-OSV-MISSING-DB-NEGATIVE'', processTerminal []),
      (''R016-OSV-VULNERABILITY-CANARY'', canaryShape),
      (''R016-OSV-VULNERABILITY-DEVELOPMENT-CANARY'', canaryShape),
      (''R016-OSV-GO-ADVISORY-CANARY'',
        processTerminal [''advisoryId'', ''ecosystem'', ''packageName'', ''version'', ''extractionCount'', ''fixtureSha256'']),
      (''R016-OSV-GO-TRANSITIVE-CANARY'',
        processTerminal [''advisoryId'', ''ecosystem'', ''packageName'', ''version'', ''extractionCount'', ''input'']),
      (''R016-OSV-GO-LICENSE-DENIED-CANARY'',
        processTerminal [''ecosystem'', ''expectedLicense'', ''packageName'', ''version'', ''extractionCount'', ''fixtureSha256'',
          ''findingCount'', ''inventorySha256'']),
      (''R016-OSV-LICENSE-DENIED-CANARY'', licenseShape), (''R016-OSV-LICENSE-UNKNOWN-CANARY'', licenseShape),
      (''R016-DB-ZIP'', processTerminal [''archiveCount'']), (''R016-DB-SEAL'', terminalBase @ [''detail'']),
      (''R016-VULNERABILITY'', processTerminal [''inventorySha256'', ''packageCount'', ''sourceCount'', ''threshold'']),
      (''R016-LICENSE'',
        processTerminal [''onlineMetadataSource'', ''reproducibilityResidual'', ''allowedSpdxSha256'', ''inventorySha256'',
          ''packageCount'', ''sourceCount'']),
      (''R016-SAST'', processTerminal [''engine'', ''exactSourceParity'', ''coverage'', ''scannedPathCount'', ''scannedPathsSha256'']),
      (''R016-SAST-NEGATIVE'',
        processTerminal [''findingCount'', ''coverage'', ''exactSourceParity'', ''largeFixtureAverageBytesPerLine'',
          ''largeFixtureLineCount'', ''largeFixtureSha256'', ''largeFixtureSize'']),
      (''R016-SOURCE-SEAL'', terminalBase @ [''head'', ''tree'']), (''R016-GATE'', terminalBase @ [''detail''])]"

definition controlSealShape :: "jsval \<Rightarrow> string list" where
  "controlSealShape ev =
     terminalBase @ [''head'', ''tree'']
     @ (if is_str (getp (getp (getp ev ''inputs'') ''controlPlane'') ''mode'') ''same-root'' then [''sameAsTarget''] else [])"

definition validateExactTerminalShapes :: "jsenv \<Rightarrow> jsval \<Rightarrow> jsval js_map \<Rightarrow> cexn + unit" where
  "validateExactTerminalShapes E ev terminalById =
     each (\<lambda>(name, ks). assertExactObjectKeys E (lookup_check terminalById (js name)) ks)
       (terminalShapes @ [(''R016-CONTROL-SOURCE-SEAL'', controlSealShape ev)])"

section \<open>The execution environment\<close>

text \<open>What \<^verbatim>\<open>process\<close> says of the host.\<close>

record host_runtime =
  ho_env :: "(jstring \<times> jstring) list"
  ho_version :: jstring
  ho_platform :: jstring
  ho_arch :: jstring

definition runnerVariables :: "string list" where
  "runnerVariables = [''CI'', ''GITHUB_ACTIONS'', ''ImageOS'', ''ImageVersion'', ''RUNNER_ARCH'', ''RUNNER_OS'']"

definition runnerOf :: "host_runtime \<Rightarrow> jsval" where
  "runnerOf host =
     JObj (concat (map (\<lambda>name. case map_of (ho_env host) (js name) of
         None \<Rightarrow> [] | Some v \<Rightarrow> if v = [] then [] else [(js name, JStr v)]) runnerVariables))"

text \<open>\<^verbatim>\<open>/^v?[0-9]+\.[0-9]+\.[0-9]+(?:[-+][0-9A-Za-z.-]+)?$/u\<close>\<close>

definition after_digits :: "jstring \<Rightarrow> jstring option" where
  "after_digits s = (let r = dropWhile is_digit s in if r = s then None else Some r)"

definition after_dot :: "jstring \<Rightarrow> jstring option" where
  "after_dot s = (case s of [] \<Rightarrow> None | c # r \<Rightarrow> if c = 46 then Some r else None)"

definition version_suffix :: "jstring \<Rightarrow> bool" where
  "version_suffix s \<longleftrightarrow>
     (case s of [] \<Rightarrow> True
      | c # r \<Rightarrow> (c = 45 \<or> c = 43) \<and> r \<noteq> []
          \<and> list_all (\<lambda>d. is_digit d \<or> is_upper d \<or> is_lower d \<or> d = 46 \<or> d = 45) r)"

definition docker_version :: "jstring \<Rightarrow> bool" where
  "docker_version s \<longleftrightarrow>
     (let t = (if starts_with s [118] then drop 1 s else s) in
      case Option.bind (Option.bind (Option.bind (Option.bind (after_digits t) after_dot) after_digits) after_dot) after_digits of
        None \<Rightarrow> False
      | Some r \<Rightarrow> version_suffix r)"

definition expectedDocker :: "jsval \<Rightarrow> jsval \<Rightarrow> jsval" where
  "expectedDocker dockerDocument digest =
     (let client = getp dockerDocument ''Client''; server = getp dockerDocument ''Server'' in
      JObj [(js ''clientVersion'', getp client ''Version''), (js ''serverVersion'', getp server ''Version''),
            (js ''clientPlatform'', coalesce (getp (getp client ''Platform'') ''Name'') JNull),
            (js ''serverOs'', coalesce (getp server ''Os'') JNull), (js ''serverArchitecture'', coalesce (getp server ''Arch'') JNull),
            (js ''versionDocumentSha256'', digest)])"

definition dockerFields :: "string list" where
  "dockerFields = [''clientVersion'', ''serverVersion'', ''clientPlatform'', ''serverOs'', ''serverArchitecture'',
     ''versionDocumentSha256'']"

definition dockerVersionOutput :: "jsval \<Rightarrow> jsval \<Rightarrow> cexn + unit" where
  "dockerVersionOutput ev dockerSeal =
     requireC (case find_artifact (JStr (js ''PROCESS-DOCKER-VERSION'')) ''stdout'' (elements_in (getp ev ''rawArtifacts'')) of
         None \<Rightarrow> False
       | Some a \<Rightarrow> getp a ''redacted'' = JBool False \<and> strict_eq (getp a ''rawSha256'') (getp dockerSeal ''stdoutSha256'')
           \<and> strict_eq (getp a ''rawSize'') (getp dockerSeal ''stdoutSize'') \<and> 0 < number_of (getp a ''size''))
       ''Docker version process output is invalid''"

definition validateExecutionEnvironmentSemantics :: "jsenv \<Rightarrow> host_runtime \<Rightarrow> jsval \<Rightarrow> pass_context \<Rightarrow> cexn + unit" where
  "validateExecutionEnvironmentSemantics E host ev ctx =
     (let environment = getp ev ''environment''; runtime = getp environment ''runtime''; docker = getp environment ''docker'';
          dockerSeal = getp (px_values ctx) ''dockerEnvironmentSeal''; invalid = ''Docker environment is invalid'';
          differs = ''execution runtime differs from the active trusted process'' in
      bindR (requireC (getp runtime ''node'' = JStr (ho_version host) \<and> getp runtime ''platform'' = JStr (ho_platform host)
               \<and> getp runtime ''architecture'' = JStr (ho_arch host)) differs) (\<lambda>_.
      bindR (sameCanonical E (getp environment ''runner'') (runnerOf host) differs) (\<lambda>_.
      bindR (accR dockerSeal ''document'') (\<lambda>dockerDocument.
      bindR (needRecord dockerDocument) (\<lambda>_.
      bindR (hashOf E dockerDocument) (\<lambda>digest.
      bindR (requireC (docker_version (to_text E (getp docker ''clientVersion''))
               \<and> docker_version (to_text E (getp docker ''serverVersion''))
               \<and> list_all (\<lambda>k. getp docker k = JNull \<or> nonemptyText (getp docker k)) [''clientPlatform'', ''serverOs'', ''serverArchitecture''])
               invalid) (\<lambda>_.
      bindR (sameCanonical E (projectFields dockerFields docker) (expectedDocker dockerDocument digest) invalid) (\<lambda>_.
      bindR (validateSha256 E (getp docker ''versionDocumentSha256'')) (\<lambda>_.
        dockerVersionOutput ev dockerSeal)))))))))"

section \<open>Fixtures and inventories\<close>

definition trackedFixture :: "string \<Rightarrow> cexn + jsval" where
  "trackedFixture repositoryPath =
     (case find (\<lambda>f. fst f = repositoryPath) TRACKED_CANARY_FIXTURES of
        None \<Rightarrow> Inl (Refused ''tracked fixture is not locked'')
      | Some f \<Rightarrow> Inr (JStr (js (fst (snd f)))))"

definition packageKey :: "jsenv \<Rightarrow> jsval \<Rightarrow> jstring" where
  "packageKey E p =
     to_text E (getp p ''ecosystem'') @ [58] @ to_text E (getp p ''name'') @ [64] @ to_text E (getp p ''version'')
     @ [35] @ to_text E (getp p ''scope'')"

definition osvInventorySha256 :: "jsenv \<Rightarrow> string \<Rightarrow> jsval list \<Rightarrow> cexn + jsval" where
  "osvInventorySha256 E source packages =
     hashOf E (JArr [JObj [(js ''packages'', JArr (sort_by (\<lambda>a b. js_locale_le E (packageKey E a) (packageKey E b)) packages)),
                           (js ''source'', JStr (js source))]])"

definition inventoryPackage :: "string \<Rightarrow> string \<Rightarrow> string \<Rightarrow> jsval" where
  "inventoryPackage eco name vers =
     JObj [(js ''ecosystem'', JStr (js eco)), (js ''name'', JStr (js name)), (js ''scope'', JStr (js ''unknown'')),
           (js ''version'', JStr (js vers))]"

text \<open>Members of a terminal check that have fixed values.\<close>

definition hasText :: "jsval \<Rightarrow> (string \<times> string) list \<Rightarrow> bool" where
  "hasText v fs \<longleftrightarrow> list_all (\<lambda>(k, t). is_str (getp v k) t) fs"

definition hasNumber :: "jsval \<Rightarrow> (string \<times> nat) list \<Rightarrow> bool" where
  "hasNumber v fs \<longleftrightarrow> list_all (\<lambda>(k, n). getp v k = natValue n) fs"

definition atLeast :: "nat \<Rightarrow> jsval \<Rightarrow> bool" where
  "atLeast n v \<longleftrightarrow> is_safe_number v \<and> of_nat n \<le> number_of v"

section \<open>Canaries\<close>

record canary =
  cy_id :: string
  cy_fixture :: string
  cy_scopes :: "string list"
  cy_fixtureScope :: string

definition vulnerabilityCanaries :: "canary list" where
  "vulnerabilityCanaries =
     [\<lparr>cy_id = ''R016-OSV-VULNERABILITY-CANARY'',
       cy_fixture = ''scripts/fixtures/supply-chain/vulnerable-pnpm-lock.yaml.txt'',
       cy_scopes = [], cy_fixtureScope = ''unknown''\<rparr>,
      \<lparr>cy_id = ''R016-OSV-VULNERABILITY-DEVELOPMENT-CANARY'',
       cy_fixture = ''scripts/fixtures/supply-chain/vulnerable-development-pnpm-lock.yaml.txt'',
       cy_scopes = [''devDependencies''], cy_fixtureScope = ''development''\<rparr>]"

definition vulnerabilityCanary :: "jsenv \<Rightarrow> jsval js_map \<Rightarrow> canary \<Rightarrow> cexn + unit" where
  "vulnerabilityCanary E terminalById c =
     (let terminal = lookup_check terminalById (js (cy_id c)); invalid = ''terminal semantics are invalid'' in
      bindR (trackedFixture (cy_fixture c)) (\<lambda>fixture.
      bindR (osvInventorySha256 E ''/fixture/pnpm-lock.yaml'' [inventoryPackage ''npm'' ''lodash'' ''4.17.20'']) (\<lambda>digest.
      bindR (sameCanonical E (getp terminal ''declaredDirectScopes'') (JArr (texts (cy_scopes c))) invalid) (\<lambda>_.
        requireC (hasNumber terminal [(''rawExit'', 1)]
          \<and> hasText terminal [(''fixtureScope'', cy_fixtureScope c), (''scannerScope'', ''unknown'')]
          \<and> getp terminal ''scannerScopeReported'' = JBool False \<and> strict_eq (getp terminal ''fixtureSha256'') fixture
          \<and> atLeast 1 (getp terminal ''findingCount'') \<and> strict_eq (getp terminal ''inventorySha256'') digest) invalid))))"

definition goAdvisoryCanary :: "jsval \<Rightarrow> cexn + unit" where
  "goAdvisoryCanary terminal =
     bindR (trackedFixture ''scripts/fixtures/supply-chain/vulnerable-go.mod.txt'') (\<lambda>fixture.
       requireC (hasNumber terminal [(''rawExit'', 1), (''extractionCount'', 2)]
         \<and> hasText terminal [(''advisoryId'', ''GO-2022-1059''), (''ecosystem'', ''Go''), (''packageName'', ''golang.org/x/text''),
                             (''version'', ''0.3.7'')]
         \<and> strict_eq (getp terminal ''fixtureSha256'') fixture) ''Go advisory canary terminal semantics are invalid'')"

definition goTransitiveCanary :: "jsenv \<Rightarrow> jsval \<Rightarrow> cexn + unit" where
  "goTransitiveCanary E terminal =
     (let inp = getp terminal ''input''; manifest = getp inp ''scannerManifest'' in
      bindR (validateGoInputEvidence E True [inp]) (\<lambda>_.
      bindR (trackedFixture ''scripts/fixtures/supply-chain/transitive-go.mod.txt'') (\<lambda>goMod.
      bindR (trackedFixture ''scripts/fixtures/supply-chain/transitive-go.sum.txt'') (\<lambda>goSum.
        requireC (hasNumber terminal [(''rawExit'', 1), (''extractionCount'', 12)]
          \<and> hasText terminal [(''advisoryId'', ''GO-2026-5970''), (''ecosystem'', ''Go''), (''packageName'', ''golang.org/x/text''),
                              (''version'', ''0.29.0'')]
          \<and> hasText inp [(''mainModule'', ''example.invalid/hedefora-transitive-canary''),
                         (''inventorySha256'', ''687be052dbb437cced8347c223df251527ac3230fafb18f7af3563853cbb3c6e'')]
          \<and> hasNumber inp [(''discoveredModuleCount'', 13), (''thirdPartyModuleCount'', 12)]
          \<and> strict_eq (getp inp ''goModSha256'') goMod \<and> strict_eq (getp inp ''goSumSha256'') goSum
          \<and> hasText manifest [(''sha256'', ''608829e45188403974bf17ba846c365d4cd244dd92158d139bb3ff3c80e2a992'')]
          \<and> hasNumber manifest [(''size'', 568)]) ''transitive-only Go canary semantics are invalid''))))"

definition goLicenseCanary :: "jsenv \<Rightarrow> jsval \<Rightarrow> cexn + unit" where
  "goLicenseCanary E terminal =
     bindR (trackedFixture ''scripts/fixtures/supply-chain/go-license-denied.mod.txt'') (\<lambda>fixture.
     bindR (osvInventorySha256 E ''/fixture/go.mod'' [inventoryPackage ''Go'' ''github.com/MichaelMure/git-bug'' ''0.8.0'']) (\<lambda>digest.
       requireC (hasNumber terminal [(''rawExit'', 1), (''extractionCount'', 2), (''findingCount'', 3)]
         \<and> hasText terminal [(''ecosystem'', ''Go''), (''expectedLicense'', ''GPL-3.0-or-later''),
                             (''packageName'', ''github.com/MichaelMure/git-bug''), (''version'', ''0.8.0'')]
         \<and> strict_eq (getp terminal ''fixtureSha256'') fixture \<and> strict_eq (getp terminal ''inventorySha256'') digest)
         ''Go license canary terminal semantics are invalid''))"

definition licenseCanaries :: "(string \<times> string \<times> string \<times> string \<times> string) list" where
  "licenseCanaries =
     [(''R016-OSV-LICENSE-DENIED-CANARY'', ''scripts/fixtures/supply-chain/license-denied-pnpm-lock.yaml.txt'', ''BUSL-1.1'',
       ''directus'', ''11.17.3''),
      (''R016-OSV-LICENSE-UNKNOWN-CANARY'', ''scripts/fixtures/supply-chain/license-unknown-pnpm-lock.yaml.txt'', ''UNKNOWN'',
       ''reserved'', ''0.1.1'')]"

definition licenseCanary ::
  "jsenv \<Rightarrow> jsval js_map \<Rightarrow> string \<times> string \<times> string \<times> string \<times> string \<Rightarrow> cexn + unit" where
  "licenseCanary E terminalById spec =
     (case spec of (name, fixtureName, license, pkg, vers) \<Rightarrow>
      let terminal = lookup_check terminalById (js name) in
      bindR (trackedFixture fixtureName) (\<lambda>fixture.
      bindR (osvInventorySha256 E ''/fixture/pnpm-lock.yaml'' [inventoryPackage ''npm'' pkg vers]) (\<lambda>digest.
        requireC (hasNumber terminal [(''rawExit'', 1)] \<and> hasText terminal [(''expectedLicense'', license)]
          \<and> strict_eq (getp terminal ''fixtureSha256'') fixture \<and> atLeast 1 (getp terminal ''findingCount'')
          \<and> strict_eq (getp terminal ''inventorySha256'') digest) ''terminal semantics are invalid'')))"

section \<open>Verdicts\<close>

text \<open>The packages and the sources of the inputs.\<close>

definition inputPackages :: "jsval \<Rightarrow> jnum" where
  "inputPackages inputs =
     addNumbers (foldl (\<lambda>s m. addNumbers s (getp m ''thirdPartyModuleCount'')) (Fin 0) (elements_in (getp inputs ''go'')))
       (getp (getp inputs ''pnpm'') ''packageCount'')"

definition inputSources :: "jsval \<Rightarrow> jsval" where
  "inputSources inputs =
     natValue (length (elements_in (getp (getp inputs ''pnpm'') ''documents''))
       + length (filter (\<lambda>m. 0 < number_of (getp m ''thirdPartyModuleCount'')) (elements_in (getp inputs ''go''))))"

definition vulnerabilityTerminal :: "jsenv \<Rightarrow> jsval \<Rightarrow> jsval \<Rightarrow> pass_context \<Rightarrow> cexn + unit" where
  "vulnerabilityTerminal E terminal ev ctx =
     (let context = px_values ctx; inputs = getp ev ''inputs''; m = ''vulnerability terminal verdict is inconsistent'' in
      bindR (accsR context [''configuration'', ''policy'', ''vulnerabilities'', ''minimumBlockingCvss'']) (\<lambda>threshold.
      bindR (requireC (is_zero (getp terminal ''rawExit'') \<and> strict_eq (getp terminal ''packageCount'') (JNum (inputPackages inputs))
               \<and> strict_eq (getp terminal ''sourceCount'') (inputSources inputs)
               \<and> strict_eq (getp terminal ''threshold'') threshold) m) (\<lambda>_.
      bindR (bindR (accsR context [''verdictExecutionSeals'', ''vulnerability'']) (\<lambda>seal.
               sameCanonical E (projectFields [''inventorySha256'', ''packageCount'', ''sourceCount'', ''threshold''] terminal) seal m)) (\<lambda>_.
        validateSha256 E (getp terminal ''inventorySha256'')))))"

text \<open>\<^verbatim>\<open>[...values].sort((left, right) => left.localeCompare(right))\<close>: only a comparison looks at a value.  The
  comparison with the default locale and the one with the locale \<^verbatim>\<open>en\<close> are the same parameter
  \<open>js_locale_le\<close>; no property depends on the order it gives.\<close>

definition localeSorted :: "jsenv \<Rightarrow> jsval list \<Rightarrow> cexn + jsval" where
  "localeSorted E vs =
     (if length vs < 2 then Inr (JArr vs)
      else bindR (mapR (\<lambda>v. case v of JStr s \<Rightarrow> Inr s | _ \<Rightarrow> Inl Thrown) vs) (\<lambda>ss.
             Inr (strings (sort_by (js_locale_le E) ss))))"

definition licenseTerminal :: "jsenv \<Rightarrow> jsval \<Rightarrow> jsval \<Rightarrow> pass_context \<Rightarrow> cexn + unit" where
  "licenseTerminal E terminal ev ctx =
     (let context = px_values ctx; inputs = getp ev ''inputs''; m = ''license terminal verdict is inconsistent'' in
      bindR (bindR (accsR context [''configuration'', ''policy'', ''licenses'', ''allowed'']) arrayR) (\<lambda>allowed.
      bindR (bindR (localeSorted E allowed) (hashOf E)) (\<lambda>allowedSha256.
      bindR (requireC (is_zero (getp terminal ''rawExit'') \<and> strict_eq (getp terminal ''packageCount'') (JNum (inputPackages inputs))
               \<and> strict_eq (getp terminal ''sourceCount'') (inputSources inputs)
               \<and> strict_eq (getp terminal ''allowedSpdxSha256'') allowedSha256
               \<and> hasText terminal [(''onlineMetadataSource'', ''deps.dev''),
                    (''reproducibilityResidual'',
                     ''deps.dev does not expose a response snapshot digest; exact package parity and fail-closed network handling are enforced'')])
               m) (\<lambda>_.
      bindR (bindR (accsR context [''verdictExecutionSeals'', ''license'']) (\<lambda>seal.
               sameCanonical E (projectFields [''allowedSpdxSha256'', ''inventorySha256'', ''packageCount'', ''sourceCount''] terminal) seal m)) (\<lambda>_.
        validateSha256 E (getp terminal ''inventorySha256''))))))"

definition SEMGREP_ENGINE :: string where
  "SEMGREP_ENGINE = ''Semgrep Community Edition --oss-only''"

definition pathParity :: "jsenv \<Rightarrow> jstring list \<Rightarrow> cexn + jsval" where
  "pathParity E ps =
     bindR (hashOf E (strings ps)) (\<lambda>h. Inr (JObj [(js ''pathCount'', natValue (length ps)), (js ''pathsSha256'', h)]))"

definition sastTerminal :: "jsenv \<Rightarrow> jsval \<Rightarrow> jsval \<Rightarrow> cexn + unit" where
  "sastTerminal E terminal ev =
     (let sources = getp (getp ev ''inputs'') ''semgrepSources''; m = ''SAST terminal verdict is inconsistent'';
          repositoryPaths = sort_by (js_locale_le E) (map entry_path (elements_in (getp sources ''files''))) in
      bindR (pathParity E repositoryPaths) (\<lambda>parity.
      bindR (mapR (\<lambda>prefix. hashOf E (strings (map ((@) (js prefix)) repositoryPaths))) [''/src/'', ''src/'']) (\<lambda>digests.
      bindR (requireC (is_zero (getp terminal ''rawExit'') \<and> is_str (getp terminal ''engine'') SEMGREP_ENGINE) m) (\<lambda>_.
      bindR (sameCanonical E (getp terminal ''exactSourceParity'') parity m) (\<lambda>_.
      bindR (sameCanonical E (getp terminal ''coverage'') (getp sources ''groupCounts'') m) (\<lambda>_.
        requireC (getp terminal ''scannedPathCount'' = natValue (length repositoryPaths)
          \<and> getp terminal ''scannedPathsSha256'' \<in> set digests) m))))))"

definition negativePaths :: "string list" where
  "negativePaths = [''.semgrepignore'', ''ignored/sast-semgrepignore.ts'', ''sast-go-blocking.go'', ''sast-over-limit.ts'',
     ''sast-typescript-blocking.ts'']"

definition sastNegativeTerminal :: "jsenv \<Rightarrow> jsval \<Rightarrow> cexn + unit" where
  "sastNegativeTerminal E terminal =
     (let m = ''SAST negative terminal verdict is inconsistent'' in
      bindR (requireC (hasNumber terminal [(''rawExit'', 1)] \<and> atLeast 4 (getp terminal ''findingCount'')) m) (\<lambda>_.
      bindR (sameCanonical E (getp terminal ''coverage'')
               (JObj [(js ''go'', natValue 1), (js ''javascript-typescript'', natValue 3)]) m) (\<lambda>_.
      bindR (pathParity E (map js negativePaths)) (\<lambda>parity.
      bindR (sameCanonical E (getp terminal ''exactSourceParity'') parity m) (\<lambda>_.
        requireC (hasNumber terminal [(''largeFixtureAverageBytesPerLine'', 262527), (''largeFixtureLineCount'', 4),
                                      (''largeFixtureSize'', 1050108)]
          \<and> hasText terminal [(''largeFixtureSha256'', ''a62cb7a2da7169d4a075a92fcb05251685b068ad1d3379501c01b09a035fbec3'')]) m)))))"

section \<open>All terminal checks\<close>

definition validateTerminalSemantics ::
  "jsenv \<Rightarrow> host_runtime \<Rightarrow> jsval \<Rightarrow> jsval js_map \<Rightarrow> pass_context \<Rightarrow> cexn + unit" where
  "validateTerminalSemantics E host ev terminalById ctx =
     (let named = (\<lambda>name. lookup_check terminalById (js name)); environment = getp ev ''environment''; source = getp ev ''source'' in
      bindR (validateExactTerminalShapes E ev terminalById) (\<lambda>_.
      bindR (validateExecutionEnvironmentSemantics E host ev ctx) (\<lambda>_.
      bindR (sameCanonical E (getp (named ''R016-REPOSITORY-USE'') ''context'') (getp (getp ev ''inputs'') ''repositoryUse'')
               ''repository use terminal is inconsistent'') (\<lambda>_.
      bindR (each (\<lambda>k. sameCanonical E (getp (named ''R016-EXECUTION-ENVIRONMENT'') k) (getp environment k)
                         ''execution terminal is inconsistent'') [''runtime'', ''docker'', ''executables'']) (\<lambda>_.
      bindR (requireC (list_all (\<lambda>k. strict_eq (getp (named ''R016-SOURCE-SEAL'') k) (getp source k)) [''head'', ''tree''])
               ''source seal terminal is inconsistent'') (\<lambda>_.
      bindR (requireC (hasText (named ''R016-DB-SEAL'') [(''detail'', ''offline scan database bytes match the pre-scan seal'')])
               ''database seal terminal is invalid'') (\<lambda>_.
      bindR (requireC (hasText (named ''R016-GATE'') [(''detail'', ''all required controls passed in the same run'')])
               ''gate terminal is invalid'') (\<lambda>_.
      bindR (requireC (hasNumber (named ''R016-OSV-MISSING-DB-NEGATIVE'') [(''rawExit'', 127)]
                \<and> strict_eq (getp (named ''R016-OSV-MISSING-DB-NEGATIVE'') ''stderrSha256'')
                    (getp (named ''R016-OSV-MISSING-DB-NEGATIVE'') ''stderrRawSha256''))
               ''missing-database terminal semantics are invalid'') (\<lambda>_.
      bindR (each (vulnerabilityCanary E terminalById) vulnerabilityCanaries) (\<lambda>_.
      bindR (goAdvisoryCanary (named ''R016-OSV-GO-ADVISORY-CANARY'')) (\<lambda>_.
      bindR (goTransitiveCanary E (named ''R016-OSV-GO-TRANSITIVE-CANARY'')) (\<lambda>_.
      bindR (goLicenseCanary E (named ''R016-OSV-GO-LICENSE-DENIED-CANARY'')) (\<lambda>_.
      bindR (each (licenseCanary E terminalById) licenseCanaries) (\<lambda>_.
      bindR (vulnerabilityTerminal E (named ''R016-VULNERABILITY'') ev ctx) (\<lambda>_.
      bindR (licenseTerminal E (named ''R016-LICENSE'') ev ctx) (\<lambda>_.
      bindR (sastTerminal E (named ''R016-SAST'') ev) (\<lambda>_.
        sastNegativeTerminal E (named ''R016-SAST-NEGATIVE''))))))))))))))))))"

end
