(* ===== verification/Evidence_Pass.thy ===== *)
theory Evidence_Pass
  imports Evidence_Terminals
begin

text \<open>
  \<^verbatim>\<open>validateRequiredProcessChecks\<close>, \<^verbatim>\<open>validatePassEvidence\<close> and \<^verbatim>\<open>validateEvidenceDocument\<close> of
  \<^verbatim>\<open>src/scripts/supply-chain/contracts.mjs\<close>: the inventory of recorded processes, the rules of a passing
  document in the order of the code, and the validator of a whole document.
\<close>

section \<open>Required processes\<close>

definition PASS_REQUIRED_PROCESS_IDS :: "string list" where
  "PASS_REQUIRED_PROCESS_IDS =
     [''PROCESS-GIT-TOP-LEVEL'', ''PROCESS-GIT-DIRECTORY'', ''PROCESS-GIT-HEAD'', ''PROCESS-GIT-TREE'', ''PROCESS-GIT-BRANCH'',
      ''PROCESS-GIT-STATUS'', ''PROCESS-GIT-INDEX'', ''PROCESS-GIT-INDEX-FLAGS'', ''PROCESS-DOCKER-VERSION'',
      ''PROCESS-OSV-SCANNER-PULL'', ''PROCESS-OSV-SCANNER-INSPECT'', ''PROCESS-OSV-SCANNER-INDEX'', ''PROCESS-OSV-SCANNER-VERSION'',
      ''PROCESS-SEMGREP-CE-PULL'', ''PROCESS-SEMGREP-CE-INSPECT'', ''PROCESS-SEMGREP-CE-INDEX'', ''PROCESS-SEMGREP-CE-VERSION'',
      ''PROCESS-GO-TOOLCHAIN-PULL'', ''PROCESS-GO-TOOLCHAIN-INSPECT'', ''PROCESS-GO-TOOLCHAIN-INDEX'', ''PROCESS-GO-TOOLCHAIN-VERSION'',
      ''PROCESS-RULES-GIT-INIT'', ''PROCESS-RULES-GIT-REMOTE'', ''PROCESS-RULES-GIT-FETCH'', ''PROCESS-RULES-COMMIT'',
      ''PROCESS-RULES-TREE'', ''PROCESS-OSV-MISSING-DATABASE-NEGATIVE'', ''PROCESS-OSV-VULNERABILITY-CANARY'',
      ''PROCESS-OSV-VULNERABILITY-DEVELOPMENT-CANARY'', ''PROCESS-OSV-GO-ADVISORY-CANARY'', ''PROCESS-OSV-GO-TRANSITIVE-CANARY'',
      ''PROCESS-GO-MOD-EDIT-TRANSITIVE-CANARY'', ''PROCESS-GO-LIST-TRANSITIVE-CANARY'', ''PROCESS-OSV-GO-LICENSE-DENIED-CANARY'',
      ''PROCESS-OSV-LICENSE-DENIED-CANARY'', ''PROCESS-OSV-LICENSE-UNKNOWN-CANARY'', ''PROCESS-OSV-DATABASE-ZIP-VALIDATION'',
      ''PROCESS-OSV-VULNERABILITY'', ''PROCESS-OSV-LICENSE'', ''PROCESS-SEMGREP-REPOSITORY'', ''PROCESS-SEMGREP-BLOCKING-FIXTURES'',
      ''PROCESS-GIT-TOP-LEVEL-FINAL'', ''PROCESS-GIT-DIRECTORY-FINAL'', ''PROCESS-GIT-HEAD-FINAL'', ''PROCESS-GIT-TREE-FINAL'',
      ''PROCESS-GIT-STATUS-FINAL'', ''PROCESS-GIT-INDEX-FINAL'', ''PROCESS-GIT-INDEX-FLAGS-FINAL'']"

definition SPLIT_CONTROL_SOURCE_PROCESS_IDS :: "string list" where
  "SPLIT_CONTROL_SOURCE_PROCESS_IDS =
     [''PROCESS-GIT-CONTROL-TOP-LEVEL'', ''PROCESS-GIT-CONTROL-DIRECTORY'', ''PROCESS-GIT-CONTROL-HEAD'', ''PROCESS-GIT-CONTROL-TREE'',
      ''PROCESS-GIT-CONTROL-BRANCH'', ''PROCESS-GIT-CONTROL-STATUS'', ''PROCESS-GIT-CONTROL-INDEX'', ''PROCESS-GIT-CONTROL-INDEX-FLAGS'',
      ''PROCESS-GIT-CONTROL-TOP-LEVEL-FINAL'', ''PROCESS-GIT-CONTROL-DIRECTORY-FINAL'', ''PROCESS-GIT-CONTROL-HEAD-FINAL'',
      ''PROCESS-GIT-CONTROL-TREE-FINAL'', ''PROCESS-GIT-CONTROL-STATUS-FINAL'', ''PROCESS-GIT-CONTROL-INDEX-FINAL'',
      ''PROCESS-GIT-CONTROL-INDEX-FLAGS-FINAL'']"

text \<open>\<^verbatim>\<open>[A-Z0-9._-]\<close>\<close>

definition id_char :: "nat \<Rightarrow> bool" where
  "id_char c \<longleftrightarrow> is_upper c \<or> is_digit c \<or> c = 46 \<or> c = 95 \<or> c = 45"

definition id_with_prefix :: "string \<Rightarrow> jstring \<Rightarrow> bool" where
  "id_with_prefix prefix s \<longleftrightarrow>
     starts_with s (js prefix) \<and> drop (length prefix) s \<noteq> [] \<and> list_all id_char (drop (length prefix) s)"

text \<open>\<^verbatim>\<open>/^(PROCESS-[A-Z0-9._-]+)-CLEANUP-(?:BEFORE|AFTER|REMOVE)$/u\<close> and its group.\<close>

definition cleanup_parent :: "jstring \<Rightarrow> jstring option" where
  "cleanup_parent s =
     (case cleanup_phase s of
        None \<Rightarrow> None
      | Some phase \<Rightarrow>
          let parent = take (length s - length (''-CLEANUP-'' @ phase)) s in
          if id_with_prefix ''PROCESS-'' parent then Some parent else None)"

definition dynamic_process :: "jstring \<Rightarrow> bool" where
  "dynamic_process s \<longleftrightarrow>
     list_ex (\<lambda>p. blob_id p s) [''PROCESS-GIT-BLOB-'', ''PROCESS-GIT-CONTROL-BLOB-'', ''PROCESS-RULE-BLOB-'']
     \<or> list_ex (\<lambda>p. id_with_prefix p s) [''PROCESS-GO-MOD-EDIT-'', ''PROCESS-GO-LIST-'']
     \<or> cleanup_parent s \<noteq> None"

definition id_of :: "jsval \<Rightarrow> jstring" where
  "id_of check = text_of (getp check ''id'')"

text \<open>\<^verbatim>\<open>id.includes("-CLEANUP-")\<close>\<close>

definition is_cleanup_id :: "jstring \<Rightarrow> bool" where
  "is_cleanup_id s \<longleftrightarrow> list_ex (\<lambda>i. starts_with (drop i s) (js ''-CLEANUP-'')) [0..<length s]"

text \<open>A container run that is no cleanup itself.\<close>

definition containerRun :: "jsenv \<Rightarrow> jsval \<Rightarrow> bool" where
  "containerRun E check \<longleftrightarrow>
     program_named E (text_of (getp check ''command'')) ''docker'' \<and> is_str (argument_at check 0) ''run''
     \<and> \<not> is_cleanup_id (id_of check)"

definition cleanupIds :: "jsenv \<Rightarrow> jsval list \<Rightarrow> jstring list" where
  "cleanupIds E processChecks =
     concat (map (\<lambda>c. if containerRun E c then map (\<lambda>phase. id_of c @ js (''-CLEANUP-'' @ phase)) [''BEFORE'', ''AFTER''] else [])
       processChecks)"

definition requiredProcessIds :: "jsval \<Rightarrow> jstring list" where
  "requiredProcessIds ev =
     map js (PASS_REQUIRED_PROCESS_IDS
       @ (if is_str (getp (getp (getp ev ''inputs'') ''controlPlane'') ''mode'') ''split-root''
          then SPLIT_CONTROL_SOURCE_PROCESS_IDS else []))"

definition requiredProcess ::
  "jsenv \<Rightarrow> jstring \<Rightarrow> jstring list \<Rightarrow> jsval \<Rightarrow> pass_context \<Rightarrow> jsval \<Rightarrow> cexn + unit" where
  "requiredProcess E cwd required ev ctx check =
     bindR (requireC (id_of check \<in> set required \<or> dynamic_process (id_of check)) ''unsupported process check'') (\<lambda>_.
     bindR (validateProcessCommandShape E cwd (process_of check) (getp ev ''inputs'') (elements_in (getp ev ''rawArtifacts''))
              (roots_of ctx)) (\<lambda>_.
       requireC (getp check ''rawExit'' \<in> set (map (\<lambda>r. JNum (Fin r)) (acceptedProcessRawExits (id_of check))))
         ''raw exit is invalid''))"

definition processes_named :: "string \<Rightarrow> jsval list \<Rightarrow> nat" where
  "processes_named prefix processChecks =
     length (filter (\<lambda>c. id_with_prefix prefix (id_of c) \<and> \<not> is_cleanup_id (id_of c)) processChecks)"

definition blobs_named :: "string \<Rightarrow> jsval list \<Rightarrow> nat" where
  "blobs_named prefix processChecks = length (filter (\<lambda>c. blob_id prefix (id_of c)) processChecks)"

definition dynamicInventory :: "jsval \<Rightarrow> jsval list \<Rightarrow> bool" where
  "dynamicInventory inputs processChecks \<longleftrightarrow>
     (let goCount = length (elements_in (getp inputs ''go'')) in
      blobs_named ''PROCESS-GIT-BLOB-'' processChecks \<noteq> 0 \<and> blobs_named ''PROCESS-GIT-CONTROL-BLOB-'' processChecks \<noteq> 0
      \<and> blobs_named ''PROCESS-RULE-BLOB-'' processChecks = length (elements_in (getp (getp inputs ''semgrepRules'') ''files''))
      \<and> processes_named ''PROCESS-GO-MOD-EDIT-'' processChecks = goCount + 1
      \<and> processes_named ''PROCESS-GO-LIST-'' processChecks = goCount + 1)"

definition processTerminals :: "(string \<times> string) list" where
  "processTerminals =
     [(''PROCESS-OSV-MISSING-DATABASE-NEGATIVE'', ''R016-OSV-MISSING-DB-NEGATIVE''),
      (''PROCESS-OSV-VULNERABILITY-CANARY'', ''R016-OSV-VULNERABILITY-CANARY''),
      (''PROCESS-OSV-VULNERABILITY-DEVELOPMENT-CANARY'', ''R016-OSV-VULNERABILITY-DEVELOPMENT-CANARY''),
      (''PROCESS-OSV-GO-ADVISORY-CANARY'', ''R016-OSV-GO-ADVISORY-CANARY''),
      (''PROCESS-OSV-GO-TRANSITIVE-CANARY'', ''R016-OSV-GO-TRANSITIVE-CANARY''),
      (''PROCESS-OSV-GO-LICENSE-DENIED-CANARY'', ''R016-OSV-GO-LICENSE-DENIED-CANARY''),
      (''PROCESS-OSV-LICENSE-DENIED-CANARY'', ''R016-OSV-LICENSE-DENIED-CANARY''),
      (''PROCESS-OSV-LICENSE-UNKNOWN-CANARY'', ''R016-OSV-LICENSE-UNKNOWN-CANARY''),
      (''PROCESS-OSV-DATABASE-ZIP-VALIDATION'', ''R016-DB-ZIP''), (''PROCESS-OSV-VULNERABILITY'', ''R016-VULNERABILITY''),
      (''PROCESS-OSV-LICENSE'', ''R016-LICENSE''), (''PROCESS-SEMGREP-REPOSITORY'', ''R016-SAST''),
      (''PROCESS-SEMGREP-BLOCKING-FIXTURES'', ''R016-SAST-NEGATIVE'')]"

definition processTerminalPair ::
  "jsval js_map \<Rightarrow> jsval js_map \<Rightarrow> jsval list \<Rightarrow> string \<times> string \<Rightarrow> cexn + unit" where
  "processTerminalPair processById terminalById artifacts pair =
     (let processCheck = lookup_check processById (js (fst pair)); terminalCheck = lookup_check terminalById (js (snd pair)) in
      bindR (requireC (strict_eq (getp processCheck ''rawExit'') (getp terminalCheck ''rawExit'')) ''terminal raw exit does not match'') (\<lambda>_.
        validateTerminalArtifactReference terminalCheck processCheck artifacts))"

definition validateRequiredProcessChecks ::
  "jsenv \<Rightarrow> host_runtime \<Rightarrow> jstring \<Rightarrow> jsval list \<Rightarrow> jsval \<Rightarrow> pass_context \<Rightarrow> cexn + unit" where
  "validateRequiredProcessChecks E host cwd processChecks ev ctx =
     (let ids = map id_of processChecks; required = requiredProcessIds ev @ cleanupIds E processChecks;
          artifacts = elements_in (getp ev ''rawArtifacts''); processById = processByIdFrom processChecks;
          terminalById = processByIdFrom (terminal_checks ev) in
      bindR (each (\<lambda>k. requireC (k \<in> set ids) ''missing process check'') (requiredProcessIds ev)) (\<lambda>_.
      bindR (each (\<lambda>k. requireC (k \<in> set ids) ''missing cleanup process check'') (cleanupIds E processChecks)) (\<lambda>_.
      bindR (each (requiredProcess E cwd required ev ctx) processChecks) (\<lambda>_.
      bindR (each (\<lambda>k. requireC (case cleanup_parent k of None \<Rightarrow> True | Some parent \<Rightarrow> parent \<in> set ids)
                         ''cleanup process has no scanner process'') ids) (\<lambda>_.
      bindR (validateCleanupProcessRelationships E processChecks artifacts) (\<lambda>_.
      bindR (requireC (dynamicInventory (getp ev ''inputs'') processChecks) ''dynamic process inventory is incomplete'') (\<lambda>_.
      bindR (validateDynamicBlobProcesses E cwd processChecks ev ctx) (\<lambda>_.
      bindR (validateSourceProcessSemantics E cwd processById ev ctx) (\<lambda>_.
      bindR (validateControlSourceProcessSemantics E cwd processById ev ctx) (\<lambda>_.
      bindR (each (processTerminalPair processById terminalById artifacts) processTerminals) (\<lambda>_.
        validateTerminalSemantics E host ev terminalById ctx)))))))))))"

section \<open>A passing document\<close>

definition PASS_INPUT_NAMES :: "string list" where
  "PASS_INPUT_NAMES = [''controlPlane'', ''configuration'', ''repositoryUse'', ''pnpm'', ''go'', ''semgrepSources'', ''semgrepRules'']"

definition passTool :: "jsenv \<Rightarrow> jsval \<Rightarrow> jsval \<Rightarrow> string \<Rightarrow> cexn + unit" where
  "passTool E ev context name =
     (let tool = getp (getp ev ''tools'') name in
      bindR (validateEvidenceTool E tool name (getp context ''configuration'')) (\<lambda>_.
        validateToolExecutionEvidence E tool name ev (getp (getp context ''toolExecutionSeals'') name)))"

definition validatePassEvidence ::
  "jsenv \<Rightarrow> host_runtime \<Rightarrow> jstring \<Rightarrow> jsval \<Rightarrow> jstring list \<Rightarrow> pass_context \<Rightarrow> cexn + unit" where
  "validatePassEvidence E host cwd ev checkIds ctx =
     (let context = px_values ctx; configuration = getp context ''configuration''; artifacts = elements_in (getp ev ''rawArtifacts'') in
      bindR (validatePassValidationContext E ctx) (\<lambda>_.
      bindR (passChecks (elements_in (getp ev ''checks''))) (\<lambda>processChecks.
      bindR (validateTrustedEvidenceSeals E cwd ev processChecks ctx) (\<lambda>_.
      bindR (terminalsPresent checkIds) (\<lambda>_.
      bindR (assertExactObjectKeys E (getp ev ''inputs'') PASS_INPUT_NAMES) (\<lambda>_.
      bindR (validatePassInputs E (getp ev ''inputs'') ctx (getp (getp (getp ev ''environment'') ''runner'') ''GITHUB_ACTIONS'')) (\<lambda>_.
      bindR (validateRequiredProcessChecks E host cwd processChecks ev ctx) (\<lambda>_.
      bindR (assertExactObjectKeys E (getp ev ''tools'') PASS_TOOL_NAMES) (\<lambda>_.
      bindR (each (passTool E ev context) PASS_TOOL_NAMES) (\<lambda>_.
      bindR (validateEvidenceDatabases E (getp ev ''advisoryDatabases'') configuration) (\<lambda>_.
      bindR (validateDatabaseArchiveEvidence E (getp ev ''databaseArchiveValidation'') ev configuration) (\<lambda>_.
      bindR (validateDatabaseSealEvidence E (getp ev ''databaseSeal'') ev) (\<lambda>_.
      bindR (validateRawArtifactSeals E artifacts (map_entries (px_rawArtifactSeals ctx))) (\<lambda>_.
        requireC (artifacts \<noteq> []) ''must contain raw artifacts''))))))))))))))"

text \<open>The whole validator.\<close>

definition validateEvidenceDocument ::
  "jsenv \<Rightarrow> webenv \<Rightarrow> host_runtime \<Rightarrow> jstring \<Rightarrow> nat \<Rightarrow> jsval \<Rightarrow> jsval \<Rightarrow> pass_context \<Rightarrow> cexn + unit" where
  "validateEvidenceDocument E W host cwd depth schema ev ctx =
     bindR (evidenceStructure E W depth schema ev) (\<lambda>(checkIds, _, _).
       if is_str (getp ev ''status'') ''PASS'' then validatePassEvidence E host cwd ev checkIds ctx else Inr ())"

end
