(* ===== verification/Evidence_Props.thy ===== *)
theory Evidence_Props
  imports Evidence Docker_Run_Props
begin

text \<open>
  What an accepted evidence document guarantees: its process checks and raw artifacts are linked one to
  one, and a passing document is the one the run sealed.
\<close>

section \<open>Loops\<close>

lemma each_Inr [simp]: "each f [] = Inr ()" "each f (x # xs) = bindR (f x) (\<lambda>_. each f xs)"
  by (simp_all add: each_def)

lemma each_iff: "each f xs = Inr u \<longleftrightarrow> list_all (\<lambda>x. f x = Inr ()) xs"
  by (induction xs) (auto simp: bindR_eq_Inr)

lemma checkEntry_Inr:
  "checkEntry (ids, ps) c = Inr st \<Longrightarrow> \<exists>pid. getp c ''id'' = JStr pid \<and> pid \<notin> set ids
     \<and> st = (ids @ [pid], if is_process_id pid then ps @ [c] else ps)
     \<and> (if is_process_id pid then processCommand c = Inr () else True)"
  by (auto simp: checkEntry_def bindR_eq_Inr needNonemptyString_def split: jsval.splits if_splits)

definition check_id :: "jsval \<Rightarrow> jstring" where
  "check_id c = text_of (getp c ''id'')"

definition process_checks :: "jsval list \<Rightarrow> jsval list" where
  "process_checks cs = filter (\<lambda>c. is_process_id (check_id c)) cs"

lemma checks_Inr:
  "foldR checkEntry ([], []) cs = Inr (ids, ps) \<Longrightarrow>
     ids = map check_id cs \<and> distinct ids \<and> ps = process_checks cs
     \<and> list_all (\<lambda>c. getp c ''id'' = JStr (check_id c)) cs \<and> list_all (\<lambda>c. processCommand c = Inr ()) ps"
proof (induction cs arbitrary: ids ps rule: rev_induct)
  case (snoc c cs)
  then obtain ids0 ps0 where s: "foldR checkEntry ([], []) cs = Inr (ids0, ps0)" "checkEntry (ids0, ps0) c = Inr (ids, ps)"
    by (auto simp: foldR_append bindR_eq_Inr)
  obtain pid where "getp c ''id'' = JStr pid" "pid \<notin> set ids0"
    "(ids, ps) = (ids0 @ [pid], if is_process_id pid then ps0 @ [c] else ps0)"
    "if is_process_id pid then processCommand c = Inr () else True"
    using checkEntry_Inr[OF s(2)] by blast
  then show ?case using snoc.IH[OF s(1)] by (auto simp: check_id_def text_of_def process_checks_def)
qed (simp add: process_checks_def)

lemma artifactEntry_Inr:
  "artifactEntry E arts a = Inr arts' \<Longrightarrow> \<exists>p. arts' = arts @ [(p, a)] \<and> p \<notin> fst ` set arts \<and> getp a ''path'' = JStr p
     \<and> (is_str (getp a ''stream'') ''stdout'' \<or> is_str (getp a ''stream'') ''stderr'')"
  unfolding artifactEntry_def Let_def bindR_eq_Inr requireC_Inr
  by (elim exE conjE) (auto simp: validateRepositoryPath_def text_of_def split: jsval.splits)

lemma artifacts_Inr:
  "foldR (artifactEntry E) [] xs = Inr arts \<Longrightarrow> map snd arts = xs \<and> distinct (map fst arts)
     \<and> list_all (\<lambda>(p, a). getp a ''path'' = JStr p
          \<and> (is_str (getp a ''stream'') ''stdout'' \<or> is_str (getp a ''stream'') ''stderr'')) arts"
proof (induction xs arbitrary: arts rule: rev_induct)
  case (snoc a xs)
  then obtain arts0 where s: "foldR (artifactEntry E) [] xs = Inr arts0" "artifactEntry E arts0 a = Inr arts"
    by (auto simp: foldR_append bindR_eq_Inr)
  show ?case using snoc.IH[OF s(1)] artifactEntry_Inr[OF s(2)] by (auto simp: list_all_iff)
qed simp

section \<open>Linkage\<close>

text \<open>A check owns one artifact for each of its streams.\<close>

definition owns :: "(jstring \<times> jsval) list \<Rightarrow> jsval \<Rightarrow> jstring \<Rightarrow> string \<Rightarrow> bool" where
  "owns arts check p stream \<longleftrightarrow>
     (\<exists>a. map_of arts p = Some a \<and> strict_eq (getp a ''processId'') (getp check ''id'') \<and> is_str (getp a ''stream'') stream)"

definition linked :: "(jstring \<times> jsval) list \<Rightarrow> jsval \<Rightarrow> bool" where
  "linked arts check \<longleftrightarrow>
     (\<exists>p q. mset (artifact_names check) = {#p, q#} \<and> owns arts check p ''stdout'' \<and> owns arts check q ''stderr'')"

lemma linkArtifact_Inr: "linkArtifact arts check (ref, ss) n = Inr st \<longleftrightarrow>
    (\<exists>a. map_of arts n = Some a \<and> strict_eq (getp a ''processId'') (getp check ''id'') \<and> n \<notin> set ref
       \<and> st = (ref @ [n], ss @ [getp a ''stream'']))"
  by (auto simp: bindR_eq_Inr linkArtifact_def split: option.splits)

lemma linkArtifacts_Inr:
  "foldR (linkArtifact arts check) (ref, ss) names = Inr (ref', ss') \<Longrightarrow> distinct ref \<Longrightarrow> set ref \<subseteq> fst ` set arts \<Longrightarrow>
     ref' = ref @ names \<and> distinct ref' \<and> set ref' \<subseteq> fst ` set arts
     \<and> (\<exists>as. ss' = ss @ map (\<lambda>a. getp a ''stream'') as
          \<and> list_all2 (\<lambda>n a. map_of arts n = Some a \<and> strict_eq (getp a ''processId'') (getp check ''id'')) names as)"
proof (induction names arbitrary: ref ss)
  case (Cons n names)
  then obtain a where a: "map_of arts n = Some a" "strict_eq (getp a ''processId'') (getp check ''id'')" "n \<notin> set ref"
    "foldR (linkArtifact arts check) (ref @ [n], ss @ [getp a ''stream'']) names = Inr (ref', ss')"
    by (auto simp: bindR_eq_Inr linkArtifact_Inr)
  have "n \<in> fst ` set arts" using a(1) by (metis fst_conv image_eqI map_of_SomeD)
  then obtain as where as: "ref' = (ref @ [n]) @ names" "distinct ref'" "set ref' \<subseteq> fst ` set arts"
    "ss' = (ss @ [getp a ''stream'']) @ map (\<lambda>a. getp a ''stream'') as"
    "list_all2 (\<lambda>n a. map_of arts n = Some a \<and> strict_eq (getp a ''processId'') (getp check ''id'')) names as"
    using Cons.IH[OF a(4)] Cons.prems(2,3) a(3) by auto
  show ?case using as a(1,2) by (auto intro!: exI[of _ "a # as"])
qed simp

lemma processCommand_names: "processCommand c = Inr () \<Longrightarrow> length (artifact_names c) = 2"
  by (auto simp: processCommand_def bindR_eq_Inr Let_def artifact_names_def)

lemma linkCheck_Inr:
  assumes "linkCheck arts ref c = Inr ref'" "distinct ref" "set ref \<subseteq> fst ` set arts" "length (artifact_names c) = 2"
  shows "ref' = ref @ artifact_names c \<and> distinct ref' \<and> set ref' \<subseteq> fst ` set arts \<and> linked arts c"
proof -
  obtain ss where s: "foldR (linkArtifact arts c) (ref, []) (artifact_names c) = Inr (ref', ss)"
    "JStr (js ''stdout'') \<in> set ss" "JStr (js ''stderr'') \<in> set ss"
    using assms(1) by (auto simp: linkCheck_def bindR_eq_Inr split: prod.splits)
  obtain as where as: "ref' = ref @ artifact_names c" "distinct ref'" "set ref' \<subseteq> fst ` set arts"
    "ss = map (\<lambda>a. getp a ''stream'') as"
    "list_all2 (\<lambda>n a. map_of arts n = Some a \<and> strict_eq (getp a ''processId'') (getp c ''id'')) (artifact_names c) as"
    using linkArtifacts_Inr[OF s(1) assms(2,3)] by auto
  obtain p q where n: "artifact_names c = [p, q]" using assms(4) by (auto simp: length_Suc_conv numeral_2_eq_2)
  obtain a b where ab: "as = [a, b]" "map_of arts p = Some a" "map_of arts q = Some b"
    "strict_eq (getp a ''processId'') (getp c ''id'')" "strict_eq (getp b ''processId'') (getp c ''id'')"
    using as(5) by (auto simp: n list_all2_Cons1)
  have "JStr (js ''stdout'') \<noteq> JStr (js ''stderr'')" by simp
  moreover have "JStr (js ''stdout'') \<in> {getp a ''stream'', getp b ''stream''}"
    "JStr (js ''stderr'') \<in> {getp a ''stream'', getp b ''stream''}" using s(2,3) by (simp_all add: as(4) ab(1))
  ultimately have "(getp a ''stream'' = JStr (js ''stdout'') \<and> getp b ''stream'' = JStr (js ''stderr''))
      \<or> (getp b ''stream'' = JStr (js ''stdout'') \<and> getp a ''stream'' = JStr (js ''stderr''))"
    by (metis insert_iff singletonD)
  then have "linked arts c"
  proof
    assume "getp a ''stream'' = JStr (js ''stdout'') \<and> getp b ''stream'' = JStr (js ''stderr'')"
    then show ?thesis using ab n unfolding linked_def owns_def is_str_def by (intro exI[of _ p] exI[of _ q]) auto
  next
    assume "getp b ''stream'' = JStr (js ''stdout'') \<and> getp a ''stream'' = JStr (js ''stderr'')"
    then show ?thesis using ab n unfolding linked_def owns_def is_str_def by (intro exI[of _ q] exI[of _ p]) auto
  qed
  then show ?thesis using as by simp
qed

lemma linkChecks_Inr:
  "foldR (linkCheck arts) [] cs = Inr ref \<Longrightarrow> list_all (\<lambda>c. length (artifact_names c) = 2) cs \<Longrightarrow>
     ref = concat (map artifact_names cs) \<and> distinct ref \<and> set ref \<subseteq> fst ` set arts \<and> list_all (linked arts) cs"
proof (induction cs arbitrary: ref rule: rev_induct)
  case (snoc c cs)
  then obtain ref0 where r: "foldR (linkCheck arts) [] cs = Inr ref0" "linkCheck arts ref0 c = Inr ref"
    by (auto simp: foldR_append bindR_eq_Inr)
  have "ref0 = concat (map artifact_names cs) \<and> distinct ref0 \<and> set ref0 \<subseteq> fst ` set arts \<and> list_all (linked arts) cs"
    by (rule snoc.IH[OF r(1)]) (use snoc.prems(2) in simp)
  then have ih: "ref0 = concat (map artifact_names cs)" "distinct ref0" "set ref0 \<subseteq> fst ` set arts"
    "list_all (linked arts) cs" by blast+
  have two: "length (artifact_names c) = 2" using snoc.prems(2) by simp
  note last = linkCheck_Inr[OF r(2) ih(2,3) two]
  have "ref = concat (map artifact_names (cs @ [c]))" using last ih(1) by simp
  moreover have "list_all (linked arts) (cs @ [c])" using last ih(4) by simp
  ultimately show ?case using last by blast
qed simp

definition linkage_exact :: "jsval list \<Rightarrow> (jstring \<times> jsval) list \<Rightarrow> bool" where
  "linkage_exact checks arts \<longleftrightarrow>
     distinct (map fst arts) \<and> mset (map fst arts) = mset (concat (map artifact_names checks)) \<and> list_all (linked arts) checks"

lemma linkage_Inr:
  assumes "validateProcessArtifactLinkage cs arts = Inr u" "distinct (map fst arts)"
    "list_all (\<lambda>c. processCommand c = Inr ()) cs"
  shows "linkage_exact cs arts"
proof -
  obtain ref where r: "foldR (linkCheck arts) [] cs = Inr ref" "length ref = length arts"
    using assms(1) by (auto simp: validateProcessArtifactLinkage_def bindR_eq_Inr)
  have two: "list_all (\<lambda>c. length (artifact_names c) = 2) cs"
    using assms(3) processCommand_names by (auto simp: list_all_iff)
  have ref: "ref = concat (map artifact_names cs)" "distinct ref" "set ref \<subseteq> set (map fst arts)" "list_all (linked arts) cs"
    using linkChecks_Inr[OF r(1) two] unfolding set_map by blast+
  have "card (set ref) = card (set (map fst arts))"
    using distinct_card[OF ref(2)] distinct_card[OF assms(2)] r(2) by simp
  then have "set ref = set (map fst arts)" using ref(3) by (intro card_subset_eq) auto
  then have "mset ref = mset (map fst arts)" using ref(2) assms(2) set_eq_iff_mset_eq_distinct by blast
  then show ?thesis using ref assms(2) by (simp add: linkage_exact_def)
qed

lemma evidenceStructure_Inr:
  assumes "evidenceStructure E W depth schema ev = Inr (ids, ps, arts)"
  shows "statusIdentity E ev = Inr ()"
    "ids = map check_id (elements_in (getp ev ''checks''))" "distinct ids"
    "ps = process_checks (elements_in (getp ev ''checks''))"
    "list_all (\<lambda>c. getp c ''id'' = JStr (check_id c)) (elements_in (getp ev ''checks''))"
    "map snd arts = elements_in (getp ev ''rawArtifacts'')" "distinct (map fst arts)"
    "list_all (\<lambda>(p, a). getp a ''path'' = JStr p
          \<and> (is_str (getp a ''stream'') ''stdout'' \<or> is_str (getp a ''stream'') ''stderr'')) arts"
    "linkage_exact ps arts"
proof -
  have c: "statusIdentity E ev = Inr ()" "foldR checkEntry ([], []) (elements_in (getp ev ''checks'')) = Inr (ids, ps)"
    "foldR (artifactEntry E) [] (elements_in (getp ev ''rawArtifacts'')) = Inr arts"
    "validateProcessArtifactLinkage ps arts = Inr ()"
    using assms unfolding evidenceStructure_def by (auto simp: bindR_eq_Inr split: prod.splits)
  note checks = checks_Inr[OF c(2)] and artifacts = artifacts_Inr[OF c(3)]
  show "statusIdentity E ev = Inr ()" by (rule c(1))
  show "ids = map check_id (elements_in (getp ev ''checks''))" "distinct ids"
    "ps = process_checks (elements_in (getp ev ''checks''))"
    "list_all (\<lambda>c. getp c ''id'' = JStr (check_id c)) (elements_in (getp ev ''checks''))" using checks by blast+
  show "map snd arts = elements_in (getp ev ''rawArtifacts'')" "distinct (map fst arts)"
    "list_all (\<lambda>(p, a). getp a ''path'' = JStr p
          \<and> (is_str (getp a ''stream'') ''stdout'' \<or> is_str (getp a ''stream'') ''stderr'')) arts" using artifacts by blast+
  show "linkage_exact ps arts" by (rule linkage_Inr[OF c(4)]) (use checks artifacts in blast)+
qed

text \<open>C40: in every accepted document the check identifiers are pairwise different, and the raw artifacts
  are exactly the artifacts of the process checks: every artifact is named by one process check and by
  one only, carries its identifier, and each process check has one artifact for standard output and one
  for standard error.\<close>

theorem evidence_artifacts_are_linked_exactly:
  "case evidenceStructure E W depth schema ev of
     Inl _ \<Rightarrow> True
   | Inr (checkIds, processChecks, artifactsByPath) \<Rightarrow>
       distinct checkIds \<and> checkIds = map check_id (elements_in (getp ev ''checks''))
       \<and> processChecks = process_checks (elements_in (getp ev ''checks''))
       \<and> map snd artifactsByPath = elements_in (getp ev ''rawArtifacts'')
       \<and> linkage_exact processChecks artifactsByPath"
proof (cases "evidenceStructure E W depth schema ev")
  case (Inr r)
  obtain ids ps arts where r: "r = (ids, ps, arts)" by (cases r)
  have s: "evidenceStructure E W depth schema ev = Inr (ids, ps, arts)" using Inr r by simp
  show ?thesis using evidenceStructure_Inr[OF s] unfolding Inr r sum.case prod.case by blast
qed simp

end
