(* ===== verification/Evidence_Pass_Props.thy ===== *)
theory Evidence_Pass_Props
  imports Evidence_Pass Evidence_Props Docker_Run_Sample
begin

text \<open>
  What an accepted evidence document guarantees.  A passing document holds exactly the checks, terminal
  checks and raw artifacts that the run sealed; every recorded container run is the locked one and is
  cleaned up; the negative controls failed and the scans succeeded as they have to; the blobs read from git
  are exactly those of the inputs.
\<close>

section \<open>Sealed inventories\<close>

text \<open>The values are those of the seals, one for each key, with the same canonical text.\<close>

definition sealed_exactly :: "jsenv \<Rightarrow> jsval js_map \<Rightarrow> (jsval \<Rightarrow> jstring) \<Rightarrow> jsval list \<Rightarrow> bool" where
  "sealed_exactly E seals key vs \<longleftrightarrow>
     distinct (map key vs) \<and> set (map fst seals) = set (map key vs)
     \<and> list_all (\<lambda>v. \<exists>s t. map_of seals (key v) = Some s \<and> canonR E v = Inr t \<and> canonR E s = Inr t) vs"

lemma sameCanonical_Inr: "sameCanonical E v w m = Inr u \<longleftrightarrow> (\<exists>t. canonR E v = Inr t \<and> canonR E w = Inr t)"
  by (auto simp: sameCanonical_def bindR_eq_Inr)

lemma sealedBy_Inr:
  "sealedBy E seals k v = Inr u \<Longrightarrow> \<exists>s t. map_of seals k = Some s \<and> canonR E v = Inr t \<and> canonR E s = Inr t"
  by (auto simp: sealedBy_def sameCanonical_Inr split: option.splits)

lemma sealed_exactlyI:
  assumes "map_size seals = length vs" "distinct (map key vs)" "list_all (\<lambda>v. sealedBy E seals (key v) v = Inr ()) vs"
  shows "sealed_exactly E seals key vs"
proof -
  have s: "list_all (\<lambda>v. \<exists>s t. map_of seals (key v) = Some s \<and> canonR E v = Inr t \<and> canonR E s = Inr t) vs"
    using assms(3) sealedBy_Inr[of E seals] by (fastforce simp: list_all_iff)
  have sub: "set (map key vs) \<subseteq> set (map fst seals)" using s by (force simp: list_all_iff dest: map_of_SomeD)
  have "card (set (map fst seals)) = length (uniq (map fst seals))"
    using distinct_card[OF distinct_uniq, of "map fst seals"] by simp
  then have "card (set (map fst seals)) = card (set (map key vs))"
    using assms(1) distinct_card[OF assms(2)] by (simp add: map_size_def)
  then have "set (map key vs) = set (map fst seals)" using sub by (intro card_subset_eq) auto
  then show ?thesis using s assms(2) by (simp add: sealed_exactly_def)
qed

section \<open>The checks of a passing document\<close>

definition recorded_cleanly :: "jsval \<Rightarrow> bool" where
  "recorded_cleanly c \<longleftrightarrow> is_str (getp c ''status'') ''RECORDED'' \<and> getp c ''timedOut'' = JBool False
     \<and> getp c ''outputLimitExceeded'' = JBool False \<and> getp c ''signal'' = JNull"

definition verdict_checks :: "jsval list \<Rightarrow> jsval list" where
  "verdict_checks cs = filter (\<lambda>c. \<not> is_process_id (check_id c)) cs"

lemma passCheck_Inr:
  "passCheck ps c = Inr ps' \<longleftrightarrow>
     (if is_process_id (check_id c) then recorded_cleanly c \<and> ps' = ps @ [c]
      else check_id c \<in> set (map js PASS_TERMINAL_CHECK_IDS) \<and> is_str (getp c ''status'') ''PASS'' \<and> ps' = ps)"
  by (auto simp: passCheck_def check_id_def recorded_cleanly_def bindR_eq_Inr)

lemma passChecks_fold:
  "foldR passCheck qs cs = Inr ps \<longleftrightarrow>
     ps = qs @ process_checks cs \<and> list_all recorded_cleanly (process_checks cs)
     \<and> list_all (\<lambda>c. check_id c \<in> set (map js PASS_TERMINAL_CHECK_IDS) \<and> is_str (getp c ''status'') ''PASS'') (verdict_checks cs)"
  by (induction cs arbitrary: qs) (auto simp: bindR_eq_Inr passCheck_Inr process_checks_def verdict_checks_def)

lemma passChecks_Inr:
  "passChecks cs = Inr ps \<Longrightarrow> ps = process_checks cs \<and> list_all recorded_cleanly ps
     \<and> list_all (\<lambda>c. check_id c \<in> set (map js PASS_TERMINAL_CHECK_IDS) \<and> is_str (getp c ''status'') ''PASS'') (verdict_checks cs)"
  by (auto simp: passChecks_def bindR_eq_Inr passChecks_fold)

lemma terminal_ids: "distinct PASS_TERMINAL_CHECK_IDS"
  "list_all (\<lambda>n. starts_with (js n) (js ''R016-'') \<and> \<not> is_process_id (js n)) PASS_TERMINAL_CHECK_IDS"
  by code_simp+

lemma terminal_id:
  "k \<in> set (map js PASS_TERMINAL_CHECK_IDS) \<Longrightarrow> starts_with k (js ''R016-'') \<and> \<not> is_process_id k"
  using terminal_ids(2) by (auto simp: list_all_iff)

lemma process_id_prefix: "is_process_id k \<Longrightarrow> \<not> starts_with k (js ''R016-'')"
proof -
  have p: "js ''PROCESS-'' = [80, 82, 79, 67, 69, 83, 83, 45]" "js ''R016-'' = [82, 48, 49, 54, 45]" by code_simp+
  show "is_process_id k \<Longrightarrow> \<not> starts_with k (js ''R016-'')"
    by (cases k) (simp_all add: is_process_id_def starts_with_def p)
qed

lemma terminal_checks_eq:
  assumes "list_all (\<lambda>c. check_id c \<in> set (map js PASS_TERMINAL_CHECK_IDS) \<and> P c) (verdict_checks (elements_in (getp ev ''checks'')))"
  shows "terminal_checks ev = verdict_checks (elements_in (getp ev ''checks''))"
proof -
  have "starts_with (check_id c) (js ''R016-'') \<longleftrightarrow> \<not> is_process_id (check_id c)" if "c \<in> set (elements_in (getp ev ''checks''))" for c
    using assms that process_id_prefix terminal_id by (fastforce simp: list_all_iff verdict_checks_def)
  then show ?thesis by (auto simp: terminal_checks_def verdict_checks_def check_id_def intro!: filter_cong)
qed

lemma split_checks: "mset cs = mset (process_checks cs) + mset (verdict_checks cs)"
  by (simp add: process_checks_def verdict_checks_def)

text \<open>Every terminal check is there, and there once.\<close>

lemma verdict_ids:
  assumes "distinct (map check_id cs)" "terminalsPresent (map check_id cs) = Inr u"
    "list_all (\<lambda>c. check_id c \<in> set (map js PASS_TERMINAL_CHECK_IDS)) (verdict_checks cs)"
  shows "mset (map check_id (verdict_checks cs)) = mset (map js PASS_TERMINAL_CHECK_IDS)"
proof -
  have d: "distinct (map check_id (verdict_checks cs))"
    using assms(1) by (auto simp: verdict_checks_def distinct_map inj_on_def)
  have all: "list_all (\<lambda>n. js n \<in> set (map check_id cs)) PASS_TERMINAL_CHECK_IDS"
    using assms(2) by (simp add: terminalsPresent_def each_iff)
  have "set (map js PASS_TERMINAL_CHECK_IDS) \<subseteq> set (map check_id (verdict_checks cs))"
  proof
    fix k assume k: "k \<in> set (map js PASS_TERMINAL_CHECK_IDS)"
    then obtain c where "c \<in> set cs" "k = check_id c" using all by (auto simp: list_all_iff)
    then show "k \<in> set (map check_id (verdict_checks cs))" using terminal_id[OF k] by (auto simp: verdict_checks_def)
  qed
  then have "set (map check_id (verdict_checks cs)) = set (map js PASS_TERMINAL_CHECK_IDS)"
    using assms(3) by (auto simp: list_all_iff)
  moreover have "distinct (map js PASS_TERMINAL_CHECK_IDS)" by code_simp
  ultimately show ?thesis using d set_eq_iff_mset_eq_distinct by blast
qed

section \<open>Accepted documents\<close>

lemma ex_unit: "(\<exists>x::unit. P x) \<longleftrightarrow> P ()"
  by (metis unit.exhaust)

lemma accepted_parts:
  assumes "validatePassEvidence E host cwd ev ids ctx = Inr u"
  obtains ps where "passChecks (elements_in (getp ev ''checks'')) = Inr ps" "validateTrustedEvidenceSeals E cwd ev ps ctx = Inr ()"
    "terminalsPresent ids = Inr ()" "validateRequiredProcessChecks E host cwd ps ev ctx = Inr ()"
    "validateDatabaseArchiveEvidence E (getp ev ''databaseArchiveValidation'') ev (getp (px_values ctx) ''configuration'') = Inr ()"
    "validateRawArtifactSeals E (elements_in (getp ev ''rawArtifacts'')) (map_entries (px_rawArtifactSeals ctx)) = Inr ()"
    "elements_in (getp ev ''rawArtifacts'') \<noteq> []"
  using assms unfolding validatePassEvidence_def Let_def bindR_eq_Inr requireC_Inr ex_unit by blast

text \<open>The facts about an accepted passing document that the properties share.\<close>

definition accepted_pass ::
  "jsenv \<Rightarrow> host_runtime \<Rightarrow> jstring \<Rightarrow> jsval \<Rightarrow> pass_context \<Rightarrow> bool" where
  "accepted_pass E host cwd ev ctx \<longleftrightarrow>
     (let cs = elements_in (getp ev ''checks'') in
      distinct (map check_id cs) \<and> list_all (\<lambda>c. getp c ''id'' = JStr (check_id c)) cs
      \<and> list_all (\<lambda>c. getp c ''arguments'' = strings (pc_arguments (process_of c))) (process_checks cs)
      \<and> validatePassEvidence E host cwd ev (map check_id cs) ctx = Inr ()
      \<and> validateRequiredProcessChecks E host cwd (process_checks cs) ev ctx = Inr ())"

lemma command_arguments: "processCommand c = Inr u \<Longrightarrow> getp c ''arguments'' = strings (pc_arguments (process_of c))"
proof -
  assume "processCommand c = Inr u"
  then have a: "Evidence.is_array (getp c ''arguments'')" "list_all is_text_value (elements_in (getp c ''arguments''))"
    unfolding processCommand_def Let_def bindR_eq_Inr requireC_Inr by blast+
  obtain xs where x: "getp c ''arguments'' = JArr xs" using a(1) by (auto simp: Evidence.is_array_def split: jsval.splits)
  have "map JStr (map text_of xs) = xs"
    using a(2) unfolding x elements_in_def by (induction xs) (auto simp: is_text_value_def text_of_def split: jsval.splits)
  then show ?thesis by (simp add: x strings_def process_of_def arguments_of_def elements_in_def)
qed

lemma accepted_document:
  assumes "validateEvidenceDocument E W host cwd depth schema ev ctx = Inr u" "is_str (getp ev ''status'') ''PASS''"
  shows "accepted_pass E host cwd ev ctx"
proof -
  obtain ids ps arts where s: "evidenceStructure E W depth schema ev = Inr (ids, ps, arts)"
    "validatePassEvidence E host cwd ev ids ctx = Inr ()"
    using assms by (auto simp: validateEvidenceDocument_def bindR_eq_Inr split: prod.splits)
  note st = evidenceStructure_Inr[OF s(1)]
  obtain qs where q: "passChecks (elements_in (getp ev ''checks'')) = Inr qs"
    "validateRequiredProcessChecks E host cwd qs ev ctx = Inr ()" by (rule accepted_parts[OF s(2)]) blast
  have "qs = process_checks (elements_in (getp ev ''checks''))" using passChecks_Inr[OF q(1)] by blast
  moreover have "list_all (\<lambda>c. processCommand c = Inr ()) (process_checks (elements_in (getp ev ''checks'')))"
    using s(1) unfolding evidenceStructure_def by (auto simp: bindR_eq_Inr dest!: checks_Inr split: prod.splits)
  ultimately show ?thesis using st(2,3,5) s(2) q(2) command_arguments by (auto simp: accepted_pass_def Let_def list_all_iff)
qed

lemma trusted_seals_Inr:
  assumes "validateTrustedEvidenceSeals E cwd ev ps ctx = Inr u"
  shows "map_size (map_entries (px_processSeals ctx)) = length ps"
    "list_all (\<lambda>c. sealedBy E (map_entries (px_processSeals ctx)) (check_id c) c = Inr ()) ps"
    "map_size (map_entries (px_terminalSeals ctx)) = length (terminal_checks ev)"
    "list_all (\<lambda>c. sealedBy E (map_entries (px_terminalSeals ctx)) (check_id c) c = Inr ()) (terminal_checks ev)"
  using assms unfolding validateTrustedEvidenceSeals_def Let_def bindR_eq_Inr requireC_Inr ex_unit each_iff check_id_def
  by (elim exE conjE; auto simp: list_all_iff)+

definition artifact_path :: "jsval \<Rightarrow> jstring" where
  "artifact_path a = text_of (getp a ''path'')"

lemma artifact_seals_Inr:
  "validateRawArtifactSeals E xs seals = Inr u \<longleftrightarrow>
     map_size seals = length xs \<and> list_all (\<lambda>a. sealedBy E seals (artifact_path a) a = Inr ()) xs"
  by (simp add: validateRawArtifactSeals_def bindR_eq_Inr each_iff artifact_path_def)

lemma artifact_paths:
  assumes "evidenceStructure E W depth schema ev = Inr (ids, ps, arts)"
  shows "distinct (map artifact_path (elements_in (getp ev ''rawArtifacts'')))"
proof -
  note st = evidenceStructure_Inr[OF assms]
  have "map artifact_path (map snd arts) = map fst arts"
    using st(8) by (auto simp: artifact_path_def text_of_def list_all_iff)
  then show ?thesis using st(6,7) by simp
qed

text \<open>A passing document: its processes were recorded cleanly, every terminal check is there once and
  passed, and its checks and artifacts are those of the seals.\<close>

definition pass_sealed :: "jsenv \<Rightarrow> jsval \<Rightarrow> pass_context \<Rightarrow> bool" where
  "pass_sealed E ev ctx \<longleftrightarrow>
     (let cs = elements_in (getp ev ''checks''); artifacts = elements_in (getp ev ''rawArtifacts'') in
      is_zero (getp ev ''exitCode'') \<and> list_all recorded_cleanly (process_checks cs)
      \<and> mset (map check_id (verdict_checks cs)) = mset (map js PASS_TERMINAL_CHECK_IDS)
      \<and> list_all (\<lambda>c. is_str (getp c ''status'') ''PASS'') (verdict_checks cs)
      \<and> sealed_exactly E (map_entries (px_processSeals ctx)) check_id (process_checks cs)
      \<and> sealed_exactly E (map_entries (px_terminalSeals ctx)) check_id (verdict_checks cs)
      \<and> sealed_exactly E (map_entries (px_rawArtifactSeals ctx)) artifact_path artifacts \<and> artifacts \<noteq> [])"

lemma statusIdentity_Inr:
  "statusIdentity E ev = Inr u \<Longrightarrow>
     if is_str (getp ev ''status'') ''PASS'' then is_zero (getp ev ''exitCode'')
     else is_str (getp ev ''status'') ''FAIL'' \<and> \<not> is_zero (getp ev ''exitCode'')"
  by (auto simp: statusIdentity_def passIdentity_def Let_def bindR_eq_Inr split: if_splits)

lemma pass_is_sealed:
  assumes "evidenceStructure E W depth schema ev = Inr (ids, ps, arts)" "is_str (getp ev ''status'') ''PASS''"
    "validatePassEvidence E host cwd ev ids ctx = Inr u"
  shows "pass_sealed E ev ctx"
proof -
  let ?cs = "elements_in (getp ev ''checks'')"
  note st = evidenceStructure_Inr[OF assms(1)]
  obtain qs where q: "passChecks ?cs = Inr qs" "validateTrustedEvidenceSeals E cwd ev qs ctx = Inr ()"
    "terminalsPresent ids = Inr ()"
    "validateRawArtifactSeals E (elements_in (getp ev ''rawArtifacts'')) (map_entries (px_rawArtifactSeals ctx)) = Inr ()"
    "elements_in (getp ev ''rawArtifacts'') \<noteq> []" by (rule accepted_parts[OF assms(3)]) blast
  note pc = passChecks_Inr[OF q(1)]
  then have qs: "qs = process_checks ?cs" by blast
  have tc: "list_all (\<lambda>c. check_id c \<in> set (map js PASS_TERMINAL_CHECK_IDS)) (verdict_checks ?cs)"
    using pc by (auto simp: list_all_iff)
  have t: "terminal_checks ev = verdict_checks ?cs"
    by (rule terminal_checks_eq[where P = "\<lambda>c. is_str (getp c ''status'') ''PASS''"]) (use pc in blast)
  have d: "distinct (map check_id ?cs)" using st(2,3) by simp
  then have dp: "distinct (map check_id (process_checks ?cs))" "distinct (map check_id (verdict_checks ?cs))"
    by (auto simp: process_checks_def verdict_checks_def distinct_map inj_on_def)
  note seals = trusted_seals_Inr[OF q(2), unfolded qs t]
  have "mset (map check_id (verdict_checks ?cs)) = mset (map js PASS_TERMINAL_CHECK_IDS)"
    by (rule verdict_ids[OF d _ tc]) (use q(3) st(2) in simp)
  moreover have "list_all (\<lambda>c. is_str (getp c ''status'') ''PASS'') (verdict_checks ?cs)"
    using pc by (auto simp: list_all_iff)
  moreover have "is_zero (getp ev ''exitCode'')" using statusIdentity_Inr[OF st(1)] assms(2) by simp
  moreover have "sealed_exactly E (map_entries (px_processSeals ctx)) check_id (process_checks ?cs)"
    by (rule sealed_exactlyI[OF seals(1) dp(1) seals(2)])
  moreover have "sealed_exactly E (map_entries (px_terminalSeals ctx)) check_id (verdict_checks ?cs)"
    by (rule sealed_exactlyI[OF seals(3) dp(2) seals(4)])
  moreover have "sealed_exactly E (map_entries (px_rawArtifactSeals ctx)) artifact_path (elements_in (getp ev ''rawArtifacts''))"
    using q(4) artifact_paths[OF assms(1)] by (intro sealed_exactlyI) (simp_all add: artifact_seals_Inr)
  ultimately show ?thesis using pc qs q(5) by (simp add: pass_sealed_def)
qed

text \<open>C36: the status of an accepted document agrees with its exit code, and an accepted passing document is
  the one the run sealed: its recorded processes, its terminal checks and its raw artifacts are exactly the
  sealed ones, no more and no less, each with the canonical text of its seal; every process ended cleanly,
  and each of the nineteen terminal checks is there once and passed.\<close>

theorem accepted_pass_is_sealed:
  "case validateEvidenceDocument E W host cwd depth schema ev ctx of
     Inl _ \<Rightarrow> True
   | Inr _ \<Rightarrow>
       if is_str (getp ev ''status'') ''PASS'' then pass_sealed E ev ctx
       else is_str (getp ev ''status'') ''FAIL'' \<and> \<not> is_zero (getp ev ''exitCode'')"
proof (cases "validateEvidenceDocument E W host cwd depth schema ev ctx")
  case (Inr u)
  then obtain ids ps arts where s: "evidenceStructure E W depth schema ev = Inr (ids, ps, arts)"
    "is_str (getp ev ''status'') ''PASS'' \<longrightarrow> validatePassEvidence E host cwd ev ids ctx = Inr ()"
    by (auto simp: validateEvidenceDocument_def bindR_eq_Inr split: prod.splits if_splits)
  show ?thesis
    using pass_is_sealed[OF s(1) _ s(2)[rule_format]] statusIdentity_Inr[OF evidenceStructure_Inr(1)[OF s(1)]] by (auto simp: Inr)
qed simp

section \<open>Recorded container runs\<close>

lemma id_of_check_id [simp]: "id_of c = check_id c"
  by (simp add: id_of_def check_id_def)

lemma required_Inr:
  assumes "validateRequiredProcessChecks E host cwd ps ev ctx = Inr u"
  shows "set (requiredProcessIds ev) \<subseteq> set (map check_id ps)" "set (cleanupIds E ps) \<subseteq> set (map check_id ps)"
    "list_all (\<lambda>c. requiredProcess E cwd (requiredProcessIds ev @ cleanupIds E ps) ev ctx c = Inr ()) ps"
    "list_all (\<lambda>c. cleanupOf E (processByIdFrom ps) (elements_in (getp ev ''rawArtifacts'')) c = Inr ()) ps"
    "validateDynamicBlobProcesses E cwd ps ev ctx = Inr ()"
    "list_all (\<lambda>pr. processTerminalPair (processByIdFrom ps) (processByIdFrom (terminal_checks ev))
         (elements_in (getp ev ''rawArtifacts'')) pr = Inr ()) processTerminals"
    "validateTerminalSemantics E host ev (processByIdFrom (terminal_checks ev)) ctx = Inr ()"
  using assms unfolding validateRequiredProcessChecks_def validateCleanupProcessRelationships_def Let_def bindR_eq_Inr
    requireC_Inr ex_unit each_iff id_of_check_id[abs_def, symmetric, unfolded]
  by (elim conjE; auto simp: list_all_iff)+

lemma lookup_process:
  assumes "k \<in> set (map check_id ps)"
  obtains c where "c \<in> set ps" "check_id c = k" "lookup_check (processByIdFrom ps) k = c"
proof -
  have "k \<in> fst ` set (processByIdFrom ps)" using assms by (force simp: processByIdFrom_def check_id_def)
  then obtain c where c: "map_of (processByIdFrom ps) k = Some c" by (metis domIff dom_map_of_conv_image_fst not_None_eq)
  then have "c \<in> set ps \<and> check_id c = k" using map_of_SomeD[OF c] by (auto simp: processByIdFrom_def check_id_def)
  then show thesis using that c by (auto simp: lookup_check_def)
qed

lemma cleanup_phase_id: "cleanup_phase s = Some phase \<Longrightarrow> is_cleanup_id s"
proof -
  assume "cleanup_phase s = Some phase"
  then have e: "ends_with s (js (''-CLEANUP-'' @ phase))" unfolding cleanup_phase_def find_Some_iff by blast
  let ?i = "length s - length (js (''-CLEANUP-'' @ phase))"
  have "starts_with (drop ?i s) (js ''-CLEANUP-'')" "?i < length s"
    using e by (auto simp: ends_with_def starts_with_def js_def)
  then show ?thesis by (force simp: is_cleanup_id_def list_ex_iff)
qed

lemma container_run_is_docker_run:
  assumes "containerRun E c" "validateProcessCommandShape E cwd (process_of c) inputs artifacts trusted = Inr u"
  shows "is_docker_run (process_of c)"
proof -
  have c: "program_named E (pc_command (process_of c)) ''docker''" "is_str (argument_at c 0) ''run''"
    "\<not> is_cleanup_id (pc_id (process_of c))"
    using assms(1) by (simp_all add: containerRun_def process_of_def check_id_def)
  have "js ''git'' \<notin> {js ''docker'', js ''docker'' @ js ''.exe''}" "js ''git'' @ js ''.exe'' \<notin> {js ''docker'', js ''docker'' @ js ''.exe''}"
    by code_simp+
  then have ng: "\<not> program_named E (pc_command (process_of c)) ''git''" using c(1) by (auto simp: program_named_def)
  have g: "\<not> list_ex (\<lambda>p. starts_with (pc_id (process_of c)) (js p)) [''PROCESS-GIT-'', ''PROCESS-RULES-'', ''PROCESS-RULE-BLOB-'']"
  proof
    assume l: "list_ex (\<lambda>p. starts_with (pc_id (process_of c)) (js p)) [''PROCESS-GIT-'', ''PROCESS-RULES-'', ''PROCESS-RULE-BLOB-'']"
    show False using assms(2) ng unfolding validateProcessCommandShape_def if_P[OF l] bindR_eq_Inr requireC_Inr by blast
  qed
  have "arguments_of c \<noteq> []" "hd (arguments_of c) = JStr (js ''run'')"
    using c(2) by (auto simp: argument_at_def is_str_def hd_conv_nth split: if_splits)
  then have "pc_arguments (process_of c) \<noteq> []" "hd (pc_arguments (process_of c)) = js ''run''"
    by (simp_all add: process_of_def hd_map text_of_def)
  then show ?thesis using g c(3) cleanup_phase_id unfolding is_docker_run_def by (cases "cleanup_phase (pc_id (process_of c))") auto
qed

text \<open>The recorded standard output of a process is empty.\<close>

definition empty_stdout :: "jsval list \<Rightarrow> jstring \<Rightarrow> bool" where
  "empty_stdout artifacts pid \<longleftrightarrow>
     list_ex (\<lambda>a. getp a ''processId'' = JStr pid \<and> is_str (getp a ''stream'') ''stdout''
                  \<and> getp a ''redacted'' = JBool False \<and> is_zero (getp a ''size'')) artifacts"

lemma empty_stream:
  assumes "validateUnredactedProcessStreamVariants E check ''stdout'' [[]] artifacts = Inr u" "getp check ''id'' = JStr pid"
  shows "empty_stdout artifacts pid"
proof -
  obtain a where a: "find_artifact (getp check ''id'') ''stdout'' artifacts = Some a" "getp a ''redacted'' = JBool False"
    "getp a ''size'' = byteLength []"
    using assms(1) by (auto simp: validateUnredactedProcessStreamVariants_def split: option.splits)
  have "a \<in> set artifacts" "getp a ''processId'' = JStr pid" "is_str (getp a ''stream'') ''stdout''"
    using a(1) assms(2) by (auto simp: find_artifact_def find_Some_iff dest: strict_eqD)
  moreover have "byteLength [] = JNum (Fin 0)" by (simp add: byteLength_def)
  ultimately show ?thesis using a(2,3) by (auto simp: empty_stdout_def list_ex_iff is_zero_def)
qed

lemma cleanup_leaves_nothing:
  assumes "cleanupOf E byId artifacts c = Inr u" "is_str (argument_at c 0) ''run''"
    "getp (lookup_check byId (text_of (getp c ''id'') @ js (''-CLEANUP-'' @ ''AFTER''))) ''id'' = JStr pid"
  shows "empty_stdout artifacts pid"
proof -
  have "validateUnredactedProcessStreamVariants E
      (lookup_check byId (text_of (getp c ''id'') @ js (''-CLEANUP-'' @ ''AFTER''))) ''stdout'' [[]] artifacts = Inr ()"
    using assms(1,2) unfolding cleanupOf_def Let_def
    by (simp only: not_True_eq_False if_False bindR_eq_Inr ex_unit)
  then show ?thesis by (rule empty_stream[OF _ assms(3)])
qed

text \<open>The listing of the containers with one exact name.\<close>

definition container_listing :: "jstring \<Rightarrow> jstring list" where
  "container_listing name = [js ''container'', js ''ls'', js ''-aq'', js ''--filter'', js ''name=^/'' @ name @ js ''$'']"

lemma listing_bound:
  assumes "cleanupOf E byId artifacts c = Inr u" "is_str (argument_at c 0) ''run''" "phase \<in> {''BEFORE'', ''AFTER''}"
    "lookup_check byId (check_id c @ js (''-CLEANUP-'' @ phase)) = a"
    "getp a ''arguments'' = strings (pc_arguments (process_of a))" "argument_at c 7 = JStr name"
  shows "getp a ''arguments'' = strings (container_listing name)"
proof -
  have "list_all (\<lambda>p. cleanupListing E byId c p = Inr ()) [''BEFORE'', ''AFTER'']"
    using assms(1,2) unfolding cleanupOf_def Let_def
    by (simp only: not_True_eq_False if_False bindR_eq_Inr ex_unit each_iff)
  then have "cleanupListing E byId c phase = Inr ()" using assms(3) by auto
  then obtain t where t: "canonR E (getp (lookup_check byId (check_id c @ js (''-CLEANUP-'' @ phase))) ''arguments'') = Inr t"
    "canonR E (JArr (texts [''container'', ''ls'', ''-aq'', ''--filter'']
       @ [JStr (js ''name=^/'' @ to_text E (argument_at c 7) @ js ''$'')])) = Inr t"
    unfolding cleanupListing_def sameCanonical_Inr check_id_def by blast
  have "JArr (texts [''container'', ''ls'', ''-aq'', ''--filter'']
      @ [JStr (js ''name=^/'' @ to_text E (argument_at c 7) @ js ''$'')]) = strings (container_listing name)"
    by (simp only: assms(6) to_text.simps texts_def strings_def container_listing_def list.map append.simps)
  with t have "canonR E (strings (pc_arguments (process_of a))) = Inr t" "canonR E (strings (container_listing name)) = Inr t"
    unfolding assms(4,5) by simp_all
  then have "pc_arguments (process_of a) = container_listing name" by (simp only: canonR_strings)
  then show ?thesis unfolding assms(5) by (rule arg_cong)
qed

text \<open>The exit codes: 127 without a database, 1 for a control that has to fail, 0 or a finding for the two
  scans, and 0 for everything else.\<close>

definition exit_permitted :: "jstring \<Rightarrow> nat \<Rightarrow> bool" where
  "exit_permitted pid n \<longleftrightarrow>
     (if pid = js ''PROCESS-OSV-MISSING-DATABASE-NEGATIVE'' then n = 127
      else if pid \<in> {js ''PROCESS-OSV-VULNERABILITY-CANARY'', js ''PROCESS-OSV-VULNERABILITY-DEVELOPMENT-CANARY'',
          js ''PROCESS-OSV-GO-ADVISORY-CANARY'', js ''PROCESS-OSV-GO-TRANSITIVE-CANARY'',
          js ''PROCESS-OSV-GO-LICENSE-DENIED-CANARY'', js ''PROCESS-OSV-LICENSE-DENIED-CANARY'',
          js ''PROCESS-OSV-LICENSE-UNKNOWN-CANARY'', js ''PROCESS-SEMGREP-BLOCKING-FIXTURES''} then n = 1
      else if pid \<in> {js ''PROCESS-OSV-VULNERABILITY'', js ''PROCESS-OSV-LICENSE''} then n \<le> 1
      else n = 0)"

lemma exit_permitted_iff:
  "getp c ''rawExit'' \<in> set (map (\<lambda>q. JNum (Fin q)) (acceptedProcessRawExits pid)) \<longleftrightarrow>
     (\<exists>n. exit_permitted pid n \<and> getp c ''rawExit'' = natValue n)"
proof -
  define a b d where "a \<longleftrightarrow> pid = js ''PROCESS-OSV-MISSING-DATABASE-NEGATIVE''"
    and "b \<longleftrightarrow> pid \<in> {js ''PROCESS-OSV-VULNERABILITY-CANARY'', js ''PROCESS-OSV-VULNERABILITY-DEVELOPMENT-CANARY'',
          js ''PROCESS-OSV-GO-ADVISORY-CANARY'', js ''PROCESS-OSV-GO-TRANSITIVE-CANARY'',
          js ''PROCESS-OSV-GO-LICENSE-DENIED-CANARY'', js ''PROCESS-OSV-LICENSE-DENIED-CANARY'',
          js ''PROCESS-OSV-LICENSE-UNKNOWN-CANARY'', js ''PROCESS-SEMGREP-BLOCKING-FIXTURES''}"
    and "d \<longleftrightarrow> pid \<in> {js ''PROCESS-OSV-VULNERABILITY'', js ''PROCESS-OSV-LICENSE''}"
  have e: "acceptedProcessRawExits pid = (if a then [127] else if b then [1] else if d then [0, 1] else [0])"
    "exit_permitted pid n \<longleftrightarrow> (if a then n = 127 else if b then n = 1 else if d then n \<le> 1 else n = 0)" for n
    unfolding acceptedProcessRawExits_def exit_permitted_def a_def b_def d_def
    by (simp_all only: list.map list.set insert_iff empty_iff simp_thms)
  show ?thesis unfolding e by (cases a; cases b; cases d) (auto simp: natValue_def le_Suc_eq)
qed

text \<open>A recorded container run of an accepted document: the locked run of its identifier with a permitted exit
  code, and before and after it a listing of the containers with its name, the one after it empty.\<close>

definition run_locked :: "jsenv \<Rightarrow> jstring \<Rightarrow> jsval \<Rightarrow> pass_context \<Rightarrow> jsval \<Rightarrow> bool" where
  "run_locked E cwd ev ctx c \<longleftrightarrow>
     (let trusted = roots_of ctx; checks = elements_in (getp ev ''checks'') in
      \<exists>r x before after n. parseDockerRunArguments cwd (pc_arguments (process_of c)) (tr_root trusted) = Inr r
         \<and> expectedDockerRunContract E cwd (check_id c) (getp ev ''inputs'') (tr_configuration trusted) (tr_temporaryRoot trusted) = Inr x
         \<and> locked_run E cwd r x \<and> d_network r \<in> {js ''none'', js ''bridge''}
         \<and> list_all (\<lambda>m. m_readOnly m \<and> inside cwd (tr_temporaryRoot trusted) (m_source m)) (d_mounts r)
         \<and> exit_permitted (check_id c) n \<and> getp c ''rawExit'' = natValue n
         \<and> before \<in> set checks \<and> check_id before = check_id c @ js ''-CLEANUP-BEFORE''
         \<and> getp before ''arguments'' = strings (container_listing (d_containerName r))
         \<and> after \<in> set checks \<and> check_id after = check_id c @ js ''-CLEANUP-AFTER''
         \<and> getp after ''arguments'' = strings (container_listing (d_containerName r))
         \<and> empty_stdout (elements_in (getp ev ''rawArtifacts'')) (check_id after))"

lemma run_is_locked:
  assumes "lowers E" "accepted_pass E host cwd ev ctx" "c \<in> set (process_checks (elements_in (getp ev ''checks'')))"
    "containerRun E c"
  shows "run_locked E cwd ev ctx c"
proof -
  let ?cs = "elements_in (getp ev ''checks'')" and ?ps = "process_checks (elements_in (getp ev ''checks''))"
  let ?after = "check_id c @ js (''-CLEANUP-'' @ ''AFTER'')" and ?before = "check_id c @ js (''-CLEANUP-'' @ ''BEFORE'')"
  have acc: "list_all (\<lambda>c. getp c ''id'' = JStr (check_id c)) ?cs"
    "list_all (\<lambda>c. getp c ''arguments'' = strings (pc_arguments (process_of c))) ?ps"
    "validateRequiredProcessChecks E host cwd ?ps ev ctx = Inr ()" using assms(2) by (auto simp: accepted_pass_def Let_def)
  note req = required_Inr[OF acc(3)]
  have sub: "set ?ps \<subseteq> set ?cs" by (auto simp: process_checks_def)
  have "requiredProcess E cwd (requiredProcessIds ev @ cleanupIds E ?ps) ev ctx c = Inr ()"
    using req(3) assms(3) by (auto simp: list_all_iff)
  then have shape: "validateProcessCommandShape E cwd (process_of c) (getp ev ''inputs'') (elements_in (getp ev ''rawArtifacts''))
      (roots_of ctx) = Inr ()"
    and exit: "getp c ''rawExit'' \<in> set (map (\<lambda>q. JNum (Fin q)) (acceptedProcessRawExits (check_id c)))"
    by (auto simp: requiredProcess_def bindR_eq_Inr)
  obtain n where n: "exit_permitted (check_id c) n" "getp c ''rawExit'' = natValue n"
    using exit unfolding exit_permitted_iff by blast
  obtain r x where rx: "parseDockerRunArguments cwd (pc_arguments (process_of c)) (tr_root (roots_of ctx)) = Inr r"
    "expectedDockerRunContract E cwd (pc_id (process_of c)) (getp ev ''inputs'') (tr_configuration (roots_of ctx))
       (tr_temporaryRoot (roots_of ctx)) = Inr x"
    "locked_run E cwd r x" "d_network r \<in> {js ''none'', js ''bridge''}"
    "list_all (\<lambda>m. m_readOnly m \<and> inside cwd (tr_temporaryRoot (roots_of ctx)) (m_source m)) (d_mounts r)"
    by (rule recorded_run[OF assms(1) container_run_is_docker_run[OF assms(4) shape] shape])
  have name: "argument_at c 7 = JStr (d_containerName r)"
    using rendered_name[OF parseDockerRunArguments_Inr(2)[OF rx(1)]] acc(2) assms(3)
    by (auto simp: list_all_iff argument_at_def arguments_of_def strings_def elements_in_def)
  have run: "is_str (argument_at c 0) ''run''" using assms(4) by (simp add: containerRun_def)
  have clean: "cleanupOf E (processByIdFrom ?ps) (elements_in (getp ev ''rawArtifacts'')) c = Inr ()"
    using req(4) assms(3) by (auto simp: list_all_iff)
  have "{?before, ?after} \<subseteq> set (cleanupIds E ?ps)" using assms(3,4) by (auto simp: cleanupIds_def)
  then have ids: "?before \<in> set (map check_id ?ps)" "?after \<in> set (map check_id ?ps)" using req(2) by blast+
  obtain b where b: "b \<in> set ?ps" "check_id b = ?before" "lookup_check (processByIdFrom ?ps) ?before = b"
    using ids(1) by (rule lookup_process)
  obtain a where a: "a \<in> set ?ps" "check_id a = ?after" "lookup_check (processByIdFrom ?ps) ?after = a"
    using ids(2) by (rule lookup_process)
  have args: "getp a ''arguments'' = strings (pc_arguments (process_of a))" "getp b ''arguments'' = strings (pc_arguments (process_of b))"
    using acc(2) a(1) b(1) by (auto simp: list_all_iff)
  have listings: "getp b ''arguments'' = strings (container_listing (d_containerName r))"
    "getp a ''arguments'' = strings (container_listing (d_containerName r))"
    by (rule listing_bound[OF clean run _ b(3) args(2) name], simp)
      (rule listing_bound[OF clean run _ a(3) args(1) name], simp)
  have "getp a ''id'' = JStr ?after" using acc(1) a(1,2) sub by (auto simp: list_all_iff)
  then have "empty_stdout (elements_in (getp ev ''rawArtifacts'')) ?after"
    using a(3) by (intro cleanup_leaves_nothing[OF clean run]) (simp add: check_id_def)
  then show ?thesis
    using rx n listings a(1,2) b(1,2) sub
    unfolding run_locked_def Let_def
    by (intro exI[of _ r] exI[of _ x] exI[of _ b] exI[of _ a] exI[of _ n]) (auto simp: process_of_def check_id_def)
qed

text \<open>A recorded licence scan with its two listings.\<close>

definition sample_run_check :: jsval where
  "sample_run_check = JObj
     [(js ''id'', JStr (pc_id sample_check)), (js ''command'', JStr (pc_command sample_check)),
      (js ''arguments'', strings (pc_arguments sample_check)), (js ''rawExit'', natValue 0)]"

definition sample_listing :: "string \<Rightarrow> jsval" where
  "sample_listing phase = JObj
     [(js ''id'', JStr (js (''PROCESS-OSV-LICENSE-CLEANUP-'' @ phase))), (js ''command'', JStr (js ''/usr/bin/docker'')),
      (js ''arguments'', strings (map js [''container'', ''ls'', ''-aq'', ''--filter'',
         ''name=^/hedefora-r016-0123456789abcdef01234567$''])), (js ''rawExit'', natValue 0)]"

definition sample_evidence :: jsval where
  "sample_evidence = JObj
     [(js ''inputs'', sample_run_inputs),
      (js ''checks'', JArr [sample_run_check, sample_listing ''BEFORE'', sample_listing ''AFTER'']),
      (js ''rawArtifacts'', JArr [JObj
         [(js ''processId'', JStr (js ''PROCESS-OSV-LICENSE-CLEANUP-AFTER'')), (js ''stream'', JStr (js ''stdout'')),
          (js ''redacted'', JBool False), (js ''size'', natValue 0)]])]"

definition sample_pass_context :: pass_context where
  "sample_pass_context = \<lparr>px_values = JObj
       [(js ''root'', JStr (js ''/repo'')), (js ''controlRoot'', JStr (js ''/repo'')),
        (js ''temporaryRoot'', JStr (js ''/t'')), (js ''configuration'', tr_configuration sample_trusted)],
     px_rawArtifactSeals = None, px_processSeals = None, px_terminalSeals = None, px_trackedIndex = None,
     px_trackedBlobCache = None, px_controlTrackedIndex = None, px_controlTrackedBlobCache = None\<rparr>"

lemma sample_run_is_container: "containerRun sample_env sample_run_check"
  by code_simp

lemma sample_run_parts:
  "process_of sample_run_check = sample_check" "roots_of sample_pass_context = sample_trusted"
  "getp sample_evidence ''inputs'' = sample_run_inputs" "check_id sample_run_check = pc_id sample_check"
  "exit_permitted (pc_id sample_check) 0" "getp sample_run_check ''rawExit'' = natValue 0"
  "elements_in (getp sample_evidence ''checks'') = [sample_run_check, sample_listing ''BEFORE'', sample_listing ''AFTER'']"
  "check_id (sample_listing ''BEFORE'') = pc_id sample_check @ js ''-CLEANUP-BEFORE''"
  "check_id (sample_listing ''AFTER'') = pc_id sample_check @ js ''-CLEANUP-AFTER''"
  "empty_stdout (elements_in (getp sample_evidence ''rawArtifacts'')) (pc_id sample_check @ js ''-CLEANUP-AFTER'')"
  by code_simp+

lemma sample_run_listed:
  "case parseDockerRunArguments (js ''/'') (pc_arguments sample_check) (tr_root sample_trusted) of
     Inr r \<Rightarrow> getp (sample_listing ''BEFORE'') ''arguments'' = strings (container_listing (d_containerName r))
         \<and> getp (sample_listing ''AFTER'') ''arguments'' = strings (container_listing (d_containerName r))
   | Inl _ \<Rightarrow> False"
  by code_simp

lemma sample_run_locked: "run_locked sample_env (js ''/'') sample_evidence sample_pass_context sample_run_check"
proof -
  obtain r x where "parseDockerRunArguments (js ''/'') (pc_arguments sample_check) (tr_root sample_trusted) = Inr r"
    "expectedDockerRunContract sample_env (js ''/'') (pc_id sample_check) sample_run_inputs (tr_configuration sample_trusted)
       (tr_temporaryRoot sample_trusted) = Inr x"
    "locked_run sample_env (js ''/'') r x" "d_network r \<in> {js ''none'', js ''bridge''}"
    "list_all (\<lambda>m. m_readOnly m \<and> inside (js ''/'') (tr_temporaryRoot sample_trusted) (m_source m)) (d_mounts r)"
    by (rule recorded_run[OF sample_check_facts sample_check_accepted])
  then show ?thesis
    using sample_run_listed unfolding run_locked_def Let_def sample_run_parts
    by (intro exI[of _ r] exI[of _ x] exI[of _ "sample_listing ''BEFORE''"] exI[of _ "sample_listing ''AFTER''"] exI[of _ 0])
      (auto simp: sample_run_parts)
qed

text \<open>C37: in an accepted passing document every recorded container run is the run of the locked contract of
  its identifier, with read-only mounts below the temporary directory only, and records a permitted exit
  code; before and after it the containers with exactly this run's container name were listed, and the
  listing after it is empty, so the container is gone.\<close>

theorem accepted_runs_are_locked_and_removed:
  assumes "lowers E"
  shows "case validateEvidenceDocument E W host cwd depth schema ev ctx of
     Inl _ \<Rightarrow> True
   | Inr _ \<Rightarrow>
       if is_str (getp ev ''status'') ''PASS''
       then list_all (\<lambda>c. if containerRun E c then run_locked E cwd ev ctx c else True)
              (process_checks (elements_in (getp ev ''checks'')))
       else True"
  using run_is_locked[OF assms] accepted_document[of E W host cwd depth schema ev ctx] by (auto simp: list_all_iff split: sum.splits)

theorem accepted_runs_are_locked_and_removed_witness:
  "(\<forall>W host cwd depth schema ev ctx. case validateEvidenceDocument sample_env W host cwd depth schema ev ctx of
     Inl _ \<Rightarrow> True
   | Inr _ \<Rightarrow>
       if is_str (getp ev ''status'') ''PASS''
       then list_all (\<lambda>c. if containerRun sample_env c then run_locked sample_env cwd ev ctx c else True)
              (process_checks (elements_in (getp ev ''checks'')))
       else True)
   \<and> containerRun sample_env sample_run_check
   \<and> run_locked sample_env (js ''/'') sample_evidence sample_pass_context sample_run_check"
  by (intro conjI allI accepted_runs_are_locked_and_removed sample_run_locked sample_run_is_container sample_check_facts(1))

section \<open>Controls\<close>

text \<open>The process of each control, its terminal check and the exit code it has to record.\<close>

definition control_exits :: "(string \<times> string \<times> nat) list" where
  "control_exits =
     [(''PROCESS-OSV-MISSING-DATABASE-NEGATIVE'', ''R016-OSV-MISSING-DB-NEGATIVE'', 127),
      (''PROCESS-OSV-VULNERABILITY-CANARY'', ''R016-OSV-VULNERABILITY-CANARY'', 1),
      (''PROCESS-OSV-VULNERABILITY-DEVELOPMENT-CANARY'', ''R016-OSV-VULNERABILITY-DEVELOPMENT-CANARY'', 1),
      (''PROCESS-OSV-GO-ADVISORY-CANARY'', ''R016-OSV-GO-ADVISORY-CANARY'', 1),
      (''PROCESS-OSV-GO-TRANSITIVE-CANARY'', ''R016-OSV-GO-TRANSITIVE-CANARY'', 1),
      (''PROCESS-OSV-GO-LICENSE-DENIED-CANARY'', ''R016-OSV-GO-LICENSE-DENIED-CANARY'', 1),
      (''PROCESS-OSV-LICENSE-DENIED-CANARY'', ''R016-OSV-LICENSE-DENIED-CANARY'', 1),
      (''PROCESS-OSV-LICENSE-UNKNOWN-CANARY'', ''R016-OSV-LICENSE-UNKNOWN-CANARY'', 1),
      (''PROCESS-OSV-VULNERABILITY'', ''R016-VULNERABILITY'', 0), (''PROCESS-OSV-LICENSE'', ''R016-LICENSE'', 0),
      (''PROCESS-SEMGREP-REPOSITORY'', ''R016-SAST'', 0), (''PROCESS-SEMGREP-BLOCKING-FIXTURES'', ''R016-SAST-NEGATIVE'', 1)]"

definition terminal_exit :: "jsval js_map \<Rightarrow> string \<Rightarrow> nat \<Rightarrow> bool" where
  "terminal_exit m t n \<longleftrightarrow> getp (lookup_check m (js t)) ''rawExit'' = natValue n"

lemma exit_zero: "is_zero (getp (lookup_check m (js t)) ''rawExit'') \<Longrightarrow> terminal_exit m t 0"
  by (simp add: is_zero_def terminal_exit_def natValue_def)

lemma exit_number: "hasNumber (lookup_check m (js t)) ((''rawExit'', n) # fs) \<Longrightarrow> terminal_exit m t n"
  by (simp add: hasNumber_def terminal_exit_def)

lemma canary_exits:
  "vulnerabilityCanary E m c = Inr u \<Longrightarrow> terminal_exit m (cy_id c) 1"
  "goAdvisoryCanary (lookup_check m (js t)) = Inr u \<Longrightarrow> terminal_exit m t 1"
  "goTransitiveCanary E (lookup_check m (js t)) = Inr u \<Longrightarrow> terminal_exit m t 1"
  "goLicenseCanary E (lookup_check m (js t)) = Inr u \<Longrightarrow> terminal_exit m t 1"
  "licenseCanary E m spec = Inr u \<Longrightarrow> terminal_exit m (fst spec) 1"
  "vulnerabilityTerminal E (lookup_check m (js t)) ev ctx = Inr u \<Longrightarrow> terminal_exit m t 0"
  "licenseTerminal E (lookup_check m (js t)) ev ctx = Inr u \<Longrightarrow> terminal_exit m t 0"
  "sastTerminal E (lookup_check m (js t)) ev = Inr u \<Longrightarrow> terminal_exit m t 0"
  "sastNegativeTerminal E (lookup_check m (js t)) = Inr u \<Longrightarrow> terminal_exit m t 1"
  unfolding vulnerabilityCanary_def goAdvisoryCanary_def goTransitiveCanary_def goLicenseCanary_def licenseCanary_def
    vulnerabilityTerminal_def licenseTerminal_def sastTerminal_def sastNegativeTerminal_def Let_def bindR_eq_Inr requireC_Inr
  by (auto intro: exit_number exit_zero split: prod.splits simp: bindR_eq_Inr)

lemma semantics_parts:
  assumes "validateTerminalSemantics E host ev m ctx = Inr ()"
  shows "terminal_exit m ''R016-OSV-MISSING-DB-NEGATIVE'' 127"
    "list_all (\<lambda>c. vulnerabilityCanary E m c = Inr ()) vulnerabilityCanaries"
    "goAdvisoryCanary (lookup_check m (js ''R016-OSV-GO-ADVISORY-CANARY'')) = Inr ()"
    "goTransitiveCanary E (lookup_check m (js ''R016-OSV-GO-TRANSITIVE-CANARY'')) = Inr ()"
    "goLicenseCanary E (lookup_check m (js ''R016-OSV-GO-LICENSE-DENIED-CANARY'')) = Inr ()"
    "list_all (\<lambda>c. licenseCanary E m c = Inr ()) licenseCanaries"
    "vulnerabilityTerminal E (lookup_check m (js ''R016-VULNERABILITY'')) ev ctx = Inr ()"
    "licenseTerminal E (lookup_check m (js ''R016-LICENSE'')) ev ctx = Inr ()"
    "sastTerminal E (lookup_check m (js ''R016-SAST'')) ev = Inr ()"
    "sastNegativeTerminal E (lookup_check m (js ''R016-SAST-NEGATIVE'')) = Inr ()"
  using assms unfolding validateTerminalSemantics_def Let_def bindR_eq_Inr requireC_Inr ex_unit each_iff
  by - (elim conjE, (assumption | erule exit_number))+

lemma semantics_exits:
  assumes "validateTerminalSemantics E host ev m ctx = Inr ()"
  shows "list_all (\<lambda>(p, t, n). terminal_exit m t n) control_exits"
proof -
  note parts = semantics_parts[OF assms]
  have "terminal_exit m ''R016-OSV-VULNERABILITY-CANARY'' 1" "terminal_exit m ''R016-OSV-VULNERABILITY-DEVELOPMENT-CANARY'' 1"
    "terminal_exit m ''R016-OSV-LICENSE-DENIED-CANARY'' 1" "terminal_exit m ''R016-OSV-LICENSE-UNKNOWN-CANARY'' 1"
    using parts(2,6) canary_exits(1)[of E m] canary_exits(5)[of E m]
    by (fastforce simp: vulnerabilityCanaries_def licenseCanaries_def)+
  then show ?thesis
    using parts(1) canary_exits(2)[OF parts(3)] canary_exits(3)[OF parts(4)] canary_exits(4)[OF parts(5)]
      canary_exits(6)[OF parts(7)] canary_exits(7)[OF parts(8)] canary_exits(8)[OF parts(9)] canary_exits(9)[OF parts(10)]
    by (simp only: control_exits_def list.pred_inject prod.case simp_thms)
qed

text \<open>The recorded process and the terminal check of a control: both have the exit code, and the terminal
  check names the process and the digests of its two recorded streams.\<close>

definition stream_recorded :: "jsval list \<Rightarrow> string \<Rightarrow> string \<Rightarrow> jsval \<Rightarrow> bool" where
  "stream_recorded artifacts p stream digest \<longleftrightarrow>
     list_ex (\<lambda>a. getp a ''processId'' = JStr (js p) \<and> is_str (getp a ''stream'') stream \<and> getp a ''sha256'' = digest) artifacts"

definition control_recorded :: "jsval \<Rightarrow> string \<times> string \<times> nat \<Rightarrow> bool" where
  "control_recorded ev control \<longleftrightarrow>
     (case control of (p, t, n) \<Rightarrow>
        let cs = elements_in (getp ev ''checks''); artifacts = elements_in (getp ev ''rawArtifacts'') in
        \<exists>pc \<in> set cs. \<exists>tc \<in> set cs.
          check_id pc = js p \<and> check_id tc = js t \<and> getp pc ''rawExit'' = natValue n \<and> getp tc ''rawExit'' = natValue n
          \<and> getp tc ''processId'' = JStr (js p)
          \<and> stream_recorded artifacts p ''stdout'' (getp tc ''stdoutSha256'')
          \<and> stream_recorded artifacts p ''stderr'' (getp tc ''stderrSha256''))"

lemma found_element: "find P xs = Some x \<Longrightarrow> x \<in> set xs \<and> P x"
  by (induction xs) (auto split: if_splits)

lemma artifact_reference:
  assumes "validateTerminalArtifactReference tc pc artifacts = Inr u" "getp pc ''id'' = JStr (js p)"
  shows "getp tc ''processId'' = JStr (js p)" "stream_recorded artifacts p ''stdout'' (getp tc ''stdoutSha256'')"
    "stream_recorded artifacts p ''stderr'' (getp tc ''stderrSha256'')"
proof -
  let ?own = "filter (\<lambda>a. strict_eq (getp a ''processId'') (JStr (js p))) artifacts"
  obtain so se where s: "find (\<lambda>a. is_str (getp a ''stream'') ''stdout'') ?own = Some so"
    "find (\<lambda>a. is_str (getp a ''stream'') ''stderr'') ?own = Some se"
    "strict_eq (getp tc ''processId'') (JStr (js p))" "strict_eq (getp tc ''stdoutSha256'') (getp so ''sha256'')"
    "strict_eq (getp tc ''stderrSha256'') (getp se ''sha256'')"
    using assms(1) unfolding validateTerminalArtifactReference_def Let_def bindR_eq_Inr requireC_Inr assms(2)
    by (auto split: option.splits)
  show "getp tc ''processId'' = JStr (js p)" by (rule strict_eqD[OF s(3)])
  show "stream_recorded artifacts p ''stdout'' (getp tc ''stdoutSha256'')"
    using found_element[OF s(1)] strict_eqD[OF s(4)] by (auto simp: stream_recorded_def list_ex_iff dest: strict_eqD)
  show "stream_recorded artifacts p ''stderr'' (getp tc ''stderrSha256'')"
    using found_element[OF s(2)] strict_eqD[OF s(5)] by (auto simp: stream_recorded_def list_ex_iff dest: strict_eqD)
qed

lemma accepted_terminals:
  assumes "accepted_pass E host cwd ev ctx"
  shows "terminal_checks ev = verdict_checks (elements_in (getp ev ''checks''))"
    "set (map js PASS_TERMINAL_CHECK_IDS) = set (map check_id (verdict_checks (elements_in (getp ev ''checks''))))"
proof -
  let ?cs = "elements_in (getp ev ''checks'')"
  have v: "distinct (map check_id ?cs)" "validatePassEvidence E host cwd ev (map check_id ?cs) ctx = Inr ()"
    using assms by (auto simp: accepted_pass_def Let_def)
  obtain qs where q: "passChecks ?cs = Inr qs" "terminalsPresent (map check_id ?cs) = Inr ()"
    by (rule accepted_parts[OF v(2)]) blast
  note pc = passChecks_Inr[OF q(1)]
  show "terminal_checks ev = verdict_checks ?cs"
    by (rule terminal_checks_eq[where P = "\<lambda>c. is_str (getp c ''status'') ''PASS''"]) (use pc in blast)
  have "mset (map check_id (verdict_checks ?cs)) = mset (map js PASS_TERMINAL_CHECK_IDS)"
    by (rule verdict_ids[OF v(1) q(2)]) (use pc in \<open>auto simp: list_all_iff\<close>)
  then show "set (map js PASS_TERMINAL_CHECK_IDS) = set (map check_id (verdict_checks ?cs))" by (metis set_mset_mset)
qed

lemma control_ids:
  "list_all (\<lambda>(p, t, n). p \<in> set PASS_REQUIRED_PROCESS_IDS \<and> t \<in> set PASS_TERMINAL_CHECK_IDS \<and> (p, t) \<in> set processTerminals)
     control_exits"
  by code_simp

lemma control_is_recorded:
  assumes "accepted_pass E host cwd ev ctx" "(p, t, n) \<in> set control_exits"
  shows "control_recorded ev (p, t, n)"
proof -
  let ?cs = "elements_in (getp ev ''checks'')" and ?ps = "process_checks (elements_in (getp ev ''checks''))"
  let ?ts = "verdict_checks (elements_in (getp ev ''checks''))" and ?arts = "elements_in (getp ev ''rawArtifacts'')"
  have acc: "list_all (\<lambda>c. getp c ''id'' = JStr (check_id c)) ?cs"
    "validateRequiredProcessChecks E host cwd ?ps ev ctx = Inr ()" using assms(1) by (auto simp: accepted_pass_def Let_def)
  note req = required_Inr[OF acc(2), unfolded accepted_terminals(1)[OF assms(1)]]
  have ids: "p \<in> set PASS_REQUIRED_PROCESS_IDS" "t \<in> set PASS_TERMINAL_CHECK_IDS" "(p, t) \<in> set processTerminals"
    using control_ids assms(2) by (auto simp: list_all_iff)
  have "js p \<in> set (map check_id ?ps)" using ids(1) req(1) by (auto simp: requiredProcessIds_def)
  then obtain pc where pc: "pc \<in> set ?ps" "check_id pc = js p" "lookup_check (processByIdFrom ?ps) (js p) = pc"
    by (rule lookup_process)
  have "js t \<in> set (map check_id ?ts)" using ids(2) accepted_terminals(2)[OF assms(1)] by auto
  then obtain tc where tc: "tc \<in> set ?ts" "check_id tc = js t" "lookup_check (processByIdFrom ?ts) (js t) = tc"
    by (rule lookup_process)
  have pair: "processTerminalPair (processByIdFrom ?ps) (processByIdFrom ?ts) ?arts (p, t) = Inr ()"
    using req(6) ids(3) by (auto simp: list_all_iff)
  have eq: "getp pc ''rawExit'' = getp tc ''rawExit''" and reference: "validateTerminalArtifactReference tc pc ?arts = Inr ()"
    using pair pc(3) tc(3) by (auto simp: processTerminalPair_def Let_def bindR_eq_Inr dest: strict_eqD)
  have sub: "pc \<in> set ?cs" "tc \<in> set ?cs" using pc(1) tc(1) by (auto simp: process_checks_def verdict_checks_def)
  have "getp pc ''id'' = JStr (js p)" using acc(1) sub(1) pc(2) by (auto simp: list_all_iff)
  note ref = artifact_reference[OF reference this]
  have "terminal_exit (processByIdFrom ?ts) t n" using semantics_exits[OF req(7)] assms(2) by (auto simp: list_all_iff)
  then have "getp tc ''rawExit'' = natValue n" using tc(3) by (simp add: terminal_exit_def)
  then show ?thesis using sub pc(2) tc(2) eq ref unfolding control_recorded_def Let_def prod.case by auto
qed

text \<open>C38: an accepted passing document records that every negative control failed as it has to and every
  scan succeeded: the missing-database control ended with 127, the canaries and the blocking fixtures with
  1, the vulnerability, licence and Semgrep scans with 0, and each terminal check has the exit code of its
  process and the digests of its recorded streams.\<close>

theorem accepted_controls_have_their_exits:
  "case validateEvidenceDocument E W host cwd depth schema ev ctx of
     Inl _ \<Rightarrow> True
   | Inr _ \<Rightarrow> if is_str (getp ev ''status'') ''PASS'' then list_all (control_recorded ev) control_exits else True"
  using control_is_recorded[of E host cwd ev ctx] accepted_document[of E W host cwd depth schema ev ctx]
  by (auto simp: list_all_iff split: sum.splits)

section \<open>Blobs\<close>

text \<open>The bytes of a described file: those in the cache, whose digest is the described one and whose git object
  identifier is the one of the index.\<close>

definition blob_bound :: "jsenv \<Rightarrow> blob_source \<Rightarrow> jsval \<Rightarrow> bool" where
  "blob_bound E source d \<longleftrightarrow>
     (\<exists>entry cached bytes k. map_of (bs_index source) (entry_path d) = Some entry
        \<and> map_of (bs_cache source) (entry_path d) = Some cached \<and> cb_bytes cached = Some bytes
        \<and> regularMode (getp entry ''mode'') \<and> getp d ''sha256'' = JStr (sha256Bytes E bytes)
        \<and> getp entry ''objectId'' = JStr k \<and> cb_objectId cached = JStr k \<and> gitBlobObjectId E bytes (length k) = Inr k)"

definition blobs_exact :: "jsenv \<Rightarrow> string \<Rightarrow> jsval \<Rightarrow> blob_source \<Rightarrow> jsval list \<Rightarrow> bool" where
  "blobs_exact E prefix ev source ds \<longleftrightarrow>
     mset (map fst (bs_cache source)) = mset (map entry_path ds)
     \<and> set (filter (blob_id prefix) (map check_id (process_checks (elements_in (getp ev ''checks'')))))
         = blobProcessId E prefix ` set (map entry_path ds)
     \<and> list_all (blob_bound E source) ds"

lemma same_sorted:
  "sameCanonical E (strings (sort a)) (strings (sort b)) m = Inr u \<Longrightarrow> mset a = mset b"
  by (metis sameCanonical_Inr canonR_strings sort_eq_iff)

lemma tracked_blob_Inr:
  assumes "validateTrackedBlobProcess E cwd check d ev source = Inr u"
  shows "blob_bound E source d"
proof -
  obtain entry cached bytes where b: "map_of (bs_index source) (entry_path d) = Some entry"
    "map_of (bs_cache source) (entry_path d) = Some cached" "cb_bytes cached = Some bytes"
    "trackedIdentity E d entry (cb_objectId cached) bytes" "assertGitBlobObjectId E bytes (getp entry ''objectId'') = Inr ()"
    using assms by (auto simp: validateTrackedBlobProcess_def Let_def bindR_eq_Inr split: option.splits)
  obtain k where k: "getp entry ''objectId'' = JStr k" "gitBlobObjectId E bytes (length k) = Inr k"
    using b(5) by (auto simp: assertGitBlobObjectId_def bindR_eq_Inr split: jsval.splits)
  have "cb_objectId cached = JStr k" "regularMode (getp entry ''mode'')" "getp d ''sha256'' = JStr (sha256Bytes E bytes)"
    using b(4) k(1) by (auto simp: trackedIdentity_def dest: strict_eqD)
  then show ?thesis using b(1-3) k unfolding blob_bound_def by blast
qed

lemma blobProcesses_Inr:
  assumes "blobProcesses E cwd prefix (processByIdFrom (process_checks (elements_in (getp ev ''checks'')))) ev source ds = Inr u"
  shows "blobs_exact E prefix ev source ds"
proof -
  let ?ps = "process_checks (elements_in (getp ev ''checks''))"
  have ids: "map fst (processByIdFrom ?ps) = map check_id ?ps" by (simp add: processByIdFrom_def check_id_def)
  have b: "sameCanonical E (strings (sort (map fst (bs_cache source)))) (strings (sort (map entry_path ds)))
      ''Git blob cache inventory is incomplete or excessive'' = Inr ()"
    "blobInventory E prefix (map check_id ?ps) (map (\<lambda>d. blobProcessId E prefix (entry_path d)) ds) = Inr ()"
    "list_all (\<lambda>d. validateTrackedBlobProcess E cwd (lookup_check (processByIdFrom ?ps)
        (blobProcessId E prefix (entry_path d))) d ev source = Inr ()) ds"
    using assms unfolding blobProcesses_def bindR_eq_Inr ex_unit each_iff ids by auto
  have "set (uniq (filter (blob_id prefix) (map check_id ?ps)))
      = set (uniq (map (\<lambda>d. blobProcessId E prefix (entry_path d)) ds))"
    using same_sorted[OF b(2)[unfolded blobInventory_def]] by (metis set_mset_mset)
  then have "set (filter (blob_id prefix) (map check_id ?ps)) = blobProcessId E prefix ` set (map entry_path ds)"
    by (simp add: image_image)
  then show ?thesis using same_sorted[OF b(1)] b(3) tracked_blob_Inr unfolding blobs_exact_def by (auto simp: list_all_iff)
qed

definition target_blobs :: "pass_context \<Rightarrow> blob_source" where
  "target_blobs ctx = \<lparr>bs_cache = map_entries (px_trackedBlobCache ctx), bs_index = map_entries (px_trackedIndex ctx),
     bs_root = context_text ctx ''root''\<rparr>"

definition control_blobs :: "pass_context \<Rightarrow> blob_source" where
  "control_blobs ctx = \<lparr>bs_cache = map_entries (px_controlTrackedBlobCache ctx),
     bs_index = map_entries (px_controlTrackedIndex ctx), bs_root = context_text ctx ''controlRoot''\<rparr>"

definition inputs_bound :: "jsenv \<Rightarrow> jsval \<Rightarrow> pass_context \<Rightarrow> bool" where
  "inputs_bound E ev ctx \<longleftrightarrow>
     (\<exists>ds cs. trackedInputDescriptors E ev = Inr ds \<and> blobs_exact E ''PROCESS-GIT-BLOB-'' ev (target_blobs ctx) ds
        \<and> controlInputDescriptors E ev = Inr cs \<and> blobs_exact E ''PROCESS-GIT-CONTROL-BLOB-'' ev (control_blobs ctx) cs)"

lemma inputs_are_bound:
  assumes "accepted_pass E host cwd ev ctx"
  shows "inputs_bound E ev ctx"
proof -
  let ?ps = "process_checks (elements_in (getp ev ''checks''))"
  have "validateRequiredProcessChecks E host cwd ?ps ev ctx = Inr ()" using assms by (auto simp: accepted_pass_def Let_def)
  note dyn = required_Inr(5)[OF this]
  obtain ds cs where "trackedInputDescriptors E ev = Inr ds" "controlInputDescriptors E ev = Inr cs"
    "blobProcesses E cwd ''PROCESS-GIT-BLOB-'' (processByIdFrom ?ps) ev (target_blobs ctx) ds = Inr ()"
    "blobProcesses E cwd ''PROCESS-GIT-CONTROL-BLOB-'' (processByIdFrom ?ps) ev (control_blobs ctx) cs = Inr ()"
    using dyn unfolding validateDynamicBlobProcesses_def Let_def bindR_eq_Inr ex_unit target_blobs_def[symmetric]
      control_blobs_def[symmetric] by blast
  then show ?thesis using blobProcesses_Inr unfolding inputs_bound_def by blast
qed

text \<open>C39: in an accepted passing document the recorded git blob processes are exactly those of the described
  inputs, of the target and of the control source, the cached blobs are exactly the described files, and
  every described file has the digest of the cached bytes, which are the bytes of the git object in the
  index.\<close>

theorem accepted_inputs_are_git_blobs:
  "case validateEvidenceDocument E W host cwd depth schema ev ctx of
     Inl _ \<Rightarrow> True
   | Inr _ \<Rightarrow> if is_str (getp ev ''status'') ''PASS'' then inputs_bound E ev ctx else True"
  using inputs_are_bound[of E host cwd ev ctx] accepted_document[of E W host cwd depth schema ev ctx]
  by (auto split: sum.splits)

section \<open>A failing document\<close>

text \<open>A document without checks that reports a failure, as the runner writes it, is accepted.\<close>

definition sample_failure :: jsval where
  "sample_failure = JObj
     [(js ''schemaVersion'', natValue 2), (js ''gateId'', JStr (js ''R-016'')), (js ''runId'', JStr (js ''1'')),
      (js ''status'', JStr (js ''FAIL'')), (js ''startedAt'', JStr (js ''1'')), (js ''finishedAt'', JStr (js ''2'')),
      (js ''exitCode'', natValue 1), (js ''source'', JObj []), (js ''controlSource'', JObj []), (js ''inputs'', JObj []),
      (js ''environment'', JObj []), (js ''tools'', JObj []), (js ''advisoryDatabases'', JArr []), (js ''checks'', JArr []),
      (js ''rawArtifacts'', JArr []), (js ''failure'', JObj [(js ''code'', JStr (js ''X''))])]"

lemma sample_failure_accepted:
  "\<exists>u. (validateEvidenceDocument sample_env W host cwd 0 JUndef sample_failure ctx) = Inr u"
  by (rule exI[of _ "()"]) code_simp

end
