(* ===== verification/Spec2Isabelle.thy ===== *)
theory Spec2Isabelle
  imports Strict_Json Policy_Props Verdict_Gate Inventory_Props Image_Canary Archive_Safety Virtual_Tree Schema_Props Docker_Run_Sample Process_Props Evidence_Pass_Props
begin

text \<open>
  \<^bold>\<open>Verification development for the supply-chain gates of HedefOra.\<close>

  HedefOra is at this commit a repository without product features whose own core logic is the JavaScript
  under \<^verbatim>\<open>src/scripts\<close>: the gates that decide whether the locked dependencies, the sources and the
  container images may pass.  The development models these gates as functions on the values of the
  language and proves what an accepting verdict guarantees.

  \<^bold>\<open>The parts of the program and how they interact.\<close>
  \<^item> \<^verbatim>\<open>scripts/supply-chain/run.mjs\<close> orchestrates gate R-016: it fetches the locked tools and databases,
    runs scanners in containers through \<^verbatim>\<open>process.mjs\<close>, hands their output to the evaluators of
    \<^verbatim>\<open>policy.mjs\<close> and the inventories of \<^verbatim>\<open>inventory.mjs\<close>, goes on only with a passing verdict
    (\<^verbatim>\<open>requireVerdict\<close>), records every process and control in an evidence document and has it validated
    by \<^verbatim>\<open>contracts.mjs\<close> against seals it kept itself.
  \<^item> \<^verbatim>\<open>scripts/postgres-image/policy.mjs\<close> decides the admission of the PostgreSQL image from catalogues,
    reports and canaries; \<^verbatim>\<open>apk-runtime/archive-data.mjs\<close> reads the untrusted archives it is built from.

  \<^bold>\<open>The theories.\<close>
  \<^item> \<open>Js_Prelude\<close>, \<open>Js_Runtime\<close>, \<open>Js_Objects\<close>: the language.  A string is the list of its UTF-16 code units, a
    number a \<open>jnum\<close> with the exact value of the double, a value a \<open>jsval\<close>, an object the list of its own
    properties in insertion order.  A throwing computation is a sum (\<open>bindR\<close>, \<open>mapR\<close>, \<open>foldR\<close>) or an
    option.  Native functions that are not modelled, such as hashing, \<^verbatim>\<open>Date.parse\<close>, number printing, case
    mapping and locale order, are the fields of the record \<open>jsenv\<close>, which every definition takes as an
    argument.  The generic lemmas and the collections of simplification rules are here.
  \<^item> \<open>Strict_Json\<close>: \<^verbatim>\<open>StrictJsonParser\<close>, \<^verbatim>\<open>parseStrictJson\<close> and \<^verbatim>\<open>canonicalJson\<close> of \<^verbatim>\<open>policy.mjs\<close>.  The parser is a
    function of fuel and the rest of the text; \<open>parseStrictJson\<close> gives the length of the text plus one,
    which is enough because every nested call consumes a unit (the theorem that the reader never runs
    out is in this theory).  Round trip and safety of what is accepted.
  \<^item> \<open>Policy\<close>, \<open>Policy_Props\<close>, \<open>Verdict_Gate\<close>: the evaluators \<^verbatim>\<open>evaluateOsvVulnerabilities\<close>,
    \<^verbatim>\<open>evaluateOsvLicenses\<close>, \<^verbatim>\<open>evaluateSemgrep\<close>, \<^verbatim>\<open>validateDatabaseIdentity\<close>, and \<^verbatim>\<open>requireRawExit\<close> and
    \<^verbatim>\<open>requireVerdict\<close> of \<^verbatim>\<open>run.mjs\<close>; what a pass guarantees, that parity counts multisets, that every
    verdict is well formed and that the gate is decisive.
  \<^item> \<open>Inventory\<close>, \<open>Inventory_Props\<close>: \<^verbatim>\<open>inventory.mjs\<close>, the pnpm lockfile reader, the grammar of package keys,
    quoted mapping keys and the parity with an OSV result.
  \<^item> \<open>Image_Policy\<close>, \<open>Image_Policy_Props\<close>, \<open>Image_Canary\<close>: \<^verbatim>\<open>postgres-image/policy.mjs\<close>.  A check is the list
    of issued findings with the result of the part that did not throw; the lemmas on clean checks turn each
    evaluator into the conjunction of its conditions.
  \<^item> \<open>Archive\<close>, \<open>Archive_Props\<close>, \<open>Archive_Safety\<close>, \<open>Virtual_Tree\<close>: \<^verbatim>\<open>archive-data.mjs\<close>, the tar and gzip readers
    as loops over the rest of the input, the deterministic writer, and the check of links, whose
    resolution is also an inductive step relation.  The code itself bounds a resolution to 40 hops.
  \<^item> \<open>Repository\<close>, \<open>Repository_Props\<close>, \<open>Schema\<close>, \<open>Schema_Props\<close>, \<open>Docker_Run\<close>, \<open>Docker_Run_Props\<close>,
    \<open>Docker_Run_Sample\<close>, \<open>Evidence\<close>, \<open>Evidence_Props\<close>, \<open>Evidence_Seals\<close>, \<open>Evidence_Inputs\<close>, \<open>Evidence_Tools\<close>,
    \<open>Evidence_Processes\<close>, \<open>Evidence_Terminals\<close>, \<open>Evidence_Pass\<close>, \<open>Evidence_Pass_Props\<close>: \<^verbatim>\<open>contracts.mjs\<close>, all of it.
    In the order of the code: the git index and the selection of sources; the schema validator; the reader
    of recorded \<^verbatim>\<open>docker run\<close> vectors and the table of locked runs; the structure of an evidence document and
    the linkage of its artifacts; the seals; the inputs, tools, processes and terminal checks of a passing
    document; and \<^verbatim>\<open>validateEvidenceDocument\<close>, which composes them.  The trusted context of a run is the
    record \<open>pass_context\<close>, a \<^verbatim>\<open>Map\<close> the list of its entries.
  \<^item> \<open>Process\<close>, \<open>Process_Props\<close>: \<^verbatim>\<open>process.mjs\<close>, the runner of a child process as a state record, handlers
    for its events and an inductive step relation; the theorems are invariants over every order of
    events.

  \<^bold>\<open>Interfaces.\<close>  Locales state what one part relies on of another, and each is interpreted on the model:
  \<open>value_reader\<close> (what the parser of elements and members relies on of the parser of values),
  \<open>reader_agreement\<close> (the host reads what the strict reader reads), \<open>policy_gate\<close> (every verdict an evaluator
  returns is well formed), \<open>evaluator\<close> (a report is that of a check), \<open>validator_order\<close> and \<open>validator_meaning\<close>
  (the recursive call of the schema validator) and \<open>run_invariant\<close> (an invariant of every order of the events
  of a child process).

  \<^bold>\<open>Bounds and fuel.\<close>  The fuel of the JSON readers is the length of the text plus one.  The schema validator
  follows references that may be circular, so the depth of its call stack is an argument and running out of
  it is a result, the \<^verbatim>\<open>RangeError\<close> of the runtime: the verdict is the same on every deeper stack, and a
  schema without references is decided on a stack as deep as schema and value are nested.  The depth
  counts calls of \<^verbatim>\<open>validateSchemaValue\<close> and levels of \<^verbatim>\<open>canonicalJson\<close>, not native frames; the stack that
  the strict reader and the check of supported keywords use, which recurse over one finite value, is not
  modelled.  All other recursion is structural or over a measure that the code decreases.

  \<^bold>\<open>Parameters.\<close>  \<open>jsenv\<close> as above; \<open>webenv\<close> for regular expressions and the URL parser in schemas; \<open>zlib\<close> for the
  two inflate functions and \<open>host_runtime\<close> for \<^verbatim>\<open>process.env\<close>, version, platform and architecture; \<open>cwd\<close> for
  the working directory of \<^verbatim>\<open>path.resolve\<close>.  Hypotheses about them are named (\<open>lowers\<close>: lower case is the usual
  one on ASCII; \<open>unquoted_numbers\<close>, \<open>num_readable\<close>: numbers print as numbers) and each theorem that has one has
  a witness in which the environment \<open>sample_env\<close> satisfies it.  \<^verbatim>\<open>localeCompare\<close> with the default locale and
  with \<^verbatim>\<open>en\<close> is one parameter.

  \<^bold>\<open>Not modelled.\<close>  Texts of messages and details of findings are reduced to a constructor or a code.  The
  special enumeration order of integer-like keys, inherited properties and getters do not occur in documents
  read from JSON.  Of \<^verbatim>\<open>run.mjs\<close> only the two functions that consume scanner results are modelled: the rest is
  file, network and container input and output around the modelled parts.  \<^verbatim>\<open>database.mjs\<close> (download of the
  advisory databases), the other scripts (generation and validation of the OpenAPI contract, licences,
  governance documents), the Go backend, the web application and the tests are not modelled.
\<close>

end
